(* ===== verification/Go_Prelude.thy ===== *)
theory Go_Prelude
  imports Main "HOL-Library.Word"
begin

text \<open>
  Shared ground of the development: the Go types the components use, the parts of Go's
  standard library they call (big integers as \<^typ>\<open>int\<close>, big-endian byte conversion,
  \<open>sort.Search\<close>, slices), and the generic facts the component proofs rest on.

  Conventions.  A \<open>uint64\<close> is a \<^typ>\<open>64 word\<close>, so its arithmetic wraps as Go's does.  A
  \<open>*big.Int\<close> is an \<^typ>\<open>int\<close>: the code never keeps two live references to one big integer
  across a mutation (operands are popped, changed and pushed back), so values suffice.  A
  byte slice is a list of \<^typ>\<open>8 word\<close>; \<open>nil\<close> and the empty slice are both \<open>[]\<close> except where
  the code tests for \<open>nil\<close>, where the model uses an option.  \<open>common.Hash\<close> and
  \<open>common.Address\<close>, arrays of 32 and 20 bytes, are words of 256 and 160 bits, read big-endian.
\<close>

type_synonym byte = "8 word"
type_synonym bytes = "byte list"
type_synonym u64 = "64 word"
type_synonym bigint = int
type_synonym hash = "256 word"
type_synonym address = "160 word"

named_theorems u64_simps \<open>unat of the checked 64-bit operations\<close>
named_theorems go_defs \<open>definitions that only rename a library call\<close>

section \<open>Words and naturals\<close>

lemma unat_u64_less: "unat (x :: u64) < 18446744073709551616"
  using unsigned_less [of x] by simp

lemma unat_u64_le: "unat (x :: u64) \<le> 18446744073709551615"
  using unat_u64_less [of x] by simp

lemma unat_add_u64:
  "unat (x :: u64) + unat y < 18446744073709551616 \<Longrightarrow> unat (x + y) = unat x + unat y"
  by (simp add: unat_word_ariths)

lemma unat_sub_u64: "(y :: u64) \<le> x \<Longrightarrow> unat (x - y) = unat x - unat y"
  by (rule unat_sub)

lemma unat_mul_u64:
  "unat (x :: u64) * unat y < 18446744073709551616 \<Longrightarrow> unat (x * y) = unat x * unat y"
  by (simp add: unat_word_ariths)

lemma unat_div_u64: "unat (x div y :: u64) = unat x div unat y"
  by (rule unat_div)

lemma of_nat_u64_inverse: "n < 18446744073709551616 \<Longrightarrow> unat (of_nat n :: u64) = n"
  by (simp add: unat_of_nat)

lemma of_int_u64_inverse:
  "0 \<le> x \<Longrightarrow> x < 18446744073709551616 \<Longrightarrow> uint (of_int x :: u64) = x"
  by (simp add: uint_word_of_int)

lemma unat_of_int_u64:
  "0 \<le> x \<Longrightarrow> x < 18446744073709551616 \<Longrightarrow> unat (of_int x :: u64) = nat x"
  by (metis of_int_u64_inverse nat_uint_eq)

lemma uint_hash_bounds: "0 \<le> uint (h :: hash)" "uint h < 2 ^ 256"
  using uint_bounded [of h] by simp_all

lemma uint_address_bounds: "0 \<le> uint (a :: address)" "uint a < 2 ^ 160"
  using uint_bounded [of a] by simp_all

section \<open>Big integers of math/big\<close>

text \<open>\<open>x.BitLen()\<close>: the length of the absolute value in bits; 0 for 0.\<close>

fun nat_bitlen :: "nat \<Rightarrow> nat" where
  "nat_bitlen n = (if n = 0 then 0 else Suc (nat_bitlen (n div 2)))"

declare nat_bitlen.simps [simp del]

definition BitLen :: "bigint \<Rightarrow> nat" where
  "BitLen x = nat_bitlen (nat \<bar>x\<bar>)"

lemma nat_bitlen_le_iff: "nat_bitlen n \<le> k \<longleftrightarrow> n < 2 ^ k"
proof (induction n arbitrary: k rule: nat_bitlen.induct)
  case (1 n)
  show ?case
  proof (cases "n = 0")
    case True
    then show ?thesis by (simp add: nat_bitlen.simps)
  next
    case False
    show ?thesis
    proof (cases k)
      case 0
      with False show ?thesis by (simp add: nat_bitlen.simps [of n])
    next
      case (Suc j)
      have "nat_bitlen n \<le> k \<longleftrightarrow> nat_bitlen (n div 2) \<le> j"
        using False Suc by (simp add: nat_bitlen.simps [of n])
      also have "\<dots> \<longleftrightarrow> n div 2 < 2 ^ j" using "1"(1) [OF False, of j] .
      also have "\<dots> \<longleftrightarrow> n < 2 ^ k" using Suc by auto
      finally show ?thesis .
    qed
  qed
qed

lemma BitLen_le_iff: "BitLen x \<le> k \<longleftrightarrow> \<bar>x\<bar> < 2 ^ k"
proof -
  have "nat \<bar>x\<bar> < 2 ^ k \<longleftrightarrow> \<bar>x\<bar> < 2 ^ k"
    by (metis abs_ge_zero nat_less_iff of_nat_numeral of_nat_power)
  then show ?thesis by (simp add: BitLen_def nat_bitlen_le_iff)
qed

lemma BitLen_gt_64: "\<not> 64 < BitLen x \<longleftrightarrow> \<bar>x\<bar> < 18446744073709551616"
  using BitLen_le_iff [of x 64] by (simp add: not_less)

lemma BitLen_pos_iff: "0 < BitLen x \<longleftrightarrow> x \<noteq> 0"
  using BitLen_le_iff [of x 0] by auto

text \<open>\<open>x.Uint64()\<close> and \<open>x.Int64()\<close>: the low 64 bits of the absolute value, negated for a
  negative \<open>x\<close> in the signed case.\<close>

definition big_Uint64 :: "bigint \<Rightarrow> u64" where
  "big_Uint64 x = of_int \<bar>x\<bar>"

definition big_Int64 :: "bigint \<Rightarrow> u64" where
  "big_Int64 x = (if x < 0 then - of_int \<bar>x\<bar> else of_int \<bar>x\<bar>)"

lemma unat_big_Uint64: "0 \<le> x \<Longrightarrow> x < 18446744073709551616 \<Longrightarrow> unat (big_Uint64 x) = nat x"
  by (simp add: big_Uint64_def unat_of_int_u64)

lemma big_Uint64_uint [simp]: "big_Uint64 (uint (w :: u64)) = w"
  by (simp add: big_Uint64_def)

text \<open>\<open>new(big.Int).SetBytes(b)\<close> and \<open>x.Bytes()\<close>, both big-endian.\<close>

definition SetBytes :: "bytes \<Rightarrow> bigint" where
  "SetBytes bs = foldl (\<lambda>a b. a * 256 + uint b) 0 bs"

fun nat_bytes :: "nat \<Rightarrow> bytes" where
  "nat_bytes n = (if n = 0 then [] else nat_bytes (n div 256) @ [of_nat (n mod 256)])"

declare nat_bytes.simps [simp del]

definition big_Bytes :: "bigint \<Rightarrow> bytes" where
  "big_Bytes x = nat_bytes (nat \<bar>x\<bar>)"

lemma SetBytes_Nil [simp]: "SetBytes [] = 0"
  by (simp add: SetBytes_def)

lemma SetBytes_snoc [simp]: "SetBytes (bs @ [b]) = SetBytes bs * 256 + uint b"
  by (simp add: SetBytes_def)

lemma SetBytes_nonneg [simp]: "0 \<le> SetBytes bs"
  by (induction bs rule: rev_induct) auto

lemma SetBytes_less: "SetBytes bs < 256 ^ length bs"
proof (induction bs rule: rev_induct)
  case (snoc b bs)
  have "uint b < 256" using uint_bounded [of b] by simp
  with snoc show ?case by simp
qed simp

lemma SetBytes_append: "SetBytes (as @ bs) = SetBytes as * 256 ^ length bs + SetBytes bs"
  by (induction bs rule: rev_induct) (auto simp: algebra_simps simp flip: append_assoc)

lemma SetBytes_replicate_0 [simp]: "SetBytes (replicate n 0) = 0"
proof (induction n)
  case (Suc n)
  have "replicate (Suc n) (0 :: byte) = replicate n 0 @ [0]"
    by (simp add: replicate_append_same)
  with Suc show ?case by (simp only: SetBytes_snoc) simp
qed simp

lemma SetBytes_nat_bytes: "SetBytes (nat_bytes n) = int n"
proof (induction n rule: nat_bytes.induct)
  case (1 n)
  show ?case
  proof (cases "n = 0")
    case True
    then show ?thesis by (simp add: nat_bytes.simps)
  next
    case False
    have "uint (of_nat (n mod 256) :: byte) = int (n mod 256)"
      by (simp add: uint_nat unat_of_nat)
    moreover have "int (n div 256) * 256 + int (n mod 256) = int n"
      by (metis div_mult_mod_eq of_nat_add of_nat_mult of_nat_numeral)
    ultimately show ?thesis using "1" False by (simp add: nat_bytes.simps [of n])
  qed
qed

lemma SetBytes_big_Bytes: "SetBytes (big_Bytes x) = \<bar>x\<bar>"
  by (simp add: big_Bytes_def SetBytes_nat_bytes)

lemma length_nat_bytes_le_iff: "length (nat_bytes n) \<le> k \<longleftrightarrow> n < 256 ^ k"
proof (induction n arbitrary: k rule: nat_bytes.induct)
  case (1 n)
  show ?case
  proof (cases "n = 0")
    case True
    then show ?thesis by (simp add: nat_bytes.simps)
  next
    case False
    show ?thesis
    proof (cases k)
      case 0
      with False show ?thesis by (simp add: nat_bytes.simps [of n])
    next
      case (Suc j)
      have "length (nat_bytes n) \<le> k \<longleftrightarrow> length (nat_bytes (n div 256)) \<le> j"
        using False Suc by (simp add: nat_bytes.simps [of n])
      also have "\<dots> \<longleftrightarrow> n div 256 < 256 ^ j" using "1"(1) [OF False, of j] .
      also have "\<dots> \<longleftrightarrow> n < 256 ^ k"
        using Suc by (simp add: div_less_iff_less_mult mult.commute)
      finally show ?thesis .
    qed
  qed
qed

section \<open>sort.Search\<close>

text \<open>Go's binary search: the smallest index in \<open>[i, j)\<close> at which \<open>f\<close> holds, for an \<open>f\<close> that
  once true stays true.\<close>

function sort_search :: "(nat \<Rightarrow> bool) \<Rightarrow> nat \<Rightarrow> nat \<Rightarrow> nat" where
  "sort_search f i j =
     (if i < j then
        (let h = (i + j) div 2 in if \<not> f h then sort_search f (h + 1) j else sort_search f i h)
      else i)"
  by pat_completeness auto
termination
  by (relation "measure (\<lambda>(f, i, j). j - i)") auto

declare sort_search.simps [simp del]

definition sort_Search :: "nat \<Rightarrow> (nat \<Rightarrow> bool) \<Rightarrow> nat" where
  "sort_Search n f = sort_search f 0 n"

lemma sort_search_least:
  assumes "i \<le> k" "k \<le> j"
    and "\<And>a. a < k \<Longrightarrow> \<not> f a" "\<And>a. k \<le> a \<Longrightarrow> a < j \<Longrightarrow> f a"
  shows "sort_search f i j = k"
  using assms
proof (induction f i j rule: sort_search.induct)
  case (1 f i j)
  let ?h = "(i + j) div 2"
  show ?case
  proof (cases "i < j")
    case True
    then have h: "i \<le> ?h" "?h < j" by auto
    show ?thesis
    proof (cases "f ?h")
      case fh: True
      with "1.prems"(3) have "k \<le> ?h" by (meson not_less)
      then have "sort_search f i ?h = k"
        using "1.IH"(2) [OF True refl] fh "1.prems" h by force
      then show ?thesis using True fh by (simp add: sort_search.simps [of f i j] Let_def)
    next
      case fh: False
      have "?h + 1 \<le> k"
      proof (rule ccontr)
        assume "\<not> ?h + 1 \<le> k"
        then have "f ?h" using "1.prems"(4) [of ?h] h by simp
        then show False using fh by simp
      qed
      then have "sort_search f (?h + 1) j = k"
        using "1.IH"(1) [OF True refl fh] "1.prems" by blast
      then show ?thesis using True fh by (simp add: sort_search.simps [of f i j] Let_def)
    qed
  next
    case False
    with "1.prems" show ?thesis by (simp add: sort_search.simps [of f i j])
  qed
qed

lemma sort_Search_least:
  "k \<le> n \<Longrightarrow> (\<And>a. a < k \<Longrightarrow> \<not> f a) \<Longrightarrow> (\<And>a. k \<le> a \<Longrightarrow> a < n \<Longrightarrow> f a) \<Longrightarrow> sort_Search n f = k"
  by (simp add: sort_Search_def sort_search_least)

lemma sort_search_in_range: "i \<le> j \<Longrightarrow> i \<le> sort_search f i j \<and> sort_search f i j \<le> j"
proof (induction f i j rule: sort_search.induct)
  case (1 f i j)
  let ?h = "(i + j) div 2"
  show ?case
  proof (cases "i < j")
    case True
    then have "i \<le> ?h" "?h < j" by auto
    with True show ?thesis
      using "1.IH"(1) [OF True refl] "1.IH"(2) [OF True refl]
      by (cases "f ?h") (auto simp: sort_search.simps [of f i j] Let_def)
  next
    case False
    with "1.prems" have "i = j" by simp
    then show ?thesis by (simp add: sort_search.simps [of f j j])
  qed
qed

section \<open>Slices\<close>

text \<open>\<open>copy(dst[off:off+n], src)\<close>: the first \<open>min n (len src)\<close> bytes of the window are
  overwritten, the rest of \<open>dst\<close> stays.\<close>

definition slice_copy :: "'a list \<Rightarrow> nat \<Rightarrow> nat \<Rightarrow> 'a list \<Rightarrow> 'a list" where
  "slice_copy dst off n src =
     take off dst @ take n src @ drop (off + min n (length src)) dst"

lemma length_slice_copy:
  "off + n \<le> length dst \<Longrightarrow> length (slice_copy dst off n src) = length dst"
  by (auto simp: slice_copy_def min_def)

lemma nth_slice_copy:
  assumes "off + n \<le> length dst" "i < length dst"
  shows "slice_copy dst off n src ! i =
    (if off \<le> i \<and> i < off + min n (length src) then src ! (i - off) else dst ! i)"
  using assms by (auto simp: slice_copy_def nth_append min_def)

text \<open>The slice \<open>xs[lo:hi]\<close>; the callers establish \<open>lo \<le> hi \<le> len xs\<close>.\<close>

definition subslice :: "'a list \<Rightarrow> nat \<Rightarrow> nat \<Rightarrow> 'a list" where
  "subslice xs lo hi = take (hi - lo) (drop lo xs)"

lemma length_subslice: "lo \<le> hi \<Longrightarrow> hi \<le> length xs \<Longrightarrow> length (subslice xs lo hi) = hi - lo"
  by (simp add: subslice_def)

lemma nth_subslice:
  "lo \<le> hi \<Longrightarrow> hi \<le> length xs \<Longrightarrow> i < hi - lo \<Longrightarrow> subslice xs lo hi ! i = xs ! (lo + i)"
  by (simp add: subslice_def)

lemma nth_list_update_if: "xs[i := x] ! j = (if i = j \<and> i < length xs then x else xs ! j)"
  by (cases "i = j") (auto simp: not_less list_update_beyond)

end
