(* ===== verification/Common_Math.thy ===== *)
theory Common_Math
  imports Go_Prelude
begin

text \<open>
  The packages \<open>common\<close> (bytes.go, types.go) and \<open>common/math\<close> (big.go, integer.go): padding,
  conversion between bytes, big integers, hashes and addresses, checked 64-bit arithmetic, and
  the 256-bit helpers of the virtual machine.  The optimised routines that walk the words of a
  big integer (\<open>ReadBits\<close>, \<open>Byte\<close>, \<open>Exp\<close>) are translated loop by loop and shown equal to
  their arithmetic meaning.
\<close>

unbundle bit_operations_syntax

section \<open>common/bytes.go\<close>

definition RightPadBytes :: "bytes \<Rightarrow> nat \<Rightarrow> bytes" where
  "RightPadBytes sl l =
     (if l \<le> length sl then sl else slice_copy (replicate l 0) 0 l sl)"

definition LeftPadBytes :: "bytes \<Rightarrow> nat \<Rightarrow> bytes" where
  "LeftPadBytes sl l =
     (if l \<le> length sl then sl
      else slice_copy (replicate l 0) (l - length sl) (length sl) sl)"

lemma RightPadBytes_eq: "RightPadBytes sl l = sl @ replicate (l - length sl) 0"
  by (auto simp: RightPadBytes_def slice_copy_def min_def)

lemma LeftPadBytes_eq: "LeftPadBytes sl l = replicate (l - length sl) 0 @ sl"
  by (auto simp: LeftPadBytes_def slice_copy_def)

lemma length_RightPadBytes: "length (RightPadBytes sl l) = max l (length sl)"
  by (simp add: RightPadBytes_eq)

section \<open>common/types.go\<close>

text \<open>\<open>Hash.SetBytes\<close> keeps the last 32 bytes of a longer slice and right-aligns a shorter one;
  \<open>Address.SetBytes\<close> does the same with 20.\<close>

definition crop_left :: "nat \<Rightarrow> bytes \<Rightarrow> bytes" where
  "crop_left n b = (if length b > n then drop (length b - n) b else b)"

definition BytesToHash :: "bytes \<Rightarrow> hash" where
  "BytesToHash b = of_int (SetBytes (crop_left 32 b))"

definition BytesToAddress :: "bytes \<Rightarrow> address" where
  "BytesToAddress b = of_int (SetBytes (crop_left 20 b))"

definition BigToHash :: "bigint \<Rightarrow> hash" where
  "BigToHash b = BytesToHash (big_Bytes b)"

definition BigToAddress :: "bigint \<Rightarrow> address" where
  "BigToAddress b = BytesToAddress (big_Bytes b)"

definition Hash_Big :: "hash \<Rightarrow> bigint" where
  "Hash_Big h = uint h"

definition Address_Big :: "address \<Rightarrow> bigint" where
  "Address_Big a = uint a"

definition EmptyHash :: "hash \<Rightarrow> bool" where
  "EmptyHash h \<longleftrightarrow> h = 0"

lemma SetBytes_crop_left_mod: "SetBytes b mod 256 ^ n = SetBytes (crop_left n b) mod 256 ^ n"
proof (cases "length b > n")
  case True
  have "SetBytes b = SetBytes (take (length b - n) b @ drop (length b - n) b)" by simp
  also have "\<dots> = SetBytes (take (length b - n) b) * 256 ^ n + SetBytes (drop (length b - n) b)"
    using True by (simp only: SetBytes_append) simp
  finally show ?thesis using True by (simp add: crop_left_def)
qed (simp add: crop_left_def)

lemma of_int_mod_word: "of_int (x mod 2 ^ LENGTH('a)) = (of_int x :: 'a::len word)"
  by (simp add: word_of_int_eq_iff take_bit_eq_mod)

lemma BytesToHash_eq: "BytesToHash b = of_int (SetBytes b)"
proof -
  have "(256 :: int) ^ 32 = 2 ^ LENGTH(256)" by simp
  then show ?thesis
    using SetBytes_crop_left_mod [of b 32] of_int_mod_word [where 'a = 256]
    by (metis BytesToHash_def)
qed

lemma BytesToAddress_eq: "BytesToAddress b = of_int (SetBytes b)"
proof -
  have "(256 :: int) ^ 20 = 2 ^ LENGTH(160)" by simp
  then show ?thesis
    using SetBytes_crop_left_mod [of b 20] of_int_mod_word [where 'a = 160]
    by (metis BytesToAddress_def)
qed

lemma BigToHash_eq: "BigToHash b = of_int \<bar>b\<bar>"
  by (simp add: BigToHash_def BytesToHash_eq SetBytes_big_Bytes)

lemma BigToAddress_eq: "BigToAddress b = of_int \<bar>b\<bar>"
  by (simp add: BigToAddress_def BytesToAddress_eq SetBytes_big_Bytes)

lemma Hash_Big_nonneg [simp]: "0 \<le> Hash_Big h"
  by (simp add: Hash_Big_def)

lemma Address_Big_nonneg [simp]: "0 \<le> Address_Big a"
  by (simp add: Address_Big_def)

lemma BigToHash_Hash_Big: "BigToHash (Hash_Big h) = h"
  by (simp add: BigToHash_eq Hash_Big_def)

lemma BigToAddress_Address_Big: "BigToAddress (Address_Big a) = a"
  by (simp add: BigToAddress_eq Address_Big_def)

section \<open>common/math/integer.go\<close>

definition MaxUint64 :: u64 where
  "MaxUint64 = 18446744073709551615"

definition SafeSub :: "u64 \<Rightarrow> u64 \<Rightarrow> u64 \<times> bool" where
  "SafeSub x y = (x - y, x < y)"

definition SafeAdd :: "u64 \<Rightarrow> u64 \<Rightarrow> u64 \<times> bool" where
  "SafeAdd x y = (x + y, y > MaxUint64 - x)"

definition SafeMul :: "u64 \<Rightarrow> u64 \<Rightarrow> u64 \<times> bool" where
  "SafeMul x y = (if x = 0 \<or> y = 0 then (0, False) else (x * y, y > MaxUint64 div x))"

lemma unat_MaxUint64 [simp]: "unat MaxUint64 = 18446744073709551615"
  by (simp add: MaxUint64_def)

lemma le_MaxUint64 [simp]: "x \<le> MaxUint64"
  using unat_u64_le [of x] by (simp add: word_le_nat_alt)

lemma SafeAdd_overflow: "snd (SafeAdd x y) \<longleftrightarrow> 18446744073709551616 \<le> unat x + unat y"
  using unat_u64_le [of x] by (auto simp: SafeAdd_def word_less_nat_alt unat_sub_u64)

lemma SafeAdd_value: "\<not> snd (SafeAdd x y) \<Longrightarrow> unat (fst (SafeAdd x y)) = unat x + unat y"
  unfolding SafeAdd_overflow by (simp add: SafeAdd_def unat_add_u64)

lemma SafeMul_overflow: "snd (SafeMul x y) \<longleftrightarrow> 18446744073709551616 \<le> unat x * unat y"
proof (cases "x = 0 \<or> y = 0")
  case True
  then show ?thesis by (auto simp: SafeMul_def)
next
  case False
  then have pos: "0 < unat x" by (simp add: unat_gt_0)
  have "snd (SafeMul x y) \<longleftrightarrow> 18446744073709551615 div unat x < unat y"
    using False by (simp add: SafeMul_def word_less_nat_alt unat_div_u64)
  also have "\<dots> \<longleftrightarrow> 18446744073709551615 < unat y * unat x"
    using pos by (rule div_less_iff_less_mult)
  finally show ?thesis by (simp add: mult.commute) arith
qed

lemma SafeMul_value: "\<not> snd (SafeMul x y) \<Longrightarrow> unat (fst (SafeMul x y)) = unat x * unat y"
  using SafeMul_overflow [of x y] by (auto simp: SafeMul_def unat_mul_u64)

lemma SafeSub_underflow: "snd (SafeSub x y) \<longleftrightarrow> unat x < unat y"
  by (simp add: SafeSub_def word_less_nat_alt)

lemma SafeSub_value: "\<not> snd (SafeSub x y) \<Longrightarrow> unat (fst (SafeSub x y)) = unat x - unat y"
  by (simp add: SafeSub_def unat_sub_u64 not_less)

lemmas Safe_ops = SafeAdd_overflow SafeAdd_value SafeMul_overflow SafeMul_value
  SafeSub_underflow SafeSub_value
declare SafeAdd_value [u64_simps] SafeMul_value [u64_simps] SafeSub_value [u64_simps]

section \<open>common/math/big.go\<close>

definition tt255 :: bigint where "tt255 = 2 ^ 255"
definition tt256 :: bigint where "tt256 = 2 ^ 256"
definition tt256m1 :: bigint where "tt256m1 = tt256 - 1"

definition BigMax :: "bigint \<Rightarrow> bigint \<Rightarrow> bigint" where
  "BigMax x y = (if x < y then y else x)"

definition BigMin :: "bigint \<Rightarrow> bigint \<Rightarrow> bigint" where
  "BigMin x y = (if x > y then y else x)"

definition U256 :: "bigint \<Rightarrow> bigint" where
  "U256 x = x AND tt256m1"

definition S256 :: "bigint \<Rightarrow> bigint" where
  "S256 x = (if x < tt255 then x else x - tt256)"

lemma U256_mod: "U256 x = x mod 2 ^ 256"
  unfolding U256_def tt256m1_def tt256_def
  by (simp only: mask_eq_exp_minus_1 [symmetric] take_bit_eq_mask [symmetric] take_bit_eq_mod)

lemma U256_nonneg [simp]: "0 \<le> U256 x"
  by (simp add: U256_mod)

lemma U256_less: "U256 x < 2 ^ 256"
  by (simp add: U256_mod)

lemma U256_id: "0 \<le> x \<Longrightarrow> x < 2 ^ 256 \<Longrightarrow> U256 x = x"
  by (simp add: U256_mod)

lemma S256_signed:
  assumes "0 \<le> x" "x < 2 ^ 256"
  shows "S256 x = signed_take_bit 255 x"
proof (cases "x < 2 ^ 255")
  case True
  then have "signed_take_bit 255 x = x" using assms by (simp add: signed_take_bit_int_eq_self)
  with True show ?thesis by (simp add: S256_def tt255_def)
next
  case False
  have "signed_take_bit 255 x = signed_take_bit 255 (x - 2 ^ 256)"
    by (rule signed_take_bit_eq_iff_take_bit_eq [THEN iffD2]) (simp add: take_bit_eq_mod)
  also have "\<dots> = x - 2 ^ 256" using assms False by (intro signed_take_bit_int_eq_self) simp_all
  finally show ?thesis using False by (simp add: S256_def tt255_def tt256_def)
qed

lemma S256_idem: "x < 2 ^ 256 \<Longrightarrow> S256 (S256 x) = S256 x"
  by (simp add: S256_def tt255_def tt256_def)

lemma U256_S256: "0 \<le> x \<Longrightarrow> x < 2 ^ 256 \<Longrightarrow> U256 (S256 x) = x"
  by (simp add: S256_def U256_mod tt255_def tt256_def)

subsection \<open>The words of a big integer\<close>

text \<open>\<open>x.Bits()\<close> of a 64-bit build: the absolute value as little-endian 64-bit words.\<close>

fun nat_words :: "nat \<Rightarrow> u64 list" where
  "nat_words n =
     (if n = 0 then []
      else of_nat (n mod 18446744073709551616) # nat_words (n div 18446744073709551616))"

declare nat_words.simps [simp del]

definition big_Bits :: "bigint \<Rightarrow> u64 list" where
  "big_Bits x = nat_words (nat \<bar>x\<bar>)"

primrec words_val :: "u64 list \<Rightarrow> int" where
  "words_val [] = 0"
| "words_val (w # ws) = uint w + 2 ^ 64 * words_val ws"

lemma words_val_nonneg [simp]: "0 \<le> words_val ws"
  by (induction ws) auto

lemma words_val_less: "words_val ws < 2 ^ (64 * length ws)"
proof (induction ws)
  case (Cons w ws)
  have "uint w < 2 ^ 64" using uint_bounded [of w] by simp
  moreover have "(2 :: int) ^ (64 * length (w # ws)) = 2 ^ 64 * 2 ^ (64 * length ws)"
    by (simp add: power_add)
  ultimately show ?case using Cons by simp
qed simp

lemma words_val_nat_words: "words_val (nat_words n) = int n"
proof (induction n rule: nat_words.induct)
  case (1 n)
  show ?case
  proof (cases "n = 0")
    case True
    then show ?thesis by (simp add: nat_words.simps)
  next
    case False
    have "uint (of_nat (n mod 18446744073709551616) :: u64) = int (n mod 18446744073709551616)"
      by (simp add: uint_nat unat_of_nat)
    moreover have "int (n mod 18446744073709551616) + 18446744073709551616 *
        int (n div 18446744073709551616) = int n"
      using arg_cong [OF mod_mult_div_eq [of n 18446744073709551616], of int]
      by (simp only: of_nat_add of_nat_mult of_nat_numeral)
    ultimately show ?thesis using "1" False by (simp add: nat_words.simps [of n])
  qed
qed

lemma words_val_big_Bits: "0 \<le> x \<Longrightarrow> words_val (big_Bits x) = x"
  by (simp add: big_Bits_def words_val_nat_words)

lemma uint_drop_bit_div: "uint (drop_bit n (w :: 'a::len word)) = uint w div 2 ^ n"
  by (simp add: unsigned_drop_bit_eq take_bit_int_eq_self flip: drop_bit_eq_div)

text \<open>Byte \<open>k\<close>, counted from the least significant end.\<close>

definition le_byte :: "int \<Rightarrow> nat \<Rightarrow> byte" where
  "le_byte x k = of_int (x div 256 ^ k)"

text \<open>The twenty bytes of an address, most significant first.\<close>

definition Address_Bytes :: "address \<Rightarrow> bytes" where
  "Address_Bytes a = map (\<lambda>m. le_byte (uint a) (19 - m)) [0..<20]"

definition Hash_Bytes :: "hash \<Rightarrow> bytes" where
  "Hash_Bytes h = map (\<lambda>m. le_byte (uint h) (31 - m)) [0..<32]"

lemma length_Address_Bytes [simp]: "length (Address_Bytes a) = 20"
  by (simp add: Address_Bytes_def)

lemma length_Hash_Bytes [simp]: "length (Hash_Bytes h) = 32"
  by (simp add: Hash_Bytes_def)

lemma le_byte_low_word:
  assumes "k < 8"
  shows "le_byte (uint (w :: u64) + 2 ^ 64 * a) k = ucast (drop_bit (8 * k) w)"
proof -
  have e: "(2 :: int) ^ 64 = 256 ^ k * (256 * 256 ^ (7 - k))"
  proof -
    have "(256 :: int) ^ k * (256 * 256 ^ (7 - k)) = 256 ^ (k + Suc (7 - k))"
      by (simp add: power_add)
    also have "k + Suc (7 - k) = 8" using assms by simp
    finally show ?thesis by simp
  qed
  have *: "(uint w + 2 ^ 64 * a) div 256 ^ k = uint w div 256 ^ k + 256 * (256 ^ (7 - k) * a)"
  proof -
    have "uint w + 2 ^ 64 * a = uint w + 256 ^ k * (256 * (256 ^ (7 - k) * a))"
      by (simp only: e mult.assoc)
    also have "\<dots> div 256 ^ k = 256 * (256 ^ (7 - k) * a) + uint w div 256 ^ k"
      by (rule div_mult_self2) simp
    finally show ?thesis by (simp only: add.commute)
  qed
  have "le_byte (uint w + 2 ^ 64 * a) k = of_int (uint w div 256 ^ k)"
  proof -
    have "(256 :: byte) = 0" by simp
    then show ?thesis
      by (simp only: le_byte_def * of_int_add of_int_mult of_int_numeral mult_zero_left add_0_right)
  qed
  also have "(256 :: int) ^ k = 2 ^ (8 * k)" by (simp add: power_mult)
  also have "of_int (uint w div 2 ^ (8 * k)) = (ucast (drop_bit (8 * k) w) :: byte)"
    using of_int_uint [of "drop_bit (8 * k) w"] by (simp only: uint_drop_bit_div)
  finally show ?thesis .
qed

lemma le_byte_high_word:
  assumes "8 \<le> k"
  shows "le_byte (uint (w :: u64) + 2 ^ 64 * a) k = le_byte a (k - 8)"
proof -
  have "(256 :: int) ^ k = 256 ^ 8 * 256 ^ (k - 8)"
    using assms by (simp only: power_add [symmetric] le_add_diff_inverse)
  then have "(256 :: int) ^ k = 2 ^ 64 * 256 ^ (k - 8)" by simp
  moreover have "(uint w + 2 ^ 64 * a) div 2 ^ 64 = a"
    using uint_bounded [of w] by simp
  moreover have "x div (2 ^ 64 * 256 ^ (k - 8)) = x div 2 ^ 64 div 256 ^ (k - 8)" for x :: int
    by (rule zdiv_zmult2_eq) simp
  ultimately show ?thesis
    by (simp only: le_byte_def)
qed

subsection \<open>ReadBits and PaddedBigBytes\<close>

primrec read_word :: "nat \<Rightarrow> u64 \<Rightarrow> nat \<Rightarrow> bytes \<Rightarrow> nat \<times> bytes" where
  "read_word 0 d i buf = (i, buf)"
| "read_word (Suc j) d i buf =
     (if i > 0 then read_word j (drop_bit 8 d) (i - 1) (buf[i - 1 := ucast d]) else (i, buf))"

fun read_words :: "u64 list \<Rightarrow> nat \<Rightarrow> bytes \<Rightarrow> bytes" where
  "read_words [] i buf = buf"
| "read_words (d # ds) i buf = (case read_word 8 d i buf of (i', buf') \<Rightarrow> read_words ds i' buf')"

definition ReadBits :: "bigint \<Rightarrow> bytes \<Rightarrow> bytes" where
  "ReadBits x buf = read_words (big_Bits x) (length buf) buf"

definition PaddedBigBytes :: "bigint \<Rightarrow> nat \<Rightarrow> bytes" where
  "PaddedBigBytes x n =
     (if BitLen x div 8 \<ge> n then big_Bytes x else ReadBits x (replicate n 0))"

lemma read_word_index: "fst (read_word j d i buf) = i - j"
  by (induction j arbitrary: d i buf) auto

lemma read_word_length: "length (snd (read_word j d i buf)) = length buf"
  by (induction j arbitrary: d i buf) auto

lemma read_word_nth:
  assumes "i \<le> length buf" "m < length buf"
  shows "snd (read_word j d i buf) ! m =
    (if i - j \<le> m \<and> m < i then ucast (drop_bit (8 * (i - Suc m)) d) else buf ! m)"
  using assms
proof (induction j arbitrary: d i buf)
  case (Suc j)
  show ?case
  proof (cases i)
    case (Suc i')
    have IH: "snd (read_word j (drop_bit 8 d) i' (buf[i' := ucast d])) ! m =
        (if i' - j \<le> m \<and> m < i' then ucast (drop_bit (8 * (i' - Suc m)) (drop_bit 8 d))
         else buf[i' := ucast d] ! m)"
      using Suc.prems Suc by (intro Suc.IH) auto
    consider (eq) "m = i'" | (lt) "m < i'" | (gt) "i' < m" by linarith
    then show ?thesis
    proof cases
      case lt
      then have "8 * (i' - Suc m) + 8 = 8 * (i - Suc m)" using Suc by auto
      then show ?thesis using IH lt Suc by (simp add: drop_bit_drop_bit)
    qed (use IH Suc Suc.prems in simp_all)
  qed simp
qed auto

lemma read_words_length: "length (read_words ws i buf) = length buf"
  by (induction ws arbitrary: i buf) (simp_all add: split_beta read_word_length)

lemma read_words_nth:
  assumes "i \<le> length buf" "m < length buf"
  shows "read_words ws i buf ! m =
    (if m < i \<and> i - Suc m < 8 * length ws then le_byte (words_val ws) (i - Suc m) else buf ! m)"
  using assms
proof (induction ws arbitrary: i buf)
  case (Cons w ws)
  obtain i' buf' where r: "read_word 8 w i buf = (i', buf')" by fastforce
  have i': "i' = i - 8" using read_word_index [of 8 w i buf] r by simp
  have len: "length buf' = length buf" using read_word_length [of 8 w i buf] r by simp
  have nth: "buf' ! m = (if i - 8 \<le> m \<and> m < i then ucast (drop_bit (8 * (i - Suc m)) w) else buf ! m)"
    using read_word_nth [OF Cons.prems, of 8 w] r by simp
  have IH: "read_words ws i' buf' ! m =
      (if m < i' \<and> i' - Suc m < 8 * length ws then le_byte (words_val ws) (i' - Suc m) else buf' ! m)"
    using Cons.prems i' len by (intro Cons.IH) auto
  consider (hi) "m \<ge> i" | (lo) "m < i" "i - Suc m < 8" | (mid) "m < i" "8 \<le> i - Suc m" by linarith
  then show ?case
  proof cases
    case hi
    then have "\<not> m < i'" using i' by simp
    with hi show ?thesis using r IH nth by simp
  next
    case lo
    then have "\<not> m < i'" "i - 8 \<le> m" using i' by auto
    with lo show ?thesis using r IH nth le_byte_low_word [OF lo(2), of w "words_val ws"] by simp
  next
    case mid
    then have "m < i'" "i' - Suc m = i - Suc m - 8" "\<not> i - 8 \<le> m" using i' by auto
    with mid show ?thesis
      using r IH nth le_byte_high_word [OF mid(2), of w "words_val ws"] by auto
  qed
qed simp

lemma le_byte_zero: "0 \<le> x \<Longrightarrow> x < 256 ^ k \<Longrightarrow> le_byte x k = 0"
  by (simp add: le_byte_def)

lemma SetBytes_le_bytes:
  "SetBytes (map (\<lambda>m. le_byte x (n - Suc m)) [0..<n]) = x mod 256 ^ n"
proof (induction n arbitrary: x)
  case (Suc n)
  have shift: "le_byte x (n - m) = le_byte (x div 256) (n - Suc m)" if "m < n" for m
  proof -
    have "n - m = Suc (n - Suc m)" using that by simp
    then show ?thesis by (simp only: le_byte_def power_Suc) (simp add: zdiv_zmult2_eq)
  qed
  have "SetBytes (map (\<lambda>m. le_byte x (Suc n - Suc m)) [0..<Suc n]) =
      SetBytes (map (\<lambda>m. le_byte (x div 256) (n - Suc m)) [0..<n]) * 256 + uint (le_byte x 0)"
  proof -
    have "SetBytes (map (\<lambda>m. le_byte x (n - m)) [0..<n]) =
        SetBytes (map (\<lambda>m. le_byte (x div 256) (n - Suc m)) [0..<n])"
      using shift by (intro arg_cong [of _ _ SetBytes]) simp
    then show ?thesis by simp
  qed
  also have "\<dots> = (x div 256) mod 256 ^ n * 256 + x mod 256"
  proof -
    have "uint (le_byte x 0) = x mod 256" by (simp add: le_byte_def uint_word_of_int)
    then show ?thesis by (simp only: Suc.IH)
  qed
  also have "\<dots> = x mod (256 * 256 ^ n)"
    by (simp add: zmod_zmult2_eq)
  finally show ?case by simp
qed simp

lemma ReadBits_zero:
  assumes "0 \<le> x"
  shows "ReadBits x (replicate n 0) = map (\<lambda>m. le_byte x (n - Suc m)) [0..<n]"
proof (rule nth_equalityI)
  show "length (ReadBits x (replicate n 0)) = length (map (\<lambda>m. le_byte x (n - Suc m)) [0..<n])"
    by (simp add: ReadBits_def read_words_length)
next
  fix m assume "m < length (ReadBits x (replicate n 0))"
  then have m: "m < n" by (simp add: ReadBits_def read_words_length)
  have "le_byte x (n - Suc m) = 0" if "8 * length (big_Bits x) \<le> n - Suc m"
  proof (rule le_byte_zero [OF assms])
    have "x < 2 ^ (64 * length (big_Bits x))"
      using words_val_less [of "big_Bits x"] words_val_big_Bits [OF assms] by simp
    also have "(2 :: int) ^ (64 * length (big_Bits x)) = 256 ^ (8 * length (big_Bits x))"
      by (simp add: power_mult)
    also have "\<dots> \<le> 256 ^ (n - Suc m)" using that by (intro power_increasing) auto
    finally show "x < 256 ^ (n - Suc m)" .
  qed
  then show "ReadBits x (replicate n 0) ! m = map (\<lambda>m. le_byte x (n - Suc m)) [0..<n] ! m"
    using m read_words_nth [of n "replicate n 0" m "big_Bits x"] words_val_big_Bits [OF assms]
    by (auto simp: ReadBits_def)
qed

lemma length_big_Bytes_exact:
  assumes "0 \<le> x" "x < 256 ^ n" "n \<le> BitLen x div 8"
  shows "length (big_Bytes x) = n"
proof -
  have "nat x < 256 ^ n" using assms(1,2) by (simp add: nat_less_iff)
  then have le: "length (big_Bytes x) \<le> n"
    using assms(1) by (simp add: big_Bytes_def length_nat_bytes_le_iff)
  have "\<not> length (big_Bytes x) \<le> k" if "k < n" for k
  proof
    assume "length (big_Bytes x) \<le> k"
    then have "nat x < 256 ^ k" using assms(1) by (simp add: big_Bytes_def length_nat_bytes_le_iff)
    then have "\<bar>x\<bar> < 2 ^ (8 * k)" using assms(1) by (simp add: nat_less_iff power_mult)
    then have "BitLen x \<le> 8 * k" by (simp only: BitLen_le_iff)
    then show False using assms(3) that by linarith
  qed
  with le show ?thesis using le_neq_implies_less by blast
qed

lemma PaddedBigBytes_length:
  "0 \<le> x \<Longrightarrow> x < 256 ^ n \<Longrightarrow> length (PaddedBigBytes x n) = n"
  by (simp add: PaddedBigBytes_def length_big_Bytes_exact ReadBits_zero)

lemma PaddedBigBytes_SetBytes:
  "0 \<le> x \<Longrightarrow> x < 256 ^ n \<Longrightarrow> SetBytes (PaddedBigBytes x n) = x"
  by (simp add: PaddedBigBytes_def SetBytes_big_Bytes ReadBits_zero SetBytes_le_bytes)

subsection \<open>Byte\<close>

definition bigEndianByteAt :: "bigint \<Rightarrow> nat \<Rightarrow> byte" where
  "bigEndianByteAt x n =
     (let words = big_Bits x; i = n div 8 in
      if i \<ge> length words then 0
      else ucast (drop_bit (8 * (n mod 8)) (words ! i)))"

definition math_Byte :: "bigint \<Rightarrow> nat \<Rightarrow> nat \<Rightarrow> byte" where
  "math_Byte x padlength n =
     (if n \<ge> padlength then 0 else bigEndianByteAt x (padlength - 1 - n))"

lemma words_val_byte_at:
  "n div 8 < length ws \<Longrightarrow>
   le_byte (words_val ws) n = ucast (drop_bit (8 * (n mod 8)) (ws ! (n div 8)))"
proof (induction ws arbitrary: n)
  case (Cons w ws)
  show ?case
  proof (cases "n < 8")
    case True
    then show ?thesis using le_byte_low_word [OF True, of w "words_val ws"] by simp
  next
    case False
    then obtain k where k: "n = k + 8" by (metis le_Suc_ex not_less add.commute)
    have d: "(k + 8) div 8 = Suc (k div 8)" by simp
    show ?thesis
      using Cons le_byte_high_word [of n w "words_val ws"] by (simp add: k d del: div_add_self2)
  qed
qed simp

lemma bigEndianByteAt_eq:
  assumes "0 \<le> x"
  shows "bigEndianByteAt x n = le_byte x n"
proof (cases "n div 8 < length (big_Bits x)")
  case True
  then show ?thesis
    using words_val_byte_at [OF True] words_val_big_Bits [OF assms]
    by (simp add: bigEndianByteAt_def Let_def)
next
  case False
  have "x < 2 ^ (64 * length (big_Bits x))"
    using words_val_less [of "big_Bits x"] words_val_big_Bits [OF assms] by simp
  also have "(2 :: int) ^ (64 * length (big_Bits x)) = 256 ^ (8 * length (big_Bits x))"
    by (simp add: power_mult)
  also have "\<dots> \<le> 256 ^ n" using False by (intro power_increasing) auto
  finally show ?thesis using False assms by (simp add: bigEndianByteAt_def Let_def le_byte_zero)
qed

lemma math_Byte_eq: "0 \<le> x \<Longrightarrow> n < p \<Longrightarrow> math_Byte x p n = le_byte x (p - 1 - n)"
  by (simp add: math_Byte_def bigEndianByteAt_eq)

lemma word_and_one_odd: "w AND 1 = 1 \<longleftrightarrow> odd (unat (w :: u64))"
proof -
  have "w AND 1 = (if odd w then 1 else 0)" by (simp add: and_one_eq mod2_eq_if)
  moreover have "odd w \<longleftrightarrow> odd (unat w)" by transfer (simp add: even_nat_iff even_take_bit_eq)
  ultimately show ?thesis by simp
qed

subsection \<open>Exp: square and multiply modulo 2 to the 256\<close>

primrec exp_word :: "nat \<Rightarrow> u64 \<Rightarrow> bigint \<Rightarrow> bigint \<Rightarrow> bigint \<times> bigint" where
  "exp_word 0 w result base = (result, base)"
| "exp_word (Suc i) w result base =
     exp_word i (drop_bit 1 w)
       (if w AND 1 = 1 then U256 (result * base) else result) (U256 (base * base))"

fun exp_words :: "u64 list \<Rightarrow> bigint \<Rightarrow> bigint \<Rightarrow> bigint" where
  "exp_words [] result base = result"
| "exp_words (w # ws) result base =
     (case exp_word 64 w result base of (result', base') \<Rightarrow> exp_words ws result' base')"

definition math_Exp :: "bigint \<Rightarrow> bigint \<Rightarrow> bigint" where
  "math_Exp base exponent = exp_words (big_Bits exponent) 1 base"

lemma exp_word_value:
  "fst (exp_word i w r b) mod 2 ^ 256 = r * b ^ (unat w mod 2 ^ i) mod 2 ^ 256 \<and>
   snd (exp_word i w r b) mod 2 ^ 256 = b ^ 2 ^ i mod 2 ^ 256"
proof (induction i arbitrary: w r b)
  case (Suc i)
  let ?r = "if w AND 1 = 1 then U256 (r * b) else r" and ?b = "U256 (b * b)"
  have half: "unat (drop_bit 1 w) = unat w div 2"
    by (simp add: drop_bit_eq_div unat_div)
  have odd: "w AND 1 = 1 \<longleftrightarrow> odd (unat w)"
    by (rule word_and_one_odd)
  have split: "unat w mod 2 ^ Suc i = 2 * (unat w div 2 mod 2 ^ i) + unat w mod 2"
    by (simp add: mod_mult2_eq)
  have sq: "?b ^ k mod 2 ^ 256 = b ^ (2 * k) mod 2 ^ 256" for k
    by (simp add: U256_mod power_mult power2_eq_square power_mod)
  have rb: "?r mod 2 ^ 256 = r * b ^ (unat w mod 2) mod 2 ^ 256"
    using odd by (auto simp: U256_mod odd_iff_mod_2_eq_one)
  have "fst (exp_word (Suc i) w r b) mod 2 ^ 256 = ?r * ?b ^ (unat w div 2 mod 2 ^ i) mod 2 ^ 256"
    using Suc.IH [of "drop_bit 1 w" ?r ?b] by (simp only: exp_word.simps half)
  also have "\<dots> = (?r mod 2 ^ 256) * (?b ^ (unat w div 2 mod 2 ^ i) mod 2 ^ 256) mod 2 ^ 256"
    by (simp only: mod_mult_eq)
  also have "\<dots> = r * b ^ (unat w mod 2) * b ^ (2 * (unat w div 2 mod 2 ^ i)) mod 2 ^ 256"
    by (simp only: rb sq mod_mult_eq)
  also have "\<dots> = r * b ^ (unat w mod 2 ^ Suc i) mod 2 ^ 256"
    by (simp only: split power_add mult.assoc) (simp add: ac_simps)
  finally have 1: "fst (exp_word (Suc i) w r b) mod 2 ^ 256 = r * b ^ (unat w mod 2 ^ Suc i) mod 2 ^ 256" .
  have "snd (exp_word (Suc i) w r b) mod 2 ^ 256 = ?b ^ 2 ^ i mod 2 ^ 256"
    using Suc.IH [of "drop_bit 1 w" ?r ?b] by (simp only: exp_word.simps)
  also have "\<dots> = b ^ 2 ^ Suc i mod 2 ^ 256" by (simp only: sq power_Suc)
  finally show ?case using 1 by blast
qed simp

lemma exp_word_range:
  "0 \<le> r \<Longrightarrow> r < 2 ^ 256 \<Longrightarrow> 0 \<le> fst (exp_word i w r b) \<and> fst (exp_word i w r b) < 2 ^ 256"
proof (induction i arbitrary: w r b)
  case (Suc i)
  have "0 \<le> (if w AND 1 = 1 then U256 (r * b) else r)"
    "(if w AND 1 = 1 then U256 (r * b) else r) < 2 ^ 256"
    using Suc.prems U256_less by auto
  then show ?case unfolding exp_word.simps by (rule Suc.IH)
qed simp

lemma exp_words_value:
  assumes "0 \<le> r" "r < 2 ^ 256"
  shows "exp_words ws r b = r * b ^ nat (words_val ws) mod 2 ^ 256"
  using assms
proof (induction ws arbitrary: r b)
  case Nil
  then show ?case by simp
next
  case (Cons w ws)
  obtain r' b' where e: "exp_word 64 w r b = (r', b')" by fastforce
  have r': "0 \<le> r'" "r' < 2 ^ 256" using exp_word_range [OF Cons.prems, of 64 w b] e by simp_all
  have m: "unat w mod 2 ^ 64 = unat w" using unat_u64_less [of w] by simp
  have v: "r' mod 2 ^ 256 = r * b ^ unat w mod 2 ^ 256" "b' mod 2 ^ 256 = b ^ 2 ^ 64 mod 2 ^ 256"
    using exp_word_value [of 64 w r b] e by (simp_all only: fst_conv snd_conv m)
  let ?k = "nat (words_val ws)"
  have n: "nat (words_val (w # ws)) = unat w + 2 ^ 64 * ?k"
    by (simp add: nat_add_distrib nat_mult_distrib)
  have "exp_words (w # ws) r b = r' * b' ^ ?k mod 2 ^ 256"
    using Cons.IH [OF r', of b'] e by simp
  also have "\<dots> = (r' mod 2 ^ 256) * ((b' mod 2 ^ 256) ^ ?k mod 2 ^ 256) mod 2 ^ 256"
    by (simp only: mod_mult_eq power_mod)
  also have "\<dots> = r * b ^ unat w * (b ^ 2 ^ 64) ^ ?k mod 2 ^ 256"
    by (simp only: v mod_mult_eq power_mod)
  also have "\<dots> = r * b ^ nat (words_val (w # ws)) mod 2 ^ 256"
    by (simp only: n power_add power_mult mult.assoc)
  finally show ?case .
qed

lemma math_Exp_eq: "0 \<le> e \<Longrightarrow> math_Exp b e = b ^ nat e mod 2 ^ 256"
  using exp_words_value [of 1 "big_Bits e" b] by (simp add: math_Exp_def words_val_big_Bits)

text \<open>\<open>FirstBitSet\<close>: the index of the lowest set bit, \<open>BitLen\<close> when there is none.\<close>

definition FirstBitSet :: "bigint \<Rightarrow> nat" where
  "FirstBitSet v =
     (case find (\<lambda>i. bit v i) [0..<BitLen v] of Some i \<Rightarrow> i | None \<Rightarrow> BitLen v)"

end
