(* ===== verification/State_Db.thy ===== *)
theory State_Db
  imports Common_Math
begin

text \<open>
  The account state: \<open>blockchain/state\<close> (statedb.go, state_object.go, journal.go).

  A \<open>StateDB\<close> caches live state objects above the account trie, records every modification in
  a journal, and undoes journal entries to return to a snapshot.  Methods of a state object
  mutate the object and, through the \<open>onDirty\<close> callback and the journal, the \<open>StateDB\<close> that
  owns it; they are modelled on pairs of object and database, and the database operation writes
  the object back under its address.

  The trie and the code database are reached through the interfaces \<open>Trie\<close> and \<open>Database\<close> of
  database.go; their decoded contents are the parameters of \<open>state_env\<close>, together with the hash
  function.  A read error of the underlying database (\<open>setError\<close>) is not modelled: reads
  succeed.
\<close>

section \<open>Data\<close>

record state_env =
  keccak256 :: "bytes \<Rightarrow> hash"                    \<comment> \<open>crypto.Keccak256Hash\<close>
  storage_trie :: "hash \<Rightarrow> hash \<Rightarrow> hash \<Rightarrow> hash"    \<comment> \<open>contents of OpenStorageTrie(addrHash, root)\<close>
  storage_root :: "(hash \<Rightarrow> hash) \<Rightarrow> hash"         \<comment> \<open>Trie.Hash of a storage trie\<close>
  contract_code :: "hash \<Rightarrow> hash \<Rightarrow> bytes"         \<comment> \<open>ContractCode(addrHash, codeHash)\<close>

record Account =
  acc_Nonce :: u64
  acc_Balance :: bigint
  acc_Root :: hash
  acc_CodeHash :: hash

record stateObject =
  so_address :: address
  so_addrHash :: hash
  so_data :: Account
  so_trie :: "(hash \<Rightarrow> hash) option"              \<comment> \<open>nil until the first access\<close>
  so_code :: "bytes option"                       \<comment> \<open>nil until the code is loaded\<close>
  so_cachedStorage :: "hash \<rightharpoonup> hash"
  so_dirtyStorage :: "hash \<rightharpoonup> hash"
  so_dirtyCode :: bool
  so_suicided :: bool
  so_touched :: bool
  so_deleted :: bool
  so_onDirty :: bool                              \<comment> \<open>whether the callback is still set\<close>

record Log =
  log_Address :: address
  log_Topics :: "hash list"
  log_Data :: bytes
  log_BlockNumber :: u64
  log_TxHash :: hash
  log_TxIndex :: nat
  log_BlockHash :: hash
  log_Index :: u64

datatype journalEntry =
    CreateObjectChange address
  | ResetObjectChange stateObject
  | SuicideChange address bool bigint
  | BalanceChange address bigint
  | NonceChange address u64
  | StorageChange address hash hash
  | CodeChange address "bytes option" hash
  | RefundChange bigint
  | AddLogChange hash
  | AddPreimageChange hash
  | TouchChange address bool bool

type_synonym revision = "nat \<times> nat"               \<comment> \<open>id, journalIndex\<close>

record StateDB =
  sd_trie :: "address \<rightharpoonup> Account"                 \<comment> \<open>decoded contents of the account trie\<close>
  sd_stateObjects :: "address \<rightharpoonup> stateObject"
  sd_stateObjectsDirty :: "address set"
  sd_refund :: bigint
  sd_thash :: hash
  sd_bhash :: hash
  sd_txIndex :: nat
  sd_logs :: "hash \<rightharpoonup> Log list"
  sd_logSize :: u64
  sd_preimages :: "hash \<rightharpoonup> bytes"
  sd_journal :: "journalEntry list"
  sd_validRevisions :: "revision list"
  sd_nextRevisionId :: nat

type_synonym objdb = "stateObject \<times> StateDB"

section \<open>state\_object.go\<close>

definition emptyCodeHash :: "state_env \<Rightarrow> hash" where
  "emptyCodeHash E = keccak256 E []"

text \<open>\<open>Account{}\<close> with the defaults \<open>newObject\<close> fills in for a nil balance and code hash.\<close>

definition zeroAccount :: "state_env \<Rightarrow> Account" where
  "zeroAccount E = \<lparr>acc_Nonce = 0, acc_Balance = 0, acc_Root = 0, acc_CodeHash = emptyCodeHash E\<rparr>"

definition newObject :: "state_env \<Rightarrow> address \<Rightarrow> Account \<Rightarrow> stateObject" where
  "newObject E a data =
     \<lparr>so_address = a, so_addrHash = keccak256 E (Address_Bytes a), so_data = data,
      so_trie = None, so_code = None, so_cachedStorage = Map.empty,
      so_dirtyStorage = Map.empty, so_dirtyCode = False, so_suicided = False,
      so_touched = False, so_deleted = False, so_onDirty = True\<rparr>"

definition so_empty :: "state_env \<Rightarrow> stateObject \<Rightarrow> bool" where
  "so_empty E ob \<longleftrightarrow>
     acc_Nonce (so_data ob) = 0 \<and> acc_Balance (so_data ob) = 0 \<and>
     acc_CodeHash (so_data ob) = emptyCodeHash E"

definition journal_append :: "journalEntry \<Rightarrow> StateDB \<Rightarrow> StateDB" where
  "journal_append e db = db\<lparr>sd_journal := sd_journal db @ [e]\<rparr>"

definition MarkStateObjectDirty :: "address \<Rightarrow> StateDB \<Rightarrow> StateDB" where
  "MarkStateObjectDirty a db = db\<lparr>sd_stateObjectsDirty := insert a (sd_stateObjectsDirty db)\<rparr>"

text \<open>The recurring tail of the setters: call \<open>onDirty\<close> once and clear it.\<close>

fun fire_onDirty :: "objdb \<Rightarrow> objdb" where
  "fire_onDirty (ob, db) =
     (if so_onDirty ob
      then (ob\<lparr>so_onDirty := False\<rparr>, MarkStateObjectDirty (so_address ob) db)
      else (ob, db))"

fun markSuicided :: "objdb \<Rightarrow> objdb" where
  "markSuicided (ob, db) = fire_onDirty (ob\<lparr>so_suicided := True\<rparr>, db)"

fun touch :: "objdb \<Rightarrow> objdb" where
  "touch (ob, db) =
     (let db1 = journal_append (TouchChange (so_address ob) (so_touched ob) (\<not> so_onDirty ob)) db;
          (ob2, db2) = fire_onDirty (ob, db1)
      in (ob2\<lparr>so_touched := True\<rparr>, db2))"

definition getTrie :: "state_env \<Rightarrow> stateObject \<Rightarrow> (hash \<Rightarrow> hash) \<times> stateObject" where
  "getTrie E ob =
     (case so_trie ob of
        Some t \<Rightarrow> (t, ob)
      | None \<Rightarrow> (let t = storage_trie E (so_addrHash ob) (acc_Root (so_data ob))
                in (t, ob\<lparr>so_trie := Some t\<rparr>)))"

definition so_GetState :: "state_env \<Rightarrow> hash \<Rightarrow> stateObject \<Rightarrow> hash \<times> stateObject" where
  "so_GetState E key ob =
     (case so_cachedStorage ob key of
        Some v \<Rightarrow> (v, ob)
      | None \<Rightarrow>
          (let (t, ob1) = getTrie E ob; v = t key
           in if v \<noteq> 0
              then (v, ob1\<lparr>so_cachedStorage := (so_cachedStorage ob1)(key \<mapsto> v)\<rparr>)
              else (v, ob1)))"

fun setState :: "hash \<Rightarrow> hash \<Rightarrow> objdb \<Rightarrow> objdb" where
  "setState key v (ob, db) =
     fire_onDirty (ob\<lparr>so_cachedStorage := (so_cachedStorage ob)(key \<mapsto> v),
                      so_dirtyStorage := (so_dirtyStorage ob)(key \<mapsto> v)\<rparr>, db)"

fun so_SetState :: "state_env \<Rightarrow> hash \<Rightarrow> hash \<Rightarrow> objdb \<Rightarrow> objdb" where
  "so_SetState E key v (ob, db) =
     (let (prev, ob1) = so_GetState E key ob
      in setState key v (ob1, journal_append (StorageChange (so_address ob) key prev) db))"

fun setBalance :: "bigint \<Rightarrow> objdb \<Rightarrow> objdb" where
  "setBalance amount (ob, db) =
     fire_onDirty (ob\<lparr>so_data := (so_data ob)\<lparr>acc_Balance := amount\<rparr>\<rparr>, db)"

fun so_SetBalance :: "bigint \<Rightarrow> objdb \<Rightarrow> objdb" where
  "so_SetBalance amount (ob, db) =
     setBalance amount
       (ob, journal_append (BalanceChange (so_address ob) (acc_Balance (so_data ob))) db)"

fun so_AddBalance :: "state_env \<Rightarrow> bigint \<Rightarrow> objdb \<Rightarrow> objdb" where
  "so_AddBalance E amount (ob, db) =
     (if amount = 0 then (if so_empty E ob then touch (ob, db) else (ob, db))
      else so_SetBalance (acc_Balance (so_data ob) + amount) (ob, db))"

fun so_SubBalance :: "bigint \<Rightarrow> objdb \<Rightarrow> objdb" where
  "so_SubBalance amount (ob, db) =
     (if amount = 0 then (ob, db)
      else so_SetBalance (acc_Balance (so_data ob) - amount) (ob, db))"

fun setNonce :: "u64 \<Rightarrow> objdb \<Rightarrow> objdb" where
  "setNonce n (ob, db) = fire_onDirty (ob\<lparr>so_data := (so_data ob)\<lparr>acc_Nonce := n\<rparr>\<rparr>, db)"

fun so_SetNonce :: "u64 \<Rightarrow> objdb \<Rightarrow> objdb" where
  "so_SetNonce n (ob, db) =
     setNonce n (ob, journal_append (NonceChange (so_address ob) (acc_Nonce (so_data ob))) db)"

definition so_Code :: "state_env \<Rightarrow> stateObject \<Rightarrow> bytes option \<times> stateObject" where
  "so_Code E ob =
     (case so_code ob of
        Some c \<Rightarrow> (Some c, ob)
      | None \<Rightarrow>
          if acc_CodeHash (so_data ob) = emptyCodeHash E then (None, ob)
          else (let c = contract_code E (so_addrHash ob) (acc_CodeHash (so_data ob))
                in (Some c, ob\<lparr>so_code := Some c\<rparr>)))"

fun setCode :: "hash \<Rightarrow> bytes option \<Rightarrow> objdb \<Rightarrow> objdb" where
  "setCode codeHash code (ob, db) =
     fire_onDirty (ob\<lparr>so_code := code, so_data := (so_data ob)\<lparr>acc_CodeHash := codeHash\<rparr>,
                      so_dirtyCode := True\<rparr>, db)"

fun so_SetCode :: "state_env \<Rightarrow> hash \<Rightarrow> bytes option \<Rightarrow> objdb \<Rightarrow> objdb" where
  "so_SetCode E codeHash code (ob, db) =
     (let (prevcode, ob1) = so_Code E ob
      in setCode codeHash code
           (ob1, journal_append (CodeChange (so_address ob) prevcode (acc_CodeHash (so_data ob))) db))"

definition deepCopy :: "state_env \<Rightarrow> stateObject \<Rightarrow> stateObject" where
  "deepCopy E ob =
     (newObject E (so_address ob) (so_data ob))
       \<lparr>so_trie := so_trie ob, so_code := so_code ob,
        so_dirtyStorage := so_dirtyStorage ob, so_cachedStorage := so_dirtyStorage ob,
        so_suicided := so_suicided ob, so_dirtyCode := so_dirtyCode ob,
        so_deleted := so_deleted ob\<rparr>"

text \<open>\<open>updateTrie\<close> flushes the dirty entries into the storage trie (a zero value deletes, which
  the decoded contents show as zero); each key is handled on its own, so the order in which Go
  walks the map does not matter.\<close>

definition updateTrie :: "state_env \<Rightarrow> stateObject \<Rightarrow> (hash \<Rightarrow> hash) \<times> stateObject" where
  "updateTrie E ob =
     (let (t, ob1) = getTrie E ob;
          t' = (\<lambda>k. case so_dirtyStorage ob1 k of Some v \<Rightarrow> v | None \<Rightarrow> t k)
      in (t', ob1\<lparr>so_dirtyStorage := Map.empty, so_trie := Some t'\<rparr>))"

definition updateRoot :: "state_env \<Rightarrow> stateObject \<Rightarrow> stateObject" where
  "updateRoot E ob =
     (let (t, ob1) = updateTrie E ob
      in ob1\<lparr>so_data := (so_data ob1)\<lparr>acc_Root := storage_root E t\<rparr>\<rparr>)"

section \<open>statedb.go: reading\<close>

definition setStateObject :: "stateObject \<Rightarrow> StateDB \<Rightarrow> StateDB" where
  "setStateObject ob db =
     db\<lparr>sd_stateObjects := (sd_stateObjects db)(so_address ob \<mapsto> ob)\<rparr>"

definition getStateObject :: "state_env \<Rightarrow> address \<Rightarrow> StateDB \<Rightarrow> stateObject option \<times> StateDB" where
  "getStateObject E a db =
     (case sd_stateObjects db a of
        Some ob \<Rightarrow> (if so_deleted ob then (None, db) else (Some ob, db))
      | None \<Rightarrow>
          (case sd_trie db a of
             None \<Rightarrow> (None, db)
           | Some data \<Rightarrow> (let ob = newObject E a data in (Some ob, setStateObject ob db))))"

definition Exist :: "state_env \<Rightarrow> address \<Rightarrow> StateDB \<Rightarrow> bool \<times> StateDB" where
  "Exist E a db = (let (ob, db1) = getStateObject E a db in (ob \<noteq> None, db1))"

definition Empty :: "state_env \<Rightarrow> address \<Rightarrow> StateDB \<Rightarrow> bool \<times> StateDB" where
  "Empty E a db =
     (let (so, db1) = getStateObject E a db
      in (case so of None \<Rightarrow> True | Some ob \<Rightarrow> so_empty E ob, db1))"

definition GetBalance :: "state_env \<Rightarrow> address \<Rightarrow> StateDB \<Rightarrow> bigint \<times> StateDB" where
  "GetBalance E a db =
     (let (so, db1) = getStateObject E a db
      in (case so of None \<Rightarrow> 0 | Some ob \<Rightarrow> acc_Balance (so_data ob), db1))"

definition GetNonce :: "state_env \<Rightarrow> address \<Rightarrow> StateDB \<Rightarrow> u64 \<times> StateDB" where
  "GetNonce E a db =
     (let (so, db1) = getStateObject E a db
      in (case so of None \<Rightarrow> 0 | Some ob \<Rightarrow> acc_Nonce (so_data ob), db1))"

definition code_bytes :: "bytes option \<Rightarrow> bytes" where
  "code_bytes c = (case c of None \<Rightarrow> [] | Some bs \<Rightarrow> bs)"

definition GetCode :: "state_env \<Rightarrow> address \<Rightarrow> StateDB \<Rightarrow> bytes \<times> StateDB" where
  "GetCode E a db =
     (let (so, db1) = getStateObject E a db
      in case so of
           None \<Rightarrow> ([], db1)
         | Some ob \<Rightarrow> (let (c, ob1) = so_Code E ob in (code_bytes c, setStateObject ob1 db1)))"

definition GetCodeSize :: "state_env \<Rightarrow> address \<Rightarrow> StateDB \<Rightarrow> nat \<times> StateDB" where
  "GetCodeSize E a db =
     (let (so, db1) = getStateObject E a db
      in (case so of
            None \<Rightarrow> 0
          | Some ob \<Rightarrow>
              (case so_code ob of
                 Some c \<Rightarrow> length c
               | None \<Rightarrow> length (contract_code E (so_addrHash ob) (acc_CodeHash (so_data ob)))), db1))"

definition GetCodeHash :: "state_env \<Rightarrow> address \<Rightarrow> StateDB \<Rightarrow> hash \<times> StateDB" where
  "GetCodeHash E a db =
     (let (so, db1) = getStateObject E a db
      in (case so of None \<Rightarrow> 0 | Some ob \<Rightarrow> acc_CodeHash (so_data ob), db1))"

definition GetState :: "state_env \<Rightarrow> address \<Rightarrow> hash \<Rightarrow> StateDB \<Rightarrow> hash \<times> StateDB" where
  "GetState E a key db =
     (let (so, db1) = getStateObject E a db
      in case so of
           None \<Rightarrow> (0, db1)
         | Some ob \<Rightarrow> (let (v, ob1) = so_GetState E key ob in (v, setStateObject ob1 db1)))"

definition HasSuicided :: "state_env \<Rightarrow> address \<Rightarrow> StateDB \<Rightarrow> bool \<times> StateDB" where
  "HasSuicided E a db =
     (let (so, db1) = getStateObject E a db
      in (case so of None \<Rightarrow> False | Some ob \<Rightarrow> so_suicided ob, db1))"

definition GetRefund :: "StateDB \<Rightarrow> bigint" where
  "GetRefund db = sd_refund db"

definition GetLogs :: "hash \<Rightarrow> StateDB \<Rightarrow> Log list" where
  "GetLogs h db = (case sd_logs db h of None \<Rightarrow> [] | Some ls \<Rightarrow> ls)"

section \<open>statedb.go: writing\<close>

definition AddLog :: "Log \<Rightarrow> StateDB \<Rightarrow> StateDB" where
  "AddLog log db =
     (let db1 = journal_append (AddLogChange (sd_thash db)) db;
          log' = log\<lparr>log_TxHash := sd_thash db, log_BlockHash := sd_bhash db,
                     log_TxIndex := sd_txIndex db, log_Index := sd_logSize db\<rparr>
      in db1\<lparr>sd_logs := (sd_logs db1)(sd_thash db \<mapsto> GetLogs (sd_thash db) db @ [log']),
             sd_logSize := sd_logSize db1 + 1\<rparr>)"

definition AddPreimage :: "hash \<Rightarrow> bytes \<Rightarrow> StateDB \<Rightarrow> StateDB" where
  "AddPreimage h preimage db =
     (if sd_preimages db h = None
      then (journal_append (AddPreimageChange h) db)
             \<lparr>sd_preimages := (sd_preimages db)(h \<mapsto> preimage)\<rparr>
      else db)"

definition AddRefund :: "bigint \<Rightarrow> StateDB \<Rightarrow> StateDB" where
  "AddRefund gas db =
     (journal_append (RefundChange (sd_refund db)) db)\<lparr>sd_refund := sd_refund db + gas\<rparr>"

definition createObject ::
    "state_env \<Rightarrow> address \<Rightarrow> StateDB \<Rightarrow> (stateObject \<times> stateObject option) \<times> StateDB" where
  "createObject E a db =
     (let (prev, db1) = getStateObject E a db;
          (newobj, db2) = setNonce 0 (newObject E a (zeroAccount E), db1);
          db3 = (case prev of
                   None \<Rightarrow> journal_append (CreateObjectChange a) db2
                 | Some p \<Rightarrow> journal_append (ResetObjectChange p) db2)
      in ((newobj, prev), setStateObject newobj db3))"

definition GetOrNewStateObject :: "state_env \<Rightarrow> address \<Rightarrow> StateDB \<Rightarrow> stateObject \<times> StateDB" where
  "GetOrNewStateObject E a db =
     (let (so, db1) = getStateObject E a db
      in case so of
           Some ob \<Rightarrow> (if so_deleted ob
                      then (let ((newobj, _), db2) = createObject E a db1 in (newobj, db2))
                      else (ob, db1))
         | None \<Rightarrow> (let ((newobj, _), db2) = createObject E a db1 in (newobj, db2)))"

text \<open>An operation on the live object of an address: in Go the object is mutated through the
  pointer the map holds, here it is written back.\<close>

definition on_object :: "state_env \<Rightarrow> address \<Rightarrow> (objdb \<Rightarrow> objdb) \<Rightarrow> StateDB \<Rightarrow> StateDB" where
  "on_object E a f db =
     (let (ob, db1) = GetOrNewStateObject E a db; (ob2, db2) = f (ob, db1)
      in setStateObject ob2 db2)"

definition AddBalance :: "state_env \<Rightarrow> address \<Rightarrow> bigint \<Rightarrow> StateDB \<Rightarrow> StateDB" where
  "AddBalance E a amount = on_object E a (so_AddBalance E amount)"

definition SubBalance :: "state_env \<Rightarrow> address \<Rightarrow> bigint \<Rightarrow> StateDB \<Rightarrow> StateDB" where
  "SubBalance E a amount = on_object E a (so_SubBalance amount)"

definition SetBalance :: "state_env \<Rightarrow> address \<Rightarrow> bigint \<Rightarrow> StateDB \<Rightarrow> StateDB" where
  "SetBalance E a amount = on_object E a (so_SetBalance amount)"

definition SetNonce :: "state_env \<Rightarrow> address \<Rightarrow> u64 \<Rightarrow> StateDB \<Rightarrow> StateDB" where
  "SetNonce E a n = on_object E a (so_SetNonce n)"

text \<open>A Go slice of length 0 may or may not be nil; the model stores no code for both, and
  \<open>Code()\<close> returns the empty code for both since the hash is \<open>emptyCodeHash\<close>.\<close>

definition SetCode :: "state_env \<Rightarrow> address \<Rightarrow> bytes \<Rightarrow> StateDB \<Rightarrow> StateDB" where
  "SetCode E a code =
     on_object E a (so_SetCode E (keccak256 E code) (if code = [] then None else Some code))"

definition SetState :: "state_env \<Rightarrow> address \<Rightarrow> hash \<Rightarrow> hash \<Rightarrow> StateDB \<Rightarrow> StateDB" where
  "SetState E a key v = on_object E a (so_SetState E key v)"

text \<open>\<open>AddBatchBalance\<close> walks a map of rewards; the model takes its entries in some order.\<close>

definition AddBatchBalance :: "state_env \<Rightarrow> (address \<times> bigint) list \<Rightarrow> StateDB \<Rightarrow> StateDB" where
  "AddBatchBalance E rwd db = foldl (\<lambda>db (a, amount). AddBalance E a amount db) db rwd"

definition Suicide :: "state_env \<Rightarrow> address \<Rightarrow> StateDB \<Rightarrow> bool \<times> StateDB" where
  "Suicide E a db =
     (let (so, db1) = getStateObject E a db
      in case so of
           None \<Rightarrow> (False, db1)
         | Some ob \<Rightarrow>
             (let db2 = journal_append (SuicideChange a (so_suicided ob) (acc_Balance (so_data ob))) db1;
                  (ob3, db3) = markSuicided (ob, db2)
              in (True, setStateObject (ob3\<lparr>so_data := (so_data ob3)\<lparr>acc_Balance := 0\<rparr>\<rparr>) db3)))"

definition CreateAccount :: "state_env \<Rightarrow> address \<Rightarrow> StateDB \<Rightarrow> StateDB" where
  "CreateAccount E a db =
     (let ((new, prev), db1) = createObject E a db
      in case prev of
           None \<Rightarrow> db1
         | Some p \<Rightarrow> (let (ob2, db2) = setBalance (acc_Balance (so_data p)) (new, db1)
                     in setStateObject ob2 db2))"

section \<open>journal.go and snapshots\<close>

text \<open>\<open>obj.method(...)\<close> on the object of an address; a nil object is a nil dereference, \<open>None\<close>.\<close>

definition undo_on :: "state_env \<Rightarrow> address \<Rightarrow> (objdb \<Rightarrow> objdb) \<Rightarrow> StateDB \<Rightarrow> StateDB option" where
  "undo_on E a f db =
     (let (so, db1) = getStateObject E a db
      in case so of
           None \<Rightarrow> None
         | Some ob \<Rightarrow> (let (ob2, db2) = f (ob, db1) in Some (setStateObject ob2 db2)))"

definition ripemd :: address where
  "ripemd = 3"

fun undo :: "state_env \<Rightarrow> journalEntry \<Rightarrow> StateDB \<Rightarrow> StateDB option" where
  "undo E (CreateObjectChange a) db =
     Some (db\<lparr>sd_stateObjects := (sd_stateObjects db)(a := None),
              sd_stateObjectsDirty := sd_stateObjectsDirty db - {a}\<rparr>)"
| "undo E (ResetObjectChange prev) db = Some (setStateObject prev db)"
| "undo E (SuicideChange a prev prevbalance) db =
     (let (so, db1) = getStateObject E a db
      in case so of
           None \<Rightarrow> Some db1
         | Some ob \<Rightarrow> (let (ob2, db2) = setBalance prevbalance (ob\<lparr>so_suicided := prev\<rparr>, db1)
                      in Some (setStateObject ob2 db2)))"
| "undo E (TouchChange a prev prevDirty) db =
     (if \<not> prev \<and> a \<noteq> ripemd then
        (case undo_on E a (\<lambda>(ob, db1). (ob\<lparr>so_touched := prev\<rparr>, db1)) db of
           None \<Rightarrow> None
         | Some db2 \<Rightarrow>
             Some (if \<not> prevDirty
                   then db2\<lparr>sd_stateObjectsDirty := sd_stateObjectsDirty db2 - {a}\<rparr> else db2))
      else Some db)"
| "undo E (BalanceChange a prev) db = undo_on E a (setBalance prev) db"
| "undo E (NonceChange a prev) db = undo_on E a (setNonce prev) db"
| "undo E (CodeChange a prevcode prevhash) db = undo_on E a (setCode prevhash prevcode) db"
| "undo E (StorageChange a key prevalue) db = undo_on E a (setState key prevalue) db"
| "undo E (RefundChange prev) db = Some (db\<lparr>sd_refund := prev\<rparr>)"
| "undo E (AddLogChange txhash) db =
     (let logs = GetLogs txhash db;
          db1 = (if length logs = 1 then Some (db\<lparr>sd_logs := (sd_logs db)(txhash := None)\<rparr>)
                 else if logs = [] then None
                 else Some (db\<lparr>sd_logs := (sd_logs db)(txhash \<mapsto> butlast logs)\<rparr>))
      in map_option (\<lambda>d. d\<lparr>sd_logSize := sd_logSize d - 1\<rparr>) db1)"
| "undo E (AddPreimageChange h) db = Some (db\<lparr>sd_preimages := (sd_preimages db)(h := None)\<rparr>)"

primrec undo_all :: "state_env \<Rightarrow> journalEntry list \<Rightarrow> StateDB \<Rightarrow> StateDB option" where
  "undo_all E [] db = Some db"
| "undo_all E (e # es) db = (case undo E e db of None \<Rightarrow> None | Some db1 \<Rightarrow> undo_all E es db1)"

definition Snapshot :: "StateDB \<Rightarrow> nat \<times> StateDB" where
  "Snapshot db =
     (sd_nextRevisionId db,
      db\<lparr>sd_nextRevisionId := sd_nextRevisionId db + 1,
         sd_validRevisions :=
           sd_validRevisions db @ [(sd_nextRevisionId db, length (sd_journal db))]\<rparr>)"

definition RevertToSnapshot :: "state_env \<Rightarrow> nat \<Rightarrow> StateDB \<Rightarrow> StateDB option" where
  "RevertToSnapshot E revid db =
     (let revs = sd_validRevisions db;
          idx = sort_Search (length revs) (\<lambda>i. fst (revs ! i) \<ge> revid)
      in if idx = length revs \<or> fst (revs ! idx) \<noteq> revid then None
         else (let snapshot = snd (revs ! idx) in
               case undo_all E (rev (drop snapshot (sd_journal db))) db of
                 None \<Rightarrow> None
               | Some db1 \<Rightarrow>
                   Some (db1\<lparr>sd_journal := take snapshot (sd_journal db1),
                             sd_validRevisions := take idx revs\<rparr>)))"

section \<open>statedb.go: finalising and copying\<close>

definition clearJournalAndRefund :: "StateDB \<Rightarrow> StateDB" where
  "clearJournalAndRefund db = db\<lparr>sd_journal := [], sd_validRevisions := [], sd_refund := 0\<rparr>"

definition finalise_deletes :: "state_env \<Rightarrow> bool \<Rightarrow> stateObject \<Rightarrow> bool" where
  "finalise_deletes E deleteEmptyObjects ob \<longleftrightarrow>
     so_suicided ob \<or> (deleteEmptyObjects \<and> so_empty E ob)"

text \<open>\<open>Finalise\<close> visits every dirty address once; an address without a live object is a nil
  dereference.\<close>

definition Finalise :: "state_env \<Rightarrow> bool \<Rightarrow> StateDB \<Rightarrow> StateDB option" where
  "Finalise E deleteEmptyObjects db =
     (if \<exists>a \<in> sd_stateObjectsDirty db. sd_stateObjects db a = None then None
      else Some (clearJournalAndRefund
        (db\<lparr>sd_stateObjects := (\<lambda>a.
              if a \<in> sd_stateObjectsDirty db
              then map_option (\<lambda>ob. if finalise_deletes E deleteEmptyObjects ob
                                    then ob\<lparr>so_deleted := True\<rparr> else updateRoot E ob)
                     (sd_stateObjects db a)
              else sd_stateObjects db a),
            sd_trie := (\<lambda>a.
              case sd_stateObjects db a of
                Some ob \<Rightarrow>
                  if a \<in> sd_stateObjectsDirty db
                  then (if finalise_deletes E deleteEmptyObjects ob then None
                        else Some (so_data (updateRoot E ob)))
                  else sd_trie db a
              | None \<Rightarrow> sd_trie db a)\<rparr>)))"

definition Prepare :: "hash \<Rightarrow> hash \<Rightarrow> nat \<Rightarrow> StateDB \<Rightarrow> StateDB" where
  "Prepare thash bhash ti db = db\<lparr>sd_thash := thash, sd_bhash := bhash, sd_txIndex := ti\<rparr>"

definition state_Copy :: "state_env \<Rightarrow> StateDB \<Rightarrow> StateDB option" where
  "state_Copy E db =
     (if \<exists>a \<in> sd_stateObjectsDirty db. sd_stateObjects db a = None then None
      else Some
        \<lparr>sd_trie = sd_trie db,
         sd_stateObjects = (\<lambda>a. if a \<in> sd_stateObjectsDirty db
                                then map_option (deepCopy E) (sd_stateObjects db a) else None),
         sd_stateObjectsDirty = sd_stateObjectsDirty db,
         sd_refund = sd_refund db, sd_thash = 0, sd_bhash = 0, sd_txIndex = 0,
         sd_logs = sd_logs db, sd_logSize = sd_logSize db, sd_preimages = sd_preimages db,
         sd_journal = [], sd_validRevisions = [], sd_nextRevisionId = 0\<rparr>)"

definition new_StateDB :: "(address \<rightharpoonup> Account) \<Rightarrow> StateDB" where
  "new_StateDB tr =
     \<lparr>sd_trie = tr, sd_stateObjects = Map.empty, sd_stateObjectsDirty = {}, sd_refund = 0,
      sd_thash = 0, sd_bhash = 0, sd_txIndex = 0, sd_logs = Map.empty, sd_logSize = 0,
      sd_preimages = Map.empty, sd_journal = [], sd_validRevisions = [], sd_nextRevisionId = 0\<rparr>"

end
