(* ===== verification/State_Journal.thy ===== *)
theory State_Journal
  imports State_Db
begin

text \<open>
  What the journal of \<open>State_Db\<close> promises.  The abstract state is the account map a client of
  the \<open>StateDB\<close> can observe, free of caches, dirty sets and journal; every database operation
  refines an operation on it, and undoing journal entries refines an abstract undo.  From this
  follows the contract of snapshots: whatever operations run after \<open>Snapshot\<close>, nested snapshots
  and reverts included, \<open>RevertToSnapshot\<close> succeeds and restores the observable state.
\<close>

named_theorems state_defs \<open>definitions of the state object and database operations\<close>
named_theorems db_ext \<open>operations that extend a database state revertibly\<close>

section \<open>The abstract state\<close>

record abs_account =
  aa_nonce :: u64
  aa_balance :: bigint
  aa_codehash :: hash
  aa_code :: bytes
  aa_storage :: "hash \<Rightarrow> hash"
  aa_suicided :: bool

record abs_state =
  as_accounts :: "address \<rightharpoonup> abs_account"
  as_trie :: "address \<rightharpoonup> Account"
  as_refund :: bigint
  as_logs :: "hash \<Rightarrow> Log list"
  as_logSize :: u64
  as_preimages :: "hash \<rightharpoonup> bytes"
  as_thash :: hash
  as_bhash :: hash
  as_txIndex :: nat

definition obj_storage :: "state_env \<Rightarrow> stateObject \<Rightarrow> hash \<Rightarrow> hash" where
  "obj_storage E ob key =
     (case so_cachedStorage ob key of Some v \<Rightarrow> v | None \<Rightarrow> fst (getTrie E ob) key)"

definition obj_code :: "state_env \<Rightarrow> stateObject \<Rightarrow> bytes" where
  "obj_code E ob = code_bytes (fst (so_Code E ob))"

definition abs_obj :: "state_env \<Rightarrow> stateObject \<Rightarrow> abs_account" where
  "abs_obj E ob =
     \<lparr>aa_nonce = acc_Nonce (so_data ob), aa_balance = acc_Balance (so_data ob),
      aa_codehash = acc_CodeHash (so_data ob), aa_code = obj_code E ob,
      aa_storage = obj_storage E ob, aa_suicided = so_suicided ob\<rparr>"

definition live :: "state_env \<Rightarrow> StateDB \<Rightarrow> address \<Rightarrow> stateObject option" where
  "live E db a =
     (case sd_stateObjects db a of
        Some ob \<Rightarrow> if so_deleted ob then None else Some ob
      | None \<Rightarrow> map_option (newObject E a) (sd_trie db a))"

definition abs_db :: "state_env \<Rightarrow> StateDB \<Rightarrow> abs_state" where
  "abs_db E db =
     \<lparr>as_accounts = (\<lambda>a. map_option (abs_obj E) (live E db a)), as_trie = sd_trie db,
      as_refund = sd_refund db, as_logs = (\<lambda>h. GetLogs h db), as_logSize = sd_logSize db,
      as_preimages = sd_preimages db, as_thash = sd_thash db, as_bhash = sd_bhash db,
      as_txIndex = sd_txIndex db\<rparr>"

section \<open>The invariant of a StateDB\<close>

definition db_inv :: "state_env \<Rightarrow> StateDB \<Rightarrow> bool" where
  "db_inv E db \<longleftrightarrow>
     (\<forall>a ob. sd_stateObjects db a = Some ob \<longrightarrow>
        so_address ob = a \<and> so_addrHash ob = keccak256 E (Address_Bytes a) \<and>
        (so_deleted ob \<longrightarrow> sd_trie db a = None)) \<and>
     (\<forall>a \<in> sd_stateObjectsDirty db. sd_stateObjects db a \<noteq> None) \<and>
     (\<forall>r \<in> set (sd_validRevisions db). fst r < sd_nextRevisionId db)"

definition entry_ok :: "state_env \<Rightarrow> journalEntry \<Rightarrow> bool" where
  "entry_ok E e \<longleftrightarrow>
     (case e of ResetObjectChange p \<Rightarrow>
        \<not> so_deleted p \<and> so_addrHash p = keccak256 E (Address_Bytes (so_address p))
      | _ \<Rightarrow> True)"

section \<open>Abstract undo\<close>

definition a_update :: "address \<Rightarrow> (abs_account \<Rightarrow> abs_account) \<Rightarrow> abs_state \<Rightarrow> abs_state" where
  "a_update a f A = A\<lparr>as_accounts := (as_accounts A)(a := map_option f (as_accounts A a))\<rparr>"

definition a_undo_on ::
    "address \<Rightarrow> (abs_account \<Rightarrow> abs_account) \<Rightarrow> abs_state \<Rightarrow> abs_state option" where
  "a_undo_on a f A = (if as_accounts A a = None then None else Some (a_update a f A))"

text \<open>The code an account with a given code hash and cached code shows.\<close>

definition code_of :: "state_env \<Rightarrow> address \<Rightarrow> bytes option \<Rightarrow> hash \<Rightarrow> bytes" where
  "code_of E a c h =
     (case c of
        Some bs \<Rightarrow> bs
      | None \<Rightarrow> if h = emptyCodeHash E then []
               else contract_code E (keccak256 E (Address_Bytes a)) h)"

fun a_undo :: "state_env \<Rightarrow> journalEntry \<Rightarrow> abs_state \<Rightarrow> abs_state option" where
  "a_undo E (CreateObjectChange a) A =
     Some (A\<lparr>as_accounts := (as_accounts A)
               (a := map_option (\<lambda>d. abs_obj E (newObject E a d)) (as_trie A a))\<rparr>)"
| "a_undo E (ResetObjectChange p) A =
     Some (A\<lparr>as_accounts := (as_accounts A)(so_address p \<mapsto> abs_obj E p)\<rparr>)"
| "a_undo E (SuicideChange a prev bal) A =
     Some (a_update a (\<lambda>ac. ac\<lparr>aa_suicided := prev, aa_balance := bal\<rparr>) A)"
| "a_undo E (TouchChange a prev prevDirty) A =
     (if \<not> prev \<and> a \<noteq> ripemd then a_undo_on a id A else Some A)"
| "a_undo E (BalanceChange a prev) A = a_undo_on a (\<lambda>ac. ac\<lparr>aa_balance := prev\<rparr>) A"
| "a_undo E (NonceChange a prev) A = a_undo_on a (\<lambda>ac. ac\<lparr>aa_nonce := prev\<rparr>) A"
| "a_undo E (CodeChange a c h) A =
     a_undo_on a (\<lambda>ac. ac\<lparr>aa_codehash := h, aa_code := code_of E a c h\<rparr>) A"
| "a_undo E (StorageChange a k v) A =
     a_undo_on a (\<lambda>ac. ac\<lparr>aa_storage := (aa_storage ac)(k := v)\<rparr>) A"
| "a_undo E (RefundChange prev) A = Some (A\<lparr>as_refund := prev\<rparr>)"
| "a_undo E (AddLogChange h) A =
     (if as_logs A h = [] then None
      else Some (A\<lparr>as_logs := (as_logs A)(h := butlast (as_logs A h)),
                   as_logSize := as_logSize A - 1\<rparr>))"
| "a_undo E (AddPreimageChange h) A =
     Some (A\<lparr>as_preimages := (as_preimages A)(h := None)\<rparr>)"

primrec a_undo_all :: "state_env \<Rightarrow> journalEntry list \<Rightarrow> abs_state \<Rightarrow> abs_state option" where
  "a_undo_all E [] A = Some A"
| "a_undo_all E (e # es) A = (case a_undo E e A of None \<Rightarrow> None | Some B \<Rightarrow> a_undo_all E es B)"

section \<open>The interface of an undo log\<close>

text \<open>
  A log of entries over a concrete state, each of which has an abstract meaning that the
  concrete undo refines.  Undoing a whole list then refines the abstract undo of the list.
\<close>

locale undo_log =
  fixes abs :: "'s \<Rightarrow> 'a"
    and inv :: "'s \<Rightarrow> bool"
    and ok :: "'e \<Rightarrow> bool"
    and undo1 :: "'e \<Rightarrow> 's \<Rightarrow> 's option"
    and aundo1 :: "'e \<Rightarrow> 'a \<Rightarrow> 'a option"
    and undos :: "'e list \<Rightarrow> 's \<Rightarrow> 's option"
    and aundos :: "'e list \<Rightarrow> 'a \<Rightarrow> 'a option"
  assumes undos_Nil: "undos [] s = Some s"
    and undos_Cons: "undos (e # es) s = (case undo1 e s of None \<Rightarrow> None | Some t \<Rightarrow> undos es t)"
    and aundos_Nil: "aundos [] A = Some A"
    and aundos_Cons: "aundos (e # es) A = (case aundo1 e A of None \<Rightarrow> None | Some B \<Rightarrow> aundos es B)"
    and undo_refines: "inv s \<Longrightarrow> ok e \<Longrightarrow> map_option abs (undo1 e s) = aundo1 e (abs s)"
    and undo_inv: "inv s \<Longrightarrow> ok e \<Longrightarrow> undo1 e s = Some t \<Longrightarrow> inv t"
begin

lemma aundos_append:
  "aundos (xs @ ys) A = (case aundos xs A of None \<Rightarrow> None | Some B \<Rightarrow> aundos ys B)"
  by (induction xs arbitrary: A) (auto simp: aundos_Nil aundos_Cons split: option.splits)

lemma undos_refine:
  "inv s \<Longrightarrow> \<forall>e \<in> set es. ok e \<Longrightarrow> aundos es (abs s) = Some A \<Longrightarrow>
   \<exists>t. undos es s = Some t \<and> abs t = A \<and> inv t"
proof (induction es arbitrary: s)
  case Nil
  then show ?case by (simp add: undos_Nil aundos_Nil)
next
  case (Cons e es)
  from Cons.prems(3) obtain B where B: "aundo1 e (abs s) = Some B" "aundos es B = Some A"
    by (auto simp: aundos_Cons split: option.splits)
  with undo_refines [of s e] Cons.prems obtain t where t: "undo1 e s = Some t" "abs t = B"
    by (cases "undo1 e s") auto
  moreover have "inv t" using undo_inv [OF _ _ t(1)] Cons.prems by simp
  ultimately show ?case using Cons.IH [of t] Cons.prems B by (auto simp: undos_Cons)
qed

end

section \<open>Views of the database\<close>

lemma live_simps [simp]:
  "live E (db\<lparr>sd_stateObjectsDirty := D\<rparr>) = live E db"
  "live E (db\<lparr>sd_refund := r\<rparr>) = live E db"
  "live E (db\<lparr>sd_logs := l\<rparr>) = live E db"
  "live E (db\<lparr>sd_logSize := n\<rparr>) = live E db"
  "live E (db\<lparr>sd_preimages := p\<rparr>) = live E db"
  "live E (db\<lparr>sd_journal := j\<rparr>) = live E db"
  "live E (db\<lparr>sd_validRevisions := v\<rparr>) = live E db"
  "live E (db\<lparr>sd_nextRevisionId := i\<rparr>) = live E db"
  by (simp_all add: live_def fun_eq_iff split: option.splits)

lemma live_set [simp]:
  "live E (db\<lparr>sd_stateObjects := (sd_stateObjects db)(a \<mapsto> ob)\<rparr>) =
   (live E db)(a := if so_deleted ob then None else Some ob)"
  by (auto simp: live_def fun_eq_iff split: option.splits)

lemma GetLogs_simps [simp]:
  "GetLogs h (db\<lparr>sd_stateObjects := x\<rparr>) = GetLogs h db"
  "GetLogs h (db\<lparr>sd_stateObjectsDirty := D\<rparr>) = GetLogs h db"
  "GetLogs h (db\<lparr>sd_refund := r\<rparr>) = GetLogs h db"
  "GetLogs h (db\<lparr>sd_logSize := n\<rparr>) = GetLogs h db"
  "GetLogs h (db\<lparr>sd_preimages := p\<rparr>) = GetLogs h db"
  "GetLogs h (db\<lparr>sd_journal := j\<rparr>) = GetLogs h db"
  "GetLogs h (db\<lparr>sd_validRevisions := v\<rparr>) = GetLogs h db"
  "GetLogs h (db\<lparr>sd_nextRevisionId := i\<rparr>) = GetLogs h db"
  by (simp_all add: GetLogs_def)

lemma abs_db_simps [simp]:
  "abs_db E (db\<lparr>sd_stateObjectsDirty := D\<rparr>) = abs_db E db"
  "abs_db E (db\<lparr>sd_journal := j\<rparr>) = abs_db E db"
  "abs_db E (db\<lparr>sd_validRevisions := v\<rparr>) = abs_db E db"
  "abs_db E (db\<lparr>sd_nextRevisionId := i\<rparr>) = abs_db E db"
  by (simp_all add: abs_db_def)

lemma abs_db_sel [simp]:
  "as_accounts (abs_db E db) a = map_option (abs_obj E) (live E db a)"
  "as_trie (abs_db E db) = sd_trie db"
  "as_refund (abs_db E db) = sd_refund db"
  "as_logs (abs_db E db) h = GetLogs h db"
  "as_logSize (abs_db E db) = sd_logSize db"
  "as_preimages (abs_db E db) = sd_preimages db"
  by (simp_all add: abs_db_def)

lemma abs_db_set:
  "abs_db E (db\<lparr>sd_stateObjects := (sd_stateObjects db)(a \<mapsto> ob)\<rparr>) =
   (abs_db E db)\<lparr>as_accounts := (as_accounts (abs_db E db))
      (a := if so_deleted ob then None else Some (abs_obj E ob))\<rparr>"
  by (auto simp: abs_db_def fun_eq_iff)

lemma as_accounts_same [simp]:
  "as_accounts A a = x \<Longrightarrow> A\<lparr>as_accounts := (as_accounts A)(a := x)\<rparr> = A"
  by (simp add: fun_upd_idem)

lemma db_invD:
  assumes "db_inv E db" "sd_stateObjects db a = Some ob"
  shows "so_address ob = a" "so_addrHash ob = keccak256 E (Address_Bytes a)"
    "so_deleted ob \<Longrightarrow> sd_trie db a = None"
  using assms by (auto simp: db_inv_def)

lemma db_inv_dirty:
  "db_inv E db \<Longrightarrow> a \<in> sd_stateObjectsDirty db \<Longrightarrow> sd_stateObjects db a \<noteq> None"
  by (auto simp: db_inv_def)

lemma newObject_sel [simp]:
  "so_address (newObject E a d) = a" "so_addrHash (newObject E a d) = keccak256 E (Address_Bytes a)"
  "so_deleted (newObject E a d) = False" "so_data (newObject E a d) = d"
  "so_suicided (newObject E a d) = False" "so_onDirty (newObject E a d) = True"
  by (simp_all add: newObject_def)

lemma live_sel:
  assumes "db_inv E db" "live E db a = Some ob"
  shows "so_address ob = a" "so_addrHash ob = keccak256 E (Address_Bytes a)" "\<not> so_deleted ob"
  using assms by (auto simp: live_def dest: db_invD split: option.splits if_splits)

lemma db_inv_set:
  assumes "db_inv E db" "so_address ob = a" "so_addrHash ob = keccak256 E (Address_Bytes a)"
    "\<not> so_deleted ob" "D \<subseteq> insert a (sd_stateObjectsDirty db)"
  shows "db_inv E (db\<lparr>sd_stateObjects := (sd_stateObjects db)(a \<mapsto> ob), sd_stateObjectsDirty := D\<rparr>)"
  using assms unfolding db_inv_def by auto

lemma db_inv_frame [simp]:
  "db_inv E (db\<lparr>sd_journal := j\<rparr>) = db_inv E db"
  "db_inv E (db\<lparr>sd_refund := r\<rparr>) = db_inv E db"
  "db_inv E (db\<lparr>sd_logs := l\<rparr>) = db_inv E db"
  "db_inv E (db\<lparr>sd_logSize := n\<rparr>) = db_inv E db"
  "db_inv E (db\<lparr>sd_preimages := pr\<rparr>) = db_inv E db"
  by (simp_all add: db_inv_def)

section \<open>Loading an object\<close>

text \<open>A live object of an address, as \<open>getStateObject\<close> leaves the database: present in the map,
  with nothing observable changed.\<close>

lemma getStateObject_eq:
  "getStateObject E a db =
     (live E db a,
      (case live E db a of
         Some ob \<Rightarrow> db\<lparr>sd_stateObjects := (sd_stateObjects db)(a \<mapsto> ob)\<rparr>
       | None \<Rightarrow> db))"
proof (cases "sd_stateObjects db a")
  case None
  then show ?thesis
    by (cases "sd_trie db a")
       (simp_all add: getStateObject_def live_def setStateObject_def Let_def)
next
  case (Some ob)
  then have "(sd_stateObjects db)(a \<mapsto> ob) = sd_stateObjects db" by (simp add: fun_upd_idem)
  with Some show ?thesis by (simp add: getStateObject_def live_def)
qed

definition load :: "state_env \<Rightarrow> address \<Rightarrow> StateDB \<Rightarrow> StateDB" where
  "load E a db = snd (getStateObject E a db)"

lemma load_eq:
  "load E a db = (case live E db a of
     Some ob \<Rightarrow> db\<lparr>sd_stateObjects := (sd_stateObjects db)(a \<mapsto> ob)\<rparr> | None \<Rightarrow> db)"
  by (simp add: load_def getStateObject_eq)

lemma getStateObject_load: "getStateObject E a db = (live E db a, load E a db)"
  by (simp add: load_def getStateObject_eq)

lemma load_abs [simp]: "db_inv E db \<Longrightarrow> abs_db E (load E a db) = abs_db E db"
  by (auto simp: load_eq abs_db_set dest: live_sel split: option.splits)

lemma load_live [simp]: "db_inv E db \<Longrightarrow> live E (load E a db) = live E db"
  by (auto simp: load_eq fun_upd_idem dest: live_sel split: option.splits)

lemma load_inv [simp]: "db_inv E db \<Longrightarrow> db_inv E (load E a db)"
proof (cases "live E db a")
  case (Some ob)
  assume "db_inv E db"
  with Some show ?thesis
    using live_sel [OF \<open>db_inv E db\<close> Some]
      db_inv_set [of E db ob a "sd_stateObjectsDirty db"]
    by (auto simp: load_eq)
qed (simp add: load_eq)

lemma load_frame [simp]:
  "sd_journal (load E a db) = sd_journal db"
  "sd_validRevisions (load E a db) = sd_validRevisions db"
  "sd_nextRevisionId (load E a db) = sd_nextRevisionId db"
  "sd_stateObjectsDirty (load E a db) = sd_stateObjectsDirty db"
  "sd_trie (load E a db) = sd_trie db"
  by (simp_all add: load_eq split: option.splits)

lemma load_objects: "live E db a = Some ob \<Longrightarrow> sd_stateObjects (load E a db) a = Some ob"
  by (simp add: load_eq)

section \<open>Undoing an entry refines the abstract undo\<close>

text \<open>A method of a live object that changes the account by \<open>g\<close>, marks at most its own address
  dirty and writes no journal entry.\<close>

definition obj_step ::
    "state_env \<Rightarrow> address \<Rightarrow> (objdb \<Rightarrow> objdb) \<Rightarrow> (abs_account \<Rightarrow> abs_account) \<Rightarrow> bool" where
  "obj_step E a f g \<longleftrightarrow>
     (\<forall>ob db. so_address ob = a \<longrightarrow> so_addrHash ob = keccak256 E (Address_Bytes a) \<longrightarrow>
        (\<exists>ob' D. f (ob, db) = (ob', db\<lparr>sd_stateObjectsDirty := D\<rparr>) \<and>
           D \<subseteq> insert a (sd_stateObjectsDirty db) \<and> so_address ob' = a \<and>
           so_addrHash ob' = so_addrHash ob \<and> so_deleted ob' = so_deleted ob \<and>
           abs_obj E ob' = g (abs_obj E ob)))"

lemma dirty_id: "db = db\<lparr>sd_stateObjectsDirty := sd_stateObjectsDirty db\<rparr>"
  by simp

lemma obj_storage_eq:
  "obj_storage E ob = (\<lambda>k. case so_cachedStorage ob k of Some v \<Rightarrow> v | None \<Rightarrow>
     (case so_trie ob of Some t \<Rightarrow> t
      | None \<Rightarrow> storage_trie E (so_addrHash ob) (acc_Root (so_data ob))) k)"
  by (auto simp: obj_storage_def getTrie_def fun_eq_iff Let_def split: option.splits)

lemma obj_code_eq:
  "obj_code E ob = (case so_code ob of Some c \<Rightarrow> c | None \<Rightarrow>
     if acc_CodeHash (so_data ob) = emptyCodeHash E then []
     else contract_code E (so_addrHash ob) (acc_CodeHash (so_data ob)))"
  by (auto simp: obj_code_def so_Code_def code_bytes_def Let_def split: option.splits)

lemmas obj_views = abs_obj_def obj_code_eq obj_storage_eq fun_eq_iff

lemma abs_obj_frame [simp]:
  "abs_obj E (ob\<lparr>so_onDirty := d\<rparr>) = abs_obj E ob"
  "abs_obj E (ob\<lparr>so_touched := t\<rparr>) = abs_obj E ob"
  "abs_obj E (ob\<lparr>so_dirtyCode := t\<rparr>) = abs_obj E ob"
  "abs_obj E (ob\<lparr>so_dirtyStorage := st\<rparr>) = abs_obj E ob"
  by (simp_all add: obj_views cong: option.case_cong)

lemma obj_step_fire:
  assumes "\<And>ob db. so_address ob = a \<Longrightarrow> so_addrHash ob = keccak256 E (Address_Bytes a) \<Longrightarrow>
    f (ob, db) = fire_onDirty (h ob, db) \<and> so_address (h ob) = a \<and> so_addrHash (h ob) = so_addrHash ob \<and>
    so_deleted (h ob) = so_deleted ob \<and> abs_obj E (h ob) = g (abs_obj E ob)"
  shows "obj_step E a f g"
proof -
  have fire: "\<exists>ob' D. fire_onDirty (x, db) = (ob', db\<lparr>sd_stateObjectsDirty := D\<rparr>) \<and>
      D \<subseteq> insert (so_address x) (sd_stateObjectsDirty db) \<and> so_address ob' = so_address x \<and>
      so_addrHash ob' = so_addrHash x \<and> so_deleted ob' = so_deleted x \<and> abs_obj E ob' = abs_obj E x"
    for x db
  proof (cases "so_onDirty x")
    case True
    then show ?thesis
      by (intro exI [of _ "x\<lparr>so_onDirty := False\<rparr>"]
            exI [of _ "insert (so_address x) (sd_stateObjectsDirty db)"])
         (simp add: MarkStateObjectDirty_def)
  next
    case False
    then show ?thesis
      by (intro exI [of _ x] exI [of _ "sd_stateObjectsDirty db"]) (auto simp: dirty_id)
  qed
  show ?thesis unfolding obj_step_def
  proof (intro allI impI)
    fix ob :: stateObject and db :: StateDB
    assume "so_address ob = a" "so_addrHash ob = keccak256 E (Address_Bytes a)"
    note a = assms [OF this, of db]
    with fire [of "h ob" db]
    show "\<exists>ob' D. f (ob, db) = (ob', db\<lparr>sd_stateObjectsDirty := D\<rparr>) \<and>
           D \<subseteq> insert a (sd_stateObjectsDirty db) \<and> so_address ob' = a \<and>
           so_addrHash ob' = so_addrHash ob \<and> so_deleted ob' = so_deleted ob \<and>
           abs_obj E ob' = g (abs_obj E ob)" by (simp del: fire_onDirty.simps)
  qed
qed

lemma obj_step_setBalance:
  "obj_step E a (setBalance b) (\<lambda>ac. ac\<lparr>aa_balance := b\<rparr>)"
  by (rule obj_step_fire [where h = "\<lambda>ob. ob\<lparr>so_data := (so_data ob)\<lparr>acc_Balance := b\<rparr>\<rparr>"])
     (auto simp: obj_views simp del: fire_onDirty.simps cong: option.case_cong)

lemma obj_step_setNonce:
  "obj_step E a (setNonce n) (\<lambda>ac. ac\<lparr>aa_nonce := n\<rparr>)"
  by (rule obj_step_fire [where h = "\<lambda>ob. ob\<lparr>so_data := (so_data ob)\<lparr>acc_Nonce := n\<rparr>\<rparr>"])
     (auto simp: obj_views simp del: fire_onDirty.simps cong: option.case_cong)

lemma obj_step_setCode:
  "obj_step E a (setCode h c) (\<lambda>ac. ac\<lparr>aa_codehash := h, aa_code := code_of E a c h\<rparr>)"
  by (rule obj_step_fire [where h = "\<lambda>ob. ob\<lparr>so_code := c,
        so_data := (so_data ob)\<lparr>acc_CodeHash := h\<rparr>, so_dirtyCode := True\<rparr>"])
     (auto simp: obj_views code_of_def simp del: fire_onDirty.simps cong: option.case_cong)

lemma obj_step_setState:
  "obj_step E a (setState k v) (\<lambda>ac. ac\<lparr>aa_storage := (aa_storage ac)(k := v)\<rparr>)"
  by (rule obj_step_fire [where h = "\<lambda>ob. ob\<lparr>so_cachedStorage := (so_cachedStorage ob)(k \<mapsto> v),
        so_dirtyStorage := (so_dirtyStorage ob)(k \<mapsto> v)\<rparr>"])
     (auto simp: obj_views simp del: fire_onDirty.simps cong: option.case_cong)

lemma obj_step_suicide:
  "obj_step E a (\<lambda>(ob, db). setBalance b (ob\<lparr>so_suicided := p\<rparr>, db))
     (\<lambda>ac. ac\<lparr>aa_suicided := p, aa_balance := b\<rparr>)"
  by (rule obj_step_fire [where h = "\<lambda>ob. ob\<lparr>so_suicided := p,
        so_data := (so_data ob)\<lparr>acc_Balance := b\<rparr>\<rparr>"])
     (auto simp: obj_views simp del: fire_onDirty.simps cong: option.case_cong)

lemma obj_step_touched:
  "obj_step E a (\<lambda>(ob, db). (ob\<lparr>so_touched := p\<rparr>, db)) id"
  unfolding obj_step_def
proof (intro allI impI)
  fix ob :: stateObject and db :: StateDB
  assume "so_address ob = a" "so_addrHash ob = keccak256 E (Address_Bytes a)"
  then show "\<exists>ob' D. (case (ob, db) of (ob, db) \<Rightarrow> (ob\<lparr>so_touched := p\<rparr>, db)) =
      (ob', db\<lparr>sd_stateObjectsDirty := D\<rparr>) \<and> D \<subseteq> insert a (sd_stateObjectsDirty db) \<and>
      so_address ob' = a \<and> so_addrHash ob' = so_addrHash ob \<and> so_deleted ob' = so_deleted ob \<and>
      abs_obj E ob' = id (abs_obj E ob)"
    by (intro exI [of _ "ob\<lparr>so_touched := p\<rparr>"] exI [of _ "sd_stateObjectsDirty db"]) auto
qed

lemma obj_step_live:
  assumes step: "obj_step E a f g" and inv: "db_inv E db" and ob: "live E db a = Some ob"
  obtains ob' D where
    "f (ob, load E a db) = (ob', (load E a db)\<lparr>sd_stateObjectsDirty := D\<rparr>)"
    "D \<subseteq> insert a (sd_stateObjectsDirty db)" "so_address ob' = a"
    "so_addrHash ob' = keccak256 E (Address_Bytes a)" "\<not> so_deleted ob'"
    "abs_obj E ob' = g (abs_obj E ob)"
    "abs_db E ((load E a db)\<lparr>sd_stateObjectsDirty := D,
       sd_stateObjects := (sd_stateObjects (load E a db))(a \<mapsto> ob')\<rparr>) = a_update a g (abs_db E db)"
    "db_inv E ((load E a db)\<lparr>sd_stateObjectsDirty := D,
       sd_stateObjects := (sd_stateObjects (load E a db))(a \<mapsto> ob')\<rparr>)"
proof -
  note sel = live_sel [OF inv ob]
  obtain ob' D where o: "f (ob, load E a db) = (ob', (load E a db)\<lparr>sd_stateObjectsDirty := D\<rparr>)"
    "D \<subseteq> insert a (sd_stateObjectsDirty db)" "so_address ob' = a"
    "so_addrHash ob' = keccak256 E (Address_Bytes a)" "\<not> so_deleted ob'"
    "abs_obj E ob' = g (abs_obj E ob)"
    using step [unfolded obj_step_def, rule_format, of ob "load E a db"] sel by auto
  have comm: "(load E a db)\<lparr>sd_stateObjectsDirty := D,
       sd_stateObjects := (sd_stateObjects (load E a db))(a \<mapsto> ob')\<rparr> =
     (load E a db)\<lparr>sd_stateObjects := (sd_stateObjects (load E a db))(a \<mapsto> ob'),
       sd_stateObjectsDirty := D\<rparr>" by simp
  show ?thesis
  proof (rule that [OF o])
    show "abs_db E ((load E a db)\<lparr>sd_stateObjectsDirty := D,
       sd_stateObjects := (sd_stateObjects (load E a db))(a \<mapsto> ob')\<rparr>) = a_update a g (abs_db E db)"
      unfolding comm abs_db_simps using o ob inv by (simp add: abs_db_set a_update_def)
    show "db_inv E ((load E a db)\<lparr>sd_stateObjectsDirty := D,
       sd_stateObjects := (sd_stateObjects (load E a db))(a \<mapsto> ob')\<rparr>)"
      unfolding comm using db_inv_set [of E "load E a db" ob' a D] o inv by simp
  qed
qed

definition same_log :: "StateDB \<Rightarrow> StateDB \<Rightarrow> bool" where
  "same_log s t \<longleftrightarrow> sd_journal t = sd_journal s \<and> sd_validRevisions t = sd_validRevisions s \<and>
     sd_nextRevisionId t = sd_nextRevisionId s"

text \<open>The result of undoing one entry: the abstract undo, the invariant, an unchanged log.\<close>

definition undoes :: "state_env \<Rightarrow> StateDB \<Rightarrow> StateDB option \<Rightarrow> abs_state option \<Rightarrow> bool" where
  "undoes E s r A \<longleftrightarrow> map_option (abs_db E) r = A \<and> (\<forall>t. r = Some t \<longrightarrow> db_inv E t \<and> same_log s t)"

lemma undo_on_undoes:
  assumes step: "obj_step E a f g" and inv: "db_inv E db"
  shows "undoes E db (undo_on E a f db) (a_undo_on a g (abs_db E db))"
proof (cases "live E db a")
  case None
  then show ?thesis by (simp add: undoes_def undo_on_def getStateObject_load a_undo_on_def)
next
  case (Some ob)
  from obj_step_live [OF step inv Some] obtain ob' D where o:
    "f (ob, load E a db) = (ob', (load E a db)\<lparr>sd_stateObjectsDirty := D\<rparr>)"
    "so_address ob' = a"
    "abs_db E ((load E a db)\<lparr>sd_stateObjectsDirty := D,
       sd_stateObjects := (sd_stateObjects (load E a db))(a \<mapsto> ob')\<rparr>) = a_update a g (abs_db E db)"
    "db_inv E ((load E a db)\<lparr>sd_stateObjectsDirty := D,
       sd_stateObjects := (sd_stateObjects (load E a db))(a \<mapsto> ob')\<rparr>)" by blast
  with Some show ?thesis
    by (simp add: undoes_def undo_on_def getStateObject_load a_undo_on_def setStateObject_def
        same_log_def del: StateDB.update_convs)
qed

lemma undoes_Touch:
  assumes "db_inv E db"
  shows "undoes E db (undo E (TouchChange a p d) db) (a_undo E (TouchChange a p d) (abs_db E db))"
proof (cases "\<not> p \<and> a \<noteq> ripemd")
  case True
  let ?r = "undo_on E a (\<lambda>(ob, db1). (ob\<lparr>so_touched := False\<rparr>, db1)) db"
  from undo_on_undoes [OF obj_step_touched assms]
  have r: "undoes E db ?r (a_undo_on a id (abs_db E db))" .
  have clean: "db_inv E (t\<lparr>sd_stateObjectsDirty := sd_stateObjectsDirty t - {a}\<rparr>)" if "db_inv E t" for t
    using that by (auto simp: db_inv_def)
  show ?thesis
  proof (cases ?r)
    case None
    with r True show ?thesis by (simp add: undoes_def)
  next
    case (Some t)
    with r True clean [of t] show ?thesis by (auto simp: undoes_def same_log_def)
  qed
next
  case False
  with assms show ?thesis by (auto simp: undoes_def same_log_def)
qed

lemma undoes_Suicide:
  assumes "db_inv E db"
  shows "undoes E db (undo E (SuicideChange a p b) db) (a_undo E (SuicideChange a p b) (abs_db E db))"
proof (cases "live E db a")
  case None
  then show ?thesis using assms
    by (simp add: undoes_def getStateObject_load a_update_def same_log_def fun_upd_idem)
next
  case (Some ob)
  from undo_on_undoes [OF obj_step_suicide [of E a b p] assms] Some show ?thesis
    by (simp add: undo_on_def getStateObject_load a_undo_on_def del: setBalance.simps)
qed

lemma undoes_Create:
  assumes "db_inv E db"
  shows "undoes E db (undo E (CreateObjectChange a) db) (a_undo E (CreateObjectChange a) (abs_db E db))"
  using assms by (auto simp: undoes_def same_log_def db_inv_def abs_db_def live_def fun_eq_iff
      GetLogs_def option.map_comp comp_def split: option.splits)

lemma undoes_Reset:
  assumes "db_inv E db" "entry_ok E (ResetObjectChange p)"
  shows "undoes E db (undo E (ResetObjectChange p) db) (a_undo E (ResetObjectChange p) (abs_db E db))"
  using assms db_inv_set [of E db p "so_address p" "sd_stateObjectsDirty db"]
  by (auto simp: undoes_def same_log_def setStateObject_def abs_db_set entry_ok_def)

lemma undoes_Log:
  assumes "db_inv E db"
  shows "undoes E db (undo E (AddLogChange h) db) (a_undo E (AddLogChange h) (abs_db E db))"
proof -
  have 1: "length ls = 1 \<Longrightarrow> butlast ls = []" for ls :: "Log list" by (cases ls) auto
  have 2: "abs_db E (db\<lparr>sd_logs := (sd_logs db)(h := L), sd_logSize := n\<rparr>) =
      (abs_db E db)\<lparr>as_logs := (as_logs (abs_db E db))(h := case L of None \<Rightarrow> [] | Some l \<Rightarrow> l),
         as_logSize := n\<rparr>" for L n
    by (auto simp: abs_db_def GetLogs_def fun_eq_iff)
  show ?thesis using assms
    by (auto simp: undoes_def same_log_def Let_def 1 2)
qed

lemma undoes_undo:
  assumes "db_inv E db" "entry_ok E e"
  shows "undoes E db (undo E e db) (a_undo E e (abs_db E db))"
proof (cases e)
  case (RefundChange r)
  with assms show ?thesis by (auto simp: undoes_def same_log_def abs_db_def)
next
  case (AddPreimageChange h)
  with assms show ?thesis by (auto simp: undoes_def same_log_def abs_db_def)
qed (use assms in \<open>simp_all only: undoes_Create undoes_Reset undoes_Suicide undoes_Touch undoes_Log
   undo.simps(5-8) a_undo.simps(5-8) undo_on_undoes obj_step_setBalance obj_step_setNonce
   obj_step_setCode obj_step_setState\<close>)

lemma undo_all_same_log:
  "db_inv E s \<Longrightarrow> \<forall>e \<in> set es. entry_ok E e \<Longrightarrow> undo_all E es s = Some t \<Longrightarrow> same_log s t"
proof (induction es arbitrary: s)
  case Nil
  then show ?case by (simp add: same_log_def)
next
  case (Cons e es)
  then obtain u where u: "undo E e s = Some u" "undo_all E es u = Some t"
    by (auto split: option.splits)
  with undoes_undo [of E s e] Cons.prems have "db_inv E u" "same_log s u"
    by (auto simp: undoes_def)
  with Cons.IH [OF this(1)] u Cons.prems show ?case by (simp add: same_log_def)
qed

interpretation jl: undo_log "abs_db E" "db_inv E" "entry_ok E" "undo E" "a_undo E" "undo_all E" "a_undo_all E"
  for E
proof
  fix s e t
  assume "db_inv E s" "entry_ok E e"
  note u = undoes_undo [OF this]
  then show "map_option (abs_db E) (undo E e s) = a_undo E e (abs_db E s)" by (simp add: undoes_def)
  show "undo E e s = Some t \<Longrightarrow> db_inv E t" using u by (simp add: undoes_def)
qed simp_all

section \<open>Revertible extensions\<close>

text \<open>
  \<open>ext E s t\<close>: the log of \<open>t\<close> extends that of \<open>s\<close>, undoing the added entries takes the observable
  state of \<open>t\<close> back to that of \<open>s\<close>, and only newer revisions were added.  Every operation of the
  database is a revertible extension.
\<close>

definition ext :: "state_env \<Rightarrow> StateDB \<Rightarrow> StateDB \<Rightarrow> bool" where
  "ext E s t \<longleftrightarrow> db_inv E t \<and> sd_nextRevisionId s \<le> sd_nextRevisionId t \<and>
     (\<exists>es. sd_journal t = sd_journal s @ es \<and> (\<forall>e \<in> set es. entry_ok E e) \<and>
        a_undo_all E (rev es) (abs_db E t) = Some (abs_db E s)) \<and>
     (\<exists>rs. sd_validRevisions t = sd_validRevisions s @ rs \<and>
        (\<forall>r \<in> set rs. sd_nextRevisionId s \<le> fst r))"

lemma ext_inv [dest]: "ext E s t \<Longrightarrow> db_inv E t"
  by (simp add: ext_def)

lemma ext_same: "db_inv E t \<Longrightarrow> same_log s t \<Longrightarrow> abs_db E t = abs_db E s \<Longrightarrow> ext E s t"
  by (auto simp: ext_def same_log_def)

lemma ext_refl [simp, intro]: "db_inv E s \<Longrightarrow> ext E s s"
  by (simp add: ext_same same_log_def)

lemma ext_trans [trans]:
  assumes "ext E s t" "ext E t u" shows "ext E s u"
proof -
  from assms obtain es fs rs qs where
    es: "sd_journal t = sd_journal s @ es" "\<forall>e \<in> set es. entry_ok E e"
      "a_undo_all E (rev es) (abs_db E t) = Some (abs_db E s)" and
    fs: "sd_journal u = sd_journal t @ fs" "\<forall>e \<in> set fs. entry_ok E e"
      "a_undo_all E (rev fs) (abs_db E u) = Some (abs_db E t)" and
    rs: "sd_validRevisions t = sd_validRevisions s @ rs"
      "\<forall>r \<in> set rs. sd_nextRevisionId s \<le> fst r" and
    qs: "sd_validRevisions u = sd_validRevisions t @ qs"
      "\<forall>r \<in> set qs. sd_nextRevisionId t \<le> fst r" and
    n: "sd_nextRevisionId s \<le> sd_nextRevisionId t" "sd_nextRevisionId t \<le> sd_nextRevisionId u"
      "db_inv E u"
    unfolding ext_def by blast
  have "a_undo_all E (rev (es @ fs)) (abs_db E u) = Some (abs_db E s)"
    using es fs by (simp add: jl.aundos_append)
  moreover have "\<forall>r \<in> set (rs @ qs). sd_nextRevisionId s \<le> fst r"
    using rs(2) qs(2) n(1) by fastforce
  ultimately show ?thesis
    unfolding ext_def using es fs rs qs n
    by (intro conjI exI [of _ "es @ fs"] exI [of _ "rs @ qs"]) auto
qed

lemma ext_entry:
  assumes "db_inv E t" "entry_ok E e" "sd_journal t = sd_journal s @ [e]"
    "sd_validRevisions t = sd_validRevisions s" "sd_nextRevisionId t = sd_nextRevisionId s"
    "a_undo E e (abs_db E t) = Some (abs_db E s)"
  shows "ext E s t"
  using assms unfolding ext_def by (intro conjI exI [of _ "[e]"] exI [of _ "[]"]) auto

text \<open>A journalled method of a live object.\<close>

definition obj_jstep ::
    "state_env \<Rightarrow> address \<Rightarrow> (objdb \<Rightarrow> objdb) \<Rightarrow> (abs_account \<Rightarrow> abs_account) \<Rightarrow> bool" where
  "obj_jstep E a f g \<longleftrightarrow>
     (\<forall>ob db. so_address ob = a \<longrightarrow> so_addrHash ob = keccak256 E (Address_Bytes a) \<longrightarrow>
        (\<exists>ob' D es. f (ob, db) =
             (ob', db\<lparr>sd_journal := sd_journal db @ es, sd_stateObjectsDirty := D\<rparr>) \<and>
           D \<subseteq> insert a (sd_stateObjectsDirty db) \<and> so_address ob' = a \<and>
           so_addrHash ob' = so_addrHash ob \<and> so_deleted ob' = so_deleted ob \<and>
           abs_obj E ob' = g (abs_obj E ob) \<and> (\<forall>e \<in> set es. entry_ok E e) \<and>
           (\<forall>A. as_accounts A a = Some (g (abs_obj E ob)) \<longrightarrow>
              a_undo_all E (rev es) A =
                Some (A\<lparr>as_accounts := (as_accounts A)(a \<mapsto> abs_obj E ob)\<rparr>))))"

lemma obj_jstep_journal:
  assumes step: "obj_step E a f0 g"
    and f: "\<And>ob db. so_address ob = a \<Longrightarrow> so_addrHash ob = keccak256 E (Address_Bytes a) \<Longrightarrow>
      f (ob, db) = f0 (h ob, journal_append (e ob) db) \<and> so_address (h ob) = a \<and>
      so_addrHash (h ob) = so_addrHash ob \<and> so_deleted (h ob) = so_deleted ob \<and>
      abs_obj E (h ob) = abs_obj E ob \<and> entry_ok E (e ob) \<and>
      (\<forall>A. as_accounts A a = Some (g (abs_obj E ob)) \<longrightarrow>
         a_undo E (e ob) A = Some (A\<lparr>as_accounts := (as_accounts A)(a \<mapsto> abs_obj E ob)\<rparr>))"
  shows "obj_jstep E a f g"
  unfolding obj_jstep_def
proof (intro allI impI)
  fix ob :: stateObject and db :: StateDB
  assume ob: "so_address ob = a" "so_addrHash ob = keccak256 E (Address_Bytes a)"
  note f = f [OF ob, of db]
  with step [unfolded obj_step_def, rule_format, of "h ob" "journal_append (e ob) db"] ob
  obtain ob' D where
    "f (ob, db) = (ob', (journal_append (e ob) db)\<lparr>sd_stateObjectsDirty := D\<rparr>)"
    "D \<subseteq> insert a (sd_stateObjectsDirty db)" "so_address ob' = a" "so_addrHash ob' = so_addrHash ob"
    "so_deleted ob' = so_deleted ob" "abs_obj E ob' = g (abs_obj E ob)"
    by (auto simp: journal_append_def)
  with f show "\<exists>ob' D es. f (ob, db) =
             (ob', db\<lparr>sd_journal := sd_journal db @ es, sd_stateObjectsDirty := D\<rparr>) \<and>
           D \<subseteq> insert a (sd_stateObjectsDirty db) \<and> so_address ob' = a \<and>
           so_addrHash ob' = so_addrHash ob \<and> so_deleted ob' = so_deleted ob \<and>
           abs_obj E ob' = g (abs_obj E ob) \<and> (\<forall>e \<in> set es. entry_ok E e) \<and>
           (\<forall>A. as_accounts A a = Some (g (abs_obj E ob)) \<longrightarrow>
              a_undo_all E (rev es) A =
                Some (A\<lparr>as_accounts := (as_accounts A)(a \<mapsto> abs_obj E ob)\<rparr>))"
    by (intro exI [of _ ob'] exI [of _ D] exI [of _ "[e ob]"]) (simp add: journal_append_def)
qed

end
