(* ===== verification/State_Refine.thy ===== *)
theory State_Refine
  imports State_Journal
begin

text \<open>
  The operations of the \<open>StateDB\<close> against the abstract state: each refines an abstract operation
  and is a revertible extension of the database it starts from.  The last section states the
  contract of \<open>Snapshot\<close> and \<open>RevertToSnapshot\<close> that the interpreter relies on.
\<close>

section \<open>Abstract operations\<close>

definition fresh_account :: "state_env \<Rightarrow> address \<Rightarrow> abs_account" where
  "fresh_account E a = abs_obj E (newObject E a (zeroAccount E))"

definition a_new :: "state_env \<Rightarrow> address \<Rightarrow> abs_state \<Rightarrow> abs_state" where
  "a_new E a A =
     (if as_accounts A a = None
      then A\<lparr>as_accounts := (as_accounts A)(a \<mapsto> fresh_account E a)\<rparr> else A)"

definition a_on :: "state_env \<Rightarrow> address \<Rightarrow> (abs_account \<Rightarrow> abs_account) \<Rightarrow> abs_state \<Rightarrow> abs_state" where
  "a_on E a g A = a_update a g (a_new E a A)"

definition a_create :: "state_env \<Rightarrow> address \<Rightarrow> abs_state \<Rightarrow> abs_state" where
  "a_create E a A =
     A\<lparr>as_accounts := (as_accounts A)(a \<mapsto>
        (case as_accounts A a of
           None \<Rightarrow> fresh_account E a
         | Some p \<Rightarrow> (fresh_account E a)\<lparr>aa_balance := aa_balance p\<rparr>))\<rparr>"

definition a_get :: "address \<Rightarrow> (abs_account \<Rightarrow> 'v) \<Rightarrow> 'v \<Rightarrow> abs_state \<Rightarrow> 'v" where
  "a_get a f d A = (case as_accounts A a of None \<Rightarrow> d | Some ac \<Rightarrow> f ac)"

definition a_log :: "Log \<Rightarrow> abs_state \<Rightarrow> abs_state" where
  "a_log l A =
     A\<lparr>as_logs := (as_logs A)(as_thash A := as_logs A (as_thash A) @
           [l\<lparr>log_TxHash := as_thash A, log_BlockHash := as_bhash A,
              log_TxIndex := as_txIndex A, log_Index := as_logSize A\<rparr>]),
       as_logSize := as_logSize A + 1\<rparr>"

definition account_empty :: "state_env \<Rightarrow> abs_account \<Rightarrow> bool" where
  "account_empty E ac \<longleftrightarrow> aa_nonce ac = 0 \<and> aa_balance ac = 0 \<and> aa_codehash ac = emptyCodeHash E"

text \<open>\<open>refines E f F\<close>: from every well-formed database, \<open>f\<close> is a revertible extension that
  implements \<open>F\<close>.\<close>

definition refines :: "state_env \<Rightarrow> (StateDB \<Rightarrow> StateDB) \<Rightarrow> (abs_state \<Rightarrow> abs_state) \<Rightarrow> bool" where
  "refines E f F \<longleftrightarrow> (\<forall>s. db_inv E s \<longrightarrow> ext E s (f s) \<and> abs_db E (f s) = F (abs_db E s))"

definition reads :: "state_env \<Rightarrow> (StateDB \<Rightarrow> 'v \<times> StateDB) \<Rightarrow> (abs_state \<Rightarrow> 'v) \<Rightarrow> bool" where
  "reads E f F \<longleftrightarrow>
     (\<forall>s. db_inv E s \<longrightarrow>
        fst (f s) = F (abs_db E s) \<and> ext E s (snd (f s)) \<and> abs_db E (snd (f s)) = abs_db E s)"

section \<open>Methods of a live object\<close>

lemma obj_jstep_SetBalance: "obj_jstep E a (so_SetBalance b) (\<lambda>ac. ac\<lparr>aa_balance := b\<rparr>)"
  by (rule obj_jstep_journal [OF obj_step_setBalance, where h = "\<lambda>ob. ob"
        and e = "\<lambda>ob. BalanceChange (so_address ob) (acc_Balance (so_data ob))"])
     (auto simp: entry_ok_def a_undo_on_def a_update_def abs_obj_def simp del: setBalance.simps)

lemma obj_jstep_SetNonce: "obj_jstep E a (so_SetNonce n) (\<lambda>ac. ac\<lparr>aa_nonce := n\<rparr>)"
  by (rule obj_jstep_journal [OF obj_step_setNonce, where h = "\<lambda>ob. ob"
        and e = "\<lambda>ob. NonceChange (so_address ob) (acc_Nonce (so_data ob))"])
     (auto simp: entry_ok_def a_undo_on_def a_update_def abs_obj_def simp del: setNonce.simps)

lemma so_Code_frame [simp]:
  "so_address (snd (so_Code E ob)) = so_address ob" "so_addrHash (snd (so_Code E ob)) = so_addrHash ob"
  "so_deleted (snd (so_Code E ob)) = so_deleted ob" "abs_obj E (snd (so_Code E ob)) = abs_obj E ob"
  by (auto simp: so_Code_def obj_views Let_def split: option.splits)

lemma so_Code_code:
  "so_addrHash ob = keccak256 E (Address_Bytes a) \<Longrightarrow>
   code_of E a (fst (so_Code E ob)) (acc_CodeHash (so_data ob)) = obj_code E ob"
  by (auto simp: so_Code_def code_of_def obj_code_eq Let_def split: option.splits)

lemma so_GetState_frame [simp]:
  "so_address (snd (so_GetState E k ob)) = so_address ob"
  "so_addrHash (snd (so_GetState E k ob)) = so_addrHash ob"
  "so_deleted (snd (so_GetState E k ob)) = so_deleted ob"
  "abs_obj E (snd (so_GetState E k ob)) = abs_obj E ob"
  by (auto simp: so_GetState_def obj_views getTrie_def Let_def split: option.splits)

lemma so_GetState_value: "fst (so_GetState E k ob) = obj_storage E ob k"
  by (auto simp: so_GetState_def obj_views getTrie_def Let_def split: option.splits)

lemma obj_jstep_SetState:
  "obj_jstep E a (so_SetState E k v) (\<lambda>ac. ac\<lparr>aa_storage := (aa_storage ac)(k := v)\<rparr>)"
  by (rule obj_jstep_journal [OF obj_step_setState, where h = "\<lambda>ob. snd (so_GetState E k ob)"
        and e = "\<lambda>ob. StorageChange (so_address ob) k (fst (so_GetState E k ob))"])
     (auto simp: entry_ok_def a_undo_on_def a_update_def so_GetState_value case_prod_unfold
        abs_obj_def [of E ob for ob] simp del: setState.simps)

lemma obj_jstep_SetCode:
  "obj_jstep E a (so_SetCode E h c) (\<lambda>ac. ac\<lparr>aa_codehash := h, aa_code := code_of E a c h\<rparr>)"
  by (rule obj_jstep_journal [OF obj_step_setCode, where h = "\<lambda>ob. snd (so_Code E ob)"
        and e = "\<lambda>ob. CodeChange (so_address ob) (fst (so_Code E ob)) (acc_CodeHash (so_data ob))"])
     (auto simp: entry_ok_def a_undo_on_def a_update_def so_Code_code case_prod_unfold Let_def
        abs_obj_def [of E ob for ob] simp del: setCode.simps)

lemma obj_jstep_id: "obj_jstep E a (\<lambda>od. od) (\<lambda>ac. ac)"
  unfolding obj_jstep_def
proof (intro allI impI)
  fix ob :: stateObject and db :: StateDB
  assume "so_address ob = a" "so_addrHash ob = keccak256 E (Address_Bytes a)"
  then show "\<exists>ob' D es. (ob, db) =
             (ob', db\<lparr>sd_journal := sd_journal db @ es, sd_stateObjectsDirty := D\<rparr>) \<and>
           D \<subseteq> insert a (sd_stateObjectsDirty db) \<and> so_address ob' = a \<and>
           so_addrHash ob' = so_addrHash ob \<and> so_deleted ob' = so_deleted ob \<and>
           abs_obj E ob' = abs_obj E ob \<and> (\<forall>e \<in> set es. entry_ok E e) \<and>
           (\<forall>A. as_accounts A a = Some (abs_obj E ob) \<longrightarrow>
              a_undo_all E (rev es) A =
                Some (A\<lparr>as_accounts := (as_accounts A)(a \<mapsto> abs_obj E ob)\<rparr>))"
    by (intro exI [of _ ob] exI [of _ "sd_stateObjectsDirty db"] exI [of _ "[]"]) auto
qed

lemma obj_jstep_touch: "obj_jstep E a touch (\<lambda>ac. ac)"
proof -
  let ?f = "\<lambda>(ob, db). let (ob2, db2) = fire_onDirty (ob, db) in (ob2\<lparr>so_touched := True\<rparr>, db2)"
  have "obj_step E a ?f (\<lambda>ac. ac)"
    by (rule obj_step_fire [where h = "\<lambda>ob. ob\<lparr>so_touched := True\<rparr>"]) (auto simp: Let_def)
  then show ?thesis
    by (rule obj_jstep_journal [where h = "\<lambda>ob. ob"
          and e = "\<lambda>ob. TouchChange (so_address ob) (so_touched ob) (\<not> so_onDirty ob)"])
       (auto simp: entry_ok_def a_undo_on_def a_update_def Let_def journal_append_def fun_upd_idem)
qed

text \<open>A method that picks one of several steps by looking at the object.\<close>

lemma obj_jstep_if:
  assumes "\<And>ob. so_address ob = a \<Longrightarrow> \<exists>f' g'. obj_jstep E a f' g' \<and>
      (\<forall>db. f (ob, db) = f' (ob, db)) \<and> g (abs_obj E ob) = g' (abs_obj E ob)"
  shows "obj_jstep E a f g"
  unfolding obj_jstep_def
proof (intro allI impI, goal_cases)
  case (1 ob db)
  with assms [of ob] obtain f' g' where o: "obj_jstep E a f' g'" "f (ob, db) = f' (ob, db)"
    "g (abs_obj E ob) = g' (abs_obj E ob)" by blast
  from o(1) [unfolded obj_jstep_def, rule_format, OF 1, of db] show ?case unfolding o(2,3) .
qed

lemma abs_balance: "aa_balance (abs_obj E ob) = acc_Balance (so_data ob)"
  by (simp add: abs_obj_def)

lemma obj_jstep_AddBalance:
  "obj_jstep E a (so_AddBalance E x) (\<lambda>ac. ac\<lparr>aa_balance := aa_balance ac + x\<rparr>)"
proof (rule obj_jstep_if)
  fix ob
  show "\<exists>f' g'. obj_jstep E a f' g' \<and> (\<forall>db. so_AddBalance E x (ob, db) = f' (ob, db)) \<and>
      (abs_obj E ob)\<lparr>aa_balance := aa_balance (abs_obj E ob) + x\<rparr> = g' (abs_obj E ob)"
  proof (cases "x = 0")
    case True
    then show ?thesis using obj_jstep_touch [of E a] obj_jstep_id [of E a]
      by (intro exI [of _ "if so_empty E ob then touch else (\<lambda>od. od)"] exI [of _ "\<lambda>ac. ac"])
         (simp del: touch.simps)
  next
    case False
    then show ?thesis using obj_jstep_SetBalance [of E a "acc_Balance (so_data ob) + x"]
      by (intro exI [of _ "so_SetBalance (acc_Balance (so_data ob) + x)"]
            exI [of _ "\<lambda>ac. ac\<lparr>aa_balance := acc_Balance (so_data ob) + x\<rparr>"])
         (simp add: abs_balance del: so_SetBalance.simps)
  qed
qed

lemma obj_jstep_SubBalance:
  "obj_jstep E a (so_SubBalance x) (\<lambda>ac. ac\<lparr>aa_balance := aa_balance ac - x\<rparr>)"
proof (rule obj_jstep_if)
  fix ob
  show "\<exists>f' g'. obj_jstep E a f' g' \<and> (\<forall>db. so_SubBalance x (ob, db) = f' (ob, db)) \<and>
      (abs_obj E ob)\<lparr>aa_balance := aa_balance (abs_obj E ob) - x\<rparr> = g' (abs_obj E ob)"
  proof (cases "x = 0")
    case True
    then show ?thesis using obj_jstep_id [of E a] by fastforce
  next
    case False
    then show ?thesis using obj_jstep_SetBalance [of E a "acc_Balance (so_data ob) - x"]
      by (intro exI [of _ "so_SetBalance (acc_Balance (so_data ob) - x)"]
            exI [of _ "\<lambda>ac. ac\<lparr>aa_balance := acc_Balance (so_data ob) - x\<rparr>"])
         (simp add: abs_balance del: so_SetBalance.simps)
  qed
qed

section \<open>Creating objects\<close>

lemma abs_account_none:
  assumes "db_inv E s" "live E s a = None" shows "sd_trie s a = None"
  using assms by (auto simp: live_def dest: db_invD split: option.splits if_splits)

lemma abs_fresh: "abs_obj E (newObject E a (zeroAccount E)) = fresh_account E a"
  by (simp add: fresh_account_def)

lemma fresh_sel [simp]:
  "aa_nonce (fresh_account E a) = 0" "aa_balance (fresh_account E a) = 0"
  "aa_codehash (fresh_account E a) = emptyCodeHash E" "aa_code (fresh_account E a) = []"
  "aa_suicided (fresh_account E a) = False"
  by (simp_all add: fresh_account_def abs_obj_def zeroAccount_def obj_code_eq newObject_def)

text \<open>The object \<open>createObject\<close> installs.\<close>

definition created :: "state_env \<Rightarrow> address \<Rightarrow> stateObject" where
  "created E a = (newObject E a (zeroAccount E))\<lparr>so_onDirty := False\<rparr>"

lemma created_sel [simp]:
  "so_address (created E a) = a" "so_addrHash (created E a) = keccak256 E (Address_Bytes a)"
  "so_deleted (created E a) = False" "abs_obj E (created E a) = fresh_account E a"
  by (simp_all add: created_def abs_fresh)

definition create_entry :: "state_env \<Rightarrow> address \<Rightarrow> StateDB \<Rightarrow> journalEntry" where
  "create_entry E a db =
     (case live E db a of None \<Rightarrow> CreateObjectChange a | Some p \<Rightarrow> ResetObjectChange p)"

lemma createObject_eq:
  "createObject E a s = ((created E a, live E s a),
     (load E a s)\<lparr>sd_stateObjects := (sd_stateObjects (load E a s))(a \<mapsto> created E a),
       sd_stateObjectsDirty := insert a (sd_stateObjectsDirty s),
       sd_journal := sd_journal s @ [create_entry E a s]\<rparr>)"
proof -
  have "(newObject E a (zeroAccount E))\<lparr>so_data := (so_data (newObject E a (zeroAccount E)))\<lparr>acc_Nonce := 0\<rparr>\<rparr>
     = newObject E a (zeroAccount E)" by (simp add: newObject_def zeroAccount_def)
  then show ?thesis
    by (simp add: createObject_def getStateObject_load setStateObject_def created_def
      MarkStateObjectDirty_def journal_append_def create_entry_def split: option.splits)
qed

lemma createObject_refines:
  assumes inv: "db_inv E s"
  shows "ext E s (snd (createObject E a s))"
    "abs_db E (snd (createObject E a s)) =
       (abs_db E s)\<lparr>as_accounts := (as_accounts (abs_db E s))(a \<mapsto> fresh_account E a)\<rparr>"
proof -
  let ?t = "snd (createObject E a s)"
  show abs: "abs_db E ?t =
       (abs_db E s)\<lparr>as_accounts := (as_accounts (abs_db E s))(a \<mapsto> fresh_account E a)\<rparr>"
    using inv by (simp add: createObject_eq abs_db_set)
  have "db_inv E ?t"
    using db_inv_set [of E "load E a s" "created E a" a "insert a (sd_stateObjectsDirty s)"] inv
    by (auto simp: createObject_eq)
  moreover have "entry_ok E (create_entry E a s)"
    using live_sel [OF inv] by (auto simp: create_entry_def entry_ok_def split: option.splits)
  moreover have "a_undo E (create_entry E a s) (abs_db E ?t) = Some (abs_db E s)"
    unfolding abs using abs_account_none [OF inv] live_sel [OF inv]
    by (auto simp: create_entry_def fun_upd_idem split: option.splits)
  ultimately show "ext E s ?t"
    by (intro ext_entry [where e = "create_entry E a s" and s = s]) (auto simp: createObject_eq)
qed

lemma GetOrNewStateObject_refines:
  assumes inv: "db_inv E s"
  shows "ext E s (snd (GetOrNewStateObject E a s))"
    "abs_db E (snd (GetOrNewStateObject E a s)) = a_new E a (abs_db E s)"
    "sd_stateObjects (snd (GetOrNewStateObject E a s)) a = Some (fst (GetOrNewStateObject E a s))"
    "\<not> so_deleted (fst (GetOrNewStateObject E a s))"
proof -
  note c = createObject_refines [OF load_inv [OF inv, of a], of a]
  have ext0: "ext E s (load E a s)" using inv by (simp add: ext_same same_log_def)
  have "ext E s (snd (GetOrNewStateObject E a s)) \<and>
    abs_db E (snd (GetOrNewStateObject E a s)) = a_new E a (abs_db E s) \<and>
    sd_stateObjects (snd (GetOrNewStateObject E a s)) a = Some (fst (GetOrNewStateObject E a s)) \<and>
    \<not> so_deleted (fst (GetOrNewStateObject E a s))"
  proof (cases "live E s a")
    case None
    then have g: "GetOrNewStateObject E a s =
        (fst (fst (createObject E a (load E a s))), snd (createObject E a (load E a s)))"
      by (simp add: GetOrNewStateObject_def getStateObject_load case_prod_unfold Let_def)
    show ?thesis unfolding g using ext_trans [OF ext0 c(1)] c(2) None inv
      by (simp add: a_new_def) (simp add: createObject_eq)
  next
    case (Some ob)
    then show ?thesis using ext0 inv live_sel(3) [OF inv Some] load_objects [OF Some]
      by (simp add: GetOrNewStateObject_def getStateObject_load a_new_def)
  qed
  then show "ext E s (snd (GetOrNewStateObject E a s))"
    "abs_db E (snd (GetOrNewStateObject E a s)) = a_new E a (abs_db E s)"
    "sd_stateObjects (snd (GetOrNewStateObject E a s)) a = Some (fst (GetOrNewStateObject E a s))"
    "\<not> so_deleted (fst (GetOrNewStateObject E a s))" by auto
qed

section \<open>Every operation refines its abstract operation\<close>

lemma jstep_refines:
  assumes step: "obj_jstep E a f g" and inv: "db_inv E s" and ob: "sd_stateObjects s a = Some ob"
    and del: "\<not> so_deleted ob" and f: "f (ob, s) = (ob', t)"
  shows "ext E s (setStateObject ob' t) \<and> abs_db E (setStateObject ob' t) = a_update a g (abs_db E s)"
proof -
  have live: "live E s a = Some ob" using ob del by (simp add: live_def)
  from step [unfolded obj_jstep_def, rule_format, of ob s] live_sel [OF inv live] f
  obtain D es where t: "t = s\<lparr>sd_journal := sd_journal s @ es, sd_stateObjectsDirty := D\<rparr>"
    and o: "D \<subseteq> insert a (sd_stateObjectsDirty s)" "so_address ob' = a"
      "so_addrHash ob' = keccak256 E (Address_Bytes a)" "\<not> so_deleted ob'"
      "abs_obj E ob' = g (abs_obj E ob)" "\<forall>e \<in> set es. entry_ok E e"
      "\<forall>A. as_accounts A a = Some (g (abs_obj E ob)) \<longrightarrow>
              a_undo_all E (rev es) A = Some (A\<lparr>as_accounts := (as_accounts A)(a \<mapsto> abs_obj E ob)\<rparr>)"
    by auto
  let ?u = "s\<lparr>sd_stateObjects := (sd_stateObjects s)(a \<mapsto> ob'), sd_stateObjectsDirty := D,
              sd_journal := sd_journal s @ es\<rparr>"
  have u: "setStateObject ob' t = ?u" using o by (simp add: t setStateObject_def)
  have abs: "abs_db E ?u = a_update a g (abs_db E s)"
    using o live by (simp add: abs_db_set a_update_def)
  have inv': "db_inv E ?u" using db_inv_set [OF inv o(2,3,4,1)] by simp
  have "a_undo_all E (rev es) (abs_db E ?u) = Some (abs_db E s)"
    using o(7) [rule_format, of "abs_db E ?u"] live unfolding abs by (simp add: a_update_def fun_upd_idem)
  then have "ext E s ?u" unfolding ext_def using inv' o(6)
    by (intro conjI exI [of _ es] exI [of _ "[]"]) simp_all
  with abs show ?thesis unfolding u by simp
qed

lemma on_object_refines:
  assumes "obj_jstep E a f g" shows "refines E (on_object E a f) (a_on E a g)"
  unfolding refines_def
proof (intro allI impI)
  fix s assume inv: "db_inv E s"
  note g = GetOrNewStateObject_refines [OF inv, of a]
  obtain ob' t where f: "f (fst (GetOrNewStateObject E a s), snd (GetOrNewStateObject E a s)) = (ob', t)"
    by fastforce
  have "on_object E a f s = setStateObject ob' t"
    using f by (simp add: on_object_def case_prod_unfold)
  with jstep_refines [OF assms ext_inv [OF g(1)] g(3,4) f] g(1,2) ext_trans
  show "ext E s (on_object E a f s) \<and> abs_db E (on_object E a f s) = a_on E a g (abs_db E s)"
    by (auto simp: a_on_def)
qed

named_theorems db_refines \<open>the abstract operation each database operation refines\<close>
named_theorems db_reads \<open>the abstract value each query reads\<close>

lemma AddBalance_refines [db_refines]:
  "refines E (AddBalance E a x) (a_on E a (\<lambda>ac. ac\<lparr>aa_balance := aa_balance ac + x\<rparr>))"
  unfolding AddBalance_def by (rule on_object_refines [OF obj_jstep_AddBalance])

lemma SubBalance_refines [db_refines]:
  "refines E (SubBalance E a x) (a_on E a (\<lambda>ac. ac\<lparr>aa_balance := aa_balance ac - x\<rparr>))"
  unfolding SubBalance_def by (rule on_object_refines [OF obj_jstep_SubBalance])

lemma SetBalance_refines [db_refines]:
  "refines E (SetBalance E a x) (a_on E a (\<lambda>ac. ac\<lparr>aa_balance := x\<rparr>))"
  unfolding SetBalance_def by (rule on_object_refines [OF obj_jstep_SetBalance])

lemma SetNonce_refines [db_refines]:
  "refines E (SetNonce E a n) (a_on E a (\<lambda>ac. ac\<lparr>aa_nonce := n\<rparr>))"
  unfolding SetNonce_def by (rule on_object_refines [OF obj_jstep_SetNonce])

lemma SetState_refines [db_refines]:
  "refines E (SetState E a k v) (a_on E a (\<lambda>ac. ac\<lparr>aa_storage := (aa_storage ac)(k := v)\<rparr>))"
  unfolding SetState_def by (rule on_object_refines [OF obj_jstep_SetState])

lemma SetCode_refines [db_refines]:
  "refines E (SetCode E a c) (a_on E a (\<lambda>ac. ac\<lparr>aa_codehash := keccak256 E c, aa_code := c\<rparr>))"
proof -
  have "code_of E a (if c = [] then None else Some c) (keccak256 E c) = c"
    by (simp add: code_of_def emptyCodeHash_def)
  with on_object_refines [OF obj_jstep_SetCode [of E a "keccak256 E c" "if c = [] then None else Some c"]]
  show ?thesis unfolding SetCode_def by simp
qed

lemma CreateAccount_refines [db_refines]: "refines E (CreateAccount E a) (a_create E a)"
  unfolding refines_def
proof (intro allI impI)
  fix s assume inv: "db_inv E s"
  note c = createObject_refines [OF inv, of a]
  show "ext E s (CreateAccount E a s) \<and> abs_db E (CreateAccount E a s) = a_create E a (abs_db E s)"
  proof (cases "live E s a")
    case None
    then have "CreateAccount E a s = snd (createObject E a s)"
      by (simp add: CreateAccount_def createObject_eq)
    with c None show ?thesis by (simp add: a_create_def)
  next
    case (Some p)
    let ?new = "(created E a)\<lparr>so_data := (so_data (created E a))\<lparr>acc_Balance := acc_Balance (so_data p)\<rparr>\<rparr>"
    let ?t = "(load E a s)\<lparr>sd_stateObjects := (sd_stateObjects (load E a s))(a \<mapsto> ?new),
       sd_stateObjectsDirty := insert a (sd_stateObjectsDirty s),
       sd_journal := sd_journal s @ [ResetObjectChange p]\<rparr>"
    have t: "CreateAccount E a s = ?t" using Some
      by (simp add: CreateAccount_def createObject_eq create_entry_def created_def setStateObject_def)
    have new: "abs_obj E ?new = (fresh_account E a)\<lparr>aa_balance := aa_balance (abs_obj E p)\<rparr>"
      by (simp add: fresh_account_def created_def newObject_def obj_views cong: option.case_cong)
    have abs: "abs_db E ?t = a_create E a (abs_db E s)"
      using inv Some new by (simp add: abs_db_set a_create_def)
    have "db_inv E ?t"
      using db_inv_set [of E "load E a s" ?new a "insert a (sd_stateObjectsDirty s)"] inv by auto
    moreover have "entry_ok E (ResetObjectChange p)"
      using live_sel [OF inv Some] by (simp add: entry_ok_def)
    moreover have "a_undo E (ResetObjectChange p) (abs_db E ?t) = Some (abs_db E s)"
      unfolding abs using live_sel [OF inv Some] Some by (simp add: a_create_def fun_upd_idem)
    ultimately have "ext E s ?t"
      by (intro ext_entry [where e = "ResetObjectChange p" and s = s]) auto
    with abs t show ?thesis by simp
  qed
qed

lemma AddRefund_refines [db_refines]:
  "refines E (AddRefund x) (\<lambda>A. A\<lparr>as_refund := as_refund A + x\<rparr>)"
  unfolding refines_def
proof (intro allI impI conjI)
  fix s assume inv: "db_inv E s"
  show abs: "abs_db E (AddRefund x s) = (abs_db E s)\<lparr>as_refund := as_refund (abs_db E s) + x\<rparr>"
    by (simp add: AddRefund_def journal_append_def abs_db_def)
  have "a_undo E (RefundChange (sd_refund s)) (abs_db E (AddRefund x s)) = Some (abs_db E s)"
    unfolding abs by (simp add: abs_db_def)
  then show "ext E s (AddRefund x s)"
    by (intro ext_entry [where e = "RefundChange (sd_refund s)"])
       (use inv in \<open>simp_all add: AddRefund_def journal_append_def entry_ok_def\<close>)
qed

lemma AddLog_refines [db_refines]: "refines E (AddLog l) (a_log l)"
  unfolding refines_def
proof (intro allI impI conjI)
  fix s assume inv: "db_inv E s"
  show abs: "abs_db E (AddLog l s) = a_log l (abs_db E s)"
    by (auto simp: AddLog_def journal_append_def abs_db_def a_log_def Let_def GetLogs_def fun_eq_iff)
  have "as_thash (abs_db E s) = sd_thash s" by (simp add: abs_db_def)
  then have "a_undo E (AddLogChange (sd_thash s)) (abs_db E (AddLog l s)) = Some (abs_db E s)"
    unfolding abs by (simp add: a_log_def fun_upd_idem)
  then show "ext E s (AddLog l s)"
    by (intro ext_entry [where e = "AddLogChange (sd_thash s)"])
       (use inv in \<open>simp_all add: AddLog_def journal_append_def entry_ok_def Let_def\<close>)
qed

lemma AddPreimage_refines [db_refines]:
  "refines E (AddPreimage h p)
     (\<lambda>A. if as_preimages A h = None then A\<lparr>as_preimages := (as_preimages A)(h \<mapsto> p)\<rparr> else A)"
  unfolding refines_def
proof (intro allI impI conjI)
  fix s assume inv: "db_inv E s"
  show abs: "abs_db E (AddPreimage h p s) = (if as_preimages (abs_db E s) h = None
      then (abs_db E s)\<lparr>as_preimages := (as_preimages (abs_db E s))(h \<mapsto> p)\<rparr> else abs_db E s)"
    by (simp add: AddPreimage_def journal_append_def abs_db_def GetLogs_def fun_eq_iff)
  show "ext E s (AddPreimage h p s)"
  proof (cases "sd_preimages s h = None")
    case True
    then have "a_undo E (AddPreimageChange h) (abs_db E (AddPreimage h p s)) = Some (abs_db E s)"
      unfolding abs by (simp add: abs_db_def fun_upd_idem)
    with True show ?thesis
      by (intro ext_entry [where e = "AddPreimageChange h"])
         (use inv in \<open>simp_all add: AddPreimage_def journal_append_def entry_ok_def\<close>)
  qed (use inv in \<open>auto simp: AddPreimage_def\<close>)
qed

lemma Suicide_refines:
  assumes inv: "db_inv E s"
  shows "ext E s (snd (Suicide E a s))"
    "abs_db E (snd (Suicide E a s)) =
       a_update a (\<lambda>ac. ac\<lparr>aa_suicided := True, aa_balance := 0\<rparr>) (abs_db E s)"
    "fst (Suicide E a s) \<longleftrightarrow> as_accounts (abs_db E s) a \<noteq> None"
proof -
  have "ext E s (snd (Suicide E a s)) \<and> abs_db E (snd (Suicide E a s)) =
       a_update a (\<lambda>ac. ac\<lparr>aa_suicided := True, aa_balance := 0\<rparr>) (abs_db E s) \<and>
    (fst (Suicide E a s) \<longleftrightarrow> as_accounts (abs_db E s) a \<noteq> None)"
  proof (cases "live E s a")
    case None
    then show ?thesis using inv
      by (simp add: Suicide_def getStateObject_load a_update_def ext_same same_log_def fun_upd_idem)
  next
    case (Some ob)
    note sel = live_sel [OF inv Some]
    have step: "obj_step E a (\<lambda>(ob, db). let (ob3, db3) = markSuicided (ob, db)
        in (ob3\<lparr>so_data := (so_data ob3)\<lparr>acc_Balance := 0\<rparr>\<rparr>, db3))
      (\<lambda>ac. ac\<lparr>aa_suicided := True, aa_balance := 0\<rparr>)"
      by (rule obj_step_fire [where h = "\<lambda>ob. ob\<lparr>so_suicided := True,
            so_data := (so_data ob)\<lparr>acc_Balance := 0\<rparr>\<rparr>"])
         (auto simp: obj_views cong: option.case_cong)
    let ?f = "\<lambda>(ob, db). let (ob3, db3) = markSuicided (ob, journal_append
          (SuicideChange a (so_suicided ob) (acc_Balance (so_data ob))) db)
        in (ob3\<lparr>so_data := (so_data ob3)\<lparr>acc_Balance := 0\<rparr>\<rparr>, db3)"
    have jstep: "obj_jstep E a ?f (\<lambda>ac. ac\<lparr>aa_suicided := True, aa_balance := 0\<rparr>)"
      by (rule obj_jstep_journal [OF step, where h = "\<lambda>ob. ob"
            and e = "\<lambda>ob. SuicideChange a (so_suicided ob) (acc_Balance (so_data ob))"])
         (auto simp: entry_ok_def a_update_def abs_obj_def simp del: markSuicided.simps)
    obtain ob' t where f: "?f (ob, load E a s) = (ob', t)" by fastforce
    have "Suicide E a s = (True, setStateObject ob' t)"
      using Some f by (auto simp: Suicide_def getStateObject_load Let_def simp del: markSuicided.simps
          split: prod.splits)
    moreover have "ext E s (load E a s)" using inv by (simp add: ext_same same_log_def)
    ultimately show ?thesis
      using jstep_refines [OF jstep load_inv [OF inv] load_objects [OF Some] sel(3) f] ext_trans inv Some
      by auto
  qed
  then show "ext E s (snd (Suicide E a s))" "abs_db E (snd (Suicide E a s)) =
       a_update a (\<lambda>ac. ac\<lparr>aa_suicided := True, aa_balance := 0\<rparr>) (abs_db E s)"
    "fst (Suicide E a s) \<longleftrightarrow> as_accounts (abs_db E s) a \<noteq> None" by auto
qed

section \<open>Queries\<close>

lemma load_reads:
  assumes "\<And>s. snd (f s) = load E a s" "\<And>s. db_inv E s \<Longrightarrow> fst (f s) = F (abs_db E s)"
  shows "reads E f F"
  using assms by (simp add: reads_def ext_same same_log_def)

lemma Exist_reads [db_reads]: "reads E (Exist E a) (\<lambda>A. as_accounts A a \<noteq> None)"
  by (rule load_reads) (auto simp: Exist_def getStateObject_load)

lemma Empty_reads [db_reads]: "reads E (Empty E a) (a_get a (account_empty E) True)"
  by (rule load_reads) (auto simp: Empty_def getStateObject_load a_get_def account_empty_def so_empty_def
      abs_obj_def split: option.splits)

lemma GetBalance_reads [db_reads]: "reads E (GetBalance E a) (a_get a aa_balance 0)"
  by (rule load_reads) (auto simp: GetBalance_def getStateObject_load a_get_def abs_obj_def split: option.splits)

lemma GetNonce_reads [db_reads]: "reads E (GetNonce E a) (a_get a aa_nonce 0)"
  by (rule load_reads) (auto simp: GetNonce_def getStateObject_load a_get_def abs_obj_def split: option.splits)

lemma GetCodeHash_reads [db_reads]: "reads E (GetCodeHash E a) (a_get a aa_codehash 0)"
  by (rule load_reads) (auto simp: GetCodeHash_def getStateObject_load a_get_def abs_obj_def split: option.splits)

lemma HasSuicided_reads [db_reads]: "reads E (HasSuicided E a) (a_get a aa_suicided False)"
  by (rule load_reads) (auto simp: HasSuicided_def getStateObject_load a_get_def abs_obj_def split: option.splits)

lemma GetCodeSize_extends:
  "db_inv E s \<Longrightarrow> ext E s (snd (GetCodeSize E a s)) \<and> abs_db E (snd (GetCodeSize E a s)) = abs_db E s"
  by (simp add: GetCodeSize_def getStateObject_load ext_same same_log_def)

lemma db_inv_obj:
  "db_inv E db \<Longrightarrow> so_address ob = a \<Longrightarrow> so_addrHash ob = keccak256 E (Address_Bytes a) \<Longrightarrow>
   \<not> so_deleted ob \<Longrightarrow> db_inv E (db\<lparr>sd_stateObjects := (sd_stateObjects db)(a \<mapsto> ob)\<rparr>)"
  by (auto simp: db_inv_def)

text \<open>A query that also fills a cache of the object.\<close>

lemma cached_reads:
  assumes eq: "\<And>s. f s = (case live E s a of
       None \<Rightarrow> (d, load E a s)
     | Some ob \<Rightarrow> (v ob, setStateObject (h ob) (load E a s)))"
    and h: "\<And>ob. so_address (h ob) = so_address ob \<and> so_addrHash (h ob) = so_addrHash ob \<and>
      so_deleted (h ob) = so_deleted ob \<and> abs_obj E (h ob) = abs_obj E ob"
    and v: "\<And>ob. so_addrHash ob = keccak256 E (Address_Bytes a) \<Longrightarrow> v ob = F (abs_obj E ob)"
  shows "reads E f (a_get a F d)"
  unfolding reads_def
proof (intro allI impI)
  fix s assume inv: "db_inv E s"
  show "fst (f s) = a_get a F d (abs_db E s) \<and> ext E s (snd (f s)) \<and> abs_db E (snd (f s)) = abs_db E s"
  proof (cases "live E s a")
    case None
    with inv show ?thesis by (simp add: eq a_get_def ext_same same_log_def)
  next
    case (Some ob)
    note sel = live_sel [OF inv Some]
    have "abs_db E (setStateObject (h ob) (load E a s)) = abs_db E s"
      using h [of ob] sel inv Some by (simp add: setStateObject_def abs_db_set)
    moreover have "db_inv E (setStateObject (h ob) (load E a s))"
      using h [of ob] sel inv by (simp add: setStateObject_def db_inv_obj)
    ultimately show ?thesis using Some v [OF sel(2)]
      by (auto simp: eq a_get_def setStateObject_def intro!: ext_same simp: same_log_def)
  qed
qed

lemma GetState_reads [db_reads]: "reads E (GetState E a k) (a_get a (\<lambda>ac. aa_storage ac k) 0)"
  by (rule cached_reads [where h = "\<lambda>ob. snd (so_GetState E k ob)" and v = "\<lambda>ob. fst (so_GetState E k ob)"])
     (auto simp: GetState_def getStateObject_load case_prod_unfold so_GetState_value abs_obj_def [of E ob for ob]
       Let_def split: option.splits)

lemma GetCode_reads [db_reads]: "reads E (GetCode E a) (a_get a aa_code [])"
  by (rule cached_reads [where h = "\<lambda>ob. snd (so_Code E ob)" and v = "\<lambda>ob. code_bytes (fst (so_Code E ob))"])
     (auto simp: GetCode_def getStateObject_load case_prod_unfold obj_code_def abs_obj_def [of E ob for ob]
       Let_def split: option.splits)

section \<open>Snapshots\<close>

lemma Snapshot_extends:
  assumes "db_inv E s"
  shows "ext E s (snd (Snapshot s))" "abs_db E (snd (Snapshot s)) = abs_db E s"
proof -
  show abs: "abs_db E (snd (Snapshot s)) = abs_db E s" by (simp add: Snapshot_def)
  have "db_inv E (snd (Snapshot s))"
    using assms by (auto simp: db_inv_def Snapshot_def less_Suc_eq)
  with abs show "ext E s (snd (Snapshot s))" by (auto simp: ext_def Snapshot_def)
qed

text \<open>The contract of a snapshot: after any revertible extension, reverting to it succeeds,
  restores the observable state and the log, and is itself a revertible extension of the state
  before the snapshot.\<close>

lemma RevertToSnapshot_restores:
  assumes inv: "db_inv E s" and sn: "Snapshot s = (i, s1)" and e: "ext E s1 t"
  obtains u where "RevertToSnapshot E i t = Some u" "abs_db E u = abs_db E s" "ext E s u"
    "sd_journal u = sd_journal s" "sd_validRevisions u = sd_validRevisions s"
proof -
  let ?n = "length (sd_validRevisions s)"
  from sn have i: "i = sd_nextRevisionId s" and s1: "s1 = snd (Snapshot s)" by (auto simp: Snapshot_def)
  from e obtain es rs where
    es: "sd_journal t = sd_journal s @ es" "\<forall>e \<in> set es. entry_ok E e"
      "a_undo_all E (rev es) (abs_db E t) = Some (abs_db E s)" and
    rs: "sd_validRevisions t = sd_validRevisions s @ (i, length (sd_journal s)) # rs"
      "\<forall>r \<in> set rs. i < fst r" and
    t: "db_inv E t" "i < sd_nextRevisionId t"
    unfolding ext_def s1 i by (auto simp: Snapshot_def Suc_le_eq)
  have old: "fst (sd_validRevisions s ! k) < i" if "k < ?n" for k
    using that inv nth_mem unfolding i db_inv_def by blast
  have new: "i \<le> fst (sd_validRevisions t ! k)" if "?n \<le> k" "k < length (sd_validRevisions t)" for k
  proof (cases "k = ?n")
    case False
    with that have "sd_validRevisions t ! k \<in> set rs" unfolding rs(1)
      by (auto simp: nth_append nth_Cons' intro!: nth_mem)
    with rs(2) show ?thesis by fastforce
  qed (simp add: rs(1))
  have idx: "sort_Search (length (sd_validRevisions t)) (\<lambda>k. i \<le> fst (sd_validRevisions t ! k)) = ?n"
    by (rule sort_Search_least) (use old new in \<open>auto simp: rs(1) nth_append not_le\<close>)
  obtain v where v: "undo_all E (rev es) t = Some v" "abs_db E v = abs_db E s" "db_inv E v"
    using jl.undos_refine [OF t(1), of "rev es"] es by auto
  have same: "same_log t v" using undo_all_same_log [OF t(1) _ v(1)] es(2) by simp
  let ?u = "v\<lparr>sd_journal := sd_journal s, sd_validRevisions := sd_validRevisions s\<rparr>"
  have nth: "(sd_validRevisions s @ (i, length (sd_journal s)) # rs) ! ?n = (i, length (sd_journal s))"
    by simp
  have r: "RevertToSnapshot E i t = Some ?u"
    using same unfolding RevertToSnapshot_def Let_def idx unfolding rs(1) nth
    by (simp add: es(1) v(1) same_log_def)
  have "db_inv E ?u" using v(3) inv t(2) same i
    by (fastforce simp: db_inv_def same_log_def)
  moreover have "sd_nextRevisionId s \<le> sd_nextRevisionId ?u" using t(2) same i by (simp add: same_log_def)
  ultimately have "ext E s ?u" using v(2) by (auto simp: ext_def)
  with r v(2) show ?thesis by (intro that [of ?u]) auto
qed

section \<open>Sequences of operations\<close>

text \<open>The operations a client runs against the database, with snapshots taken and reverted in
  between (\<open>Nested\<close> is what a failing inner call does).\<close>

datatype db_op =
    OpAddBalance address bigint
  | OpSubBalance address bigint
  | OpSetBalance address bigint
  | OpSetNonce address u64
  | OpSetCode address bytes
  | OpSetState address hash hash
  | OpCreateAccount address
  | OpSuicide address
  | OpAddRefund bigint
  | OpAddLog Log
  | OpAddPreimage hash bytes
  | OpGetState address hash
  | OpGetCode address
  | OpGetBalance address
  | OpSnapshot
  | Nested "db_op list"

fun do_op :: "state_env \<Rightarrow> db_op \<Rightarrow> StateDB \<Rightarrow> StateDB option"
and do_ops :: "state_env \<Rightarrow> db_op list \<Rightarrow> StateDB \<Rightarrow> StateDB option" where
  "do_op E (OpAddBalance a x) s = Some (AddBalance E a x s)"
| "do_op E (OpSubBalance a x) s = Some (SubBalance E a x s)"
| "do_op E (OpSetBalance a x) s = Some (SetBalance E a x s)"
| "do_op E (OpSetNonce a n) s = Some (SetNonce E a n s)"
| "do_op E (OpSetCode a c) s = Some (SetCode E a c s)"
| "do_op E (OpSetState a k v) s = Some (SetState E a k v s)"
| "do_op E (OpCreateAccount a) s = Some (CreateAccount E a s)"
| "do_op E (OpSuicide a) s = Some (snd (Suicide E a s))"
| "do_op E (OpAddRefund x) s = Some (AddRefund x s)"
| "do_op E (OpAddLog l) s = Some (AddLog l s)"
| "do_op E (OpAddPreimage h p) s = Some (AddPreimage h p s)"
| "do_op E (OpGetState a k) s = Some (snd (GetState E a k s))"
| "do_op E (OpGetCode a) s = Some (snd (GetCode E a s))"
| "do_op E (OpGetBalance a) s = Some (snd (GetBalance E a s))"
| "do_op E OpSnapshot s = Some (snd (Snapshot s))"
| "do_op E (Nested ops) s =
     (case do_ops E ops (snd (Snapshot s)) of
        None \<Rightarrow> None
      | Some t \<Rightarrow> RevertToSnapshot E (fst (Snapshot s)) t)"
| "do_ops E [] s = Some s"
| "do_ops E (o1 # ops) s = (case do_op E o1 s of None \<Rightarrow> None | Some t \<Rightarrow> do_ops E ops t)"

lemma refinesD: "refines E f F \<Longrightarrow> db_inv E s \<Longrightarrow> ext E s (f s)"
  by (simp add: refines_def)

lemma readsD: "reads E f F \<Longrightarrow> db_inv E s \<Longrightarrow> ext E s (snd (f s))"
  by (simp add: reads_def)

lemma do_ops_extends:
  "db_inv E s \<Longrightarrow> \<exists>t. do_op E op s = Some t \<and> ext E s t"
  "db_inv E s \<Longrightarrow> \<exists>t. do_ops E ops s = Some t \<and> ext E s t"
proof (induction E op s and E ops s rule: do_op_do_ops.induct)
  case (16 E ops s)
  then obtain t where t: "do_ops E ops (snd (Snapshot s)) = Some t" "ext E (snd (Snapshot s)) t"
    using Snapshot_extends(1) by blast
  have sn: "Snapshot s = (fst (Snapshot s), snd (Snapshot s))" by simp
  from RevertToSnapshot_restores [OF 16(2) sn t(2)] t(1) show ?case by auto
next
  case (18 E o1 ops s)
  then obtain t where t: "do_op E o1 s = Some t" "ext E s t" by blast
  with 18(2) [OF t(1)] ext_trans show ?case by fastforce
qed (auto intro: refinesD [OF AddBalance_refines] refinesD [OF SubBalance_refines]
  refinesD [OF SetBalance_refines] refinesD [OF SetNonce_refines] refinesD [OF SetCode_refines]
  refinesD [OF SetState_refines] refinesD [OF CreateAccount_refines] Suicide_refines(1)
  refinesD [OF AddRefund_refines] refinesD [OF AddLog_refines] refinesD [OF AddPreimage_refines]
  readsD [OF GetState_reads] readsD [OF GetCode_reads] readsD [OF GetBalance_reads] Snapshot_extends(1))

lemma new_StateDB_inv [simp]: "db_inv E (new_StateDB tr)"
  by (simp add: db_inv_def new_StateDB_def)

end
