(* ===== verification/Evm_Base.thy ===== *)
theory Evm_Base
  imports State_Db
begin

text \<open>
  The data the virtual machine works on: \<open>hvm/evm\<close> (errors.go, stack.go, memory.go, common.go,
  gas.go, analysis.go, stack\_table.go, memory\_table.go, contract.go) and the gas constants of
  \<open>config\<close>.

  The operand stack is a list whose head is the top, so \<open>Back(n)\<close> is \<open>st ! n\<close>.  Go panics
  (index out of range, nil dereference, failed type assertion) are values of \<open>outcome\<close>.  A slice
  expression beyond the length of the slice is counted as a panic even where Go would still find
  capacity; the theorems show that it does not happen.
\<close>

unbundle bit_operations_syntax

section \<open>Outcomes and errors\<close>

datatype panic =
    StackIndex | MemoryIndex | SliceBounds | NilPointer | TypeAssertion | JumpdestIndex
  | InvalidRevision

datatype 'a outcome = Panic panic | OutOfFuel | Ok 'a

primrec obind :: "'a outcome \<Rightarrow> ('a \<Rightarrow> 'b outcome) \<Rightarrow> 'b outcome" where
  "obind (Panic p) f = Panic p"
| "obind OutOfFuel f = OutOfFuel"
| "obind (Ok x) f = f x"

definition of_option :: "panic \<Rightarrow> 'a option \<Rightarrow> 'a outcome" where
  "of_option p x = (case x of None \<Rightarrow> Panic p | Some v \<Rightarrow> Ok v)"

datatype vm_error =
    ErrOutOfGas | ErrCodeStoreOutOfGas | ErrDepth | ErrTraceLimitReached
  | ErrInsufficientBalance | ErrContractAddressCollision
  | ErrGasUintOverflow | ErrWriteProtection | ErrReturnDataOutOfBounds | ErrExecutionReverted
  | ErrMaxCodeSizeExceeded | ErrStackUnderflow | ErrStackLimit | ErrInvalidOpcode byte
  | ErrInvalidJump | ErrNotOnCurve | ErrInvalidCurvePoint | ErrBadPairingInput

section \<open>Gas constants\<close>

record GasTable =
  gt_ExtcodeSize :: u64
  gt_ExtcodeCopy :: u64
  gt_Balance :: u64
  gt_SLoad :: u64
  gt_Calls :: u64
  gt_Suicide :: u64
  gt_ExpByte :: u64
  gt_CreateBySuicide :: u64

definition GasTableEIP158 :: GasTable where
  "GasTableEIP158 =
     \<lparr>gt_ExtcodeSize = 700, gt_ExtcodeCopy = 700, gt_Balance = 400, gt_SLoad = 200,
      gt_Calls = 700, gt_Suicide = 5000, gt_ExpByte = 50, gt_CreateBySuicide = 25000\<rparr>"

abbreviation "GasQuickStep \<equiv> (2 :: u64)"
abbreviation "GasFastestStep \<equiv> (3 :: u64)"
abbreviation "GasFastStep \<equiv> (5 :: u64)"
abbreviation "GasMidStep \<equiv> (8 :: u64)"
abbreviation "GasSlowStep \<equiv> (10 :: u64)"
abbreviation "GasExtStep \<equiv> (20 :: u64)"
abbreviation "CallValueTransferGas \<equiv> (9000 :: u64)"
abbreviation "CallNewAccountGas \<equiv> (25000 :: u64)"
abbreviation "QuadCoeffDiv \<equiv> (512 :: u64)"
abbreviation "SstoreSetGas \<equiv> (20000 :: u64)"
abbreviation "LogDataGas \<equiv> (8 :: u64)"
abbreviation "CallStipend \<equiv> (2300 :: u64)"
abbreviation "Sha3Gas \<equiv> (30 :: u64)"
abbreviation "Sha3WordGas \<equiv> (6 :: u64)"
abbreviation "SstoreResetGas \<equiv> (5000 :: u64)"
abbreviation "SstoreClearGas \<equiv> (5000 :: u64)"
abbreviation "SstoreRefundGas \<equiv> (15000 :: u64)"
abbreviation "JumpdestGas \<equiv> (1 :: u64)"
abbreviation "CreateDataGas \<equiv> (200 :: u64)"
abbreviation "CallCreateDepth \<equiv> (1024 :: nat)"
abbreviation "LogGas \<equiv> (375 :: u64)"
abbreviation "CopyGas \<equiv> (3 :: u64)"
abbreviation "StackLimit \<equiv> (1024 :: nat)"
abbreviation "LogTopicGas \<equiv> (375 :: u64)"
abbreviation "CreateGas \<equiv> (32000 :: u64)"
abbreviation "SuicideRefundGas \<equiv> (24000 :: u64)"
abbreviation "MemoryGas \<equiv> (3 :: u64)"
abbreviation "MaxCodeSize \<equiv> (24576 :: nat)"

section \<open>common.go and gas.go\<close>

definition calcMemSize :: "bigint \<Rightarrow> bigint \<Rightarrow> bigint" where
  "calcMemSize off l = (if l = 0 then 0 else off + l)"

text \<open>A Go \<open>int\<close> made from a \<open>uint64\<close>, as the length of a slice to allocate.\<close>

definition alloc_len :: "u64 \<Rightarrow> nat" where
  "alloc_len w = nat (sint w)"

definition getData :: "bytes \<Rightarrow> u64 \<Rightarrow> u64 \<Rightarrow> bytes outcome" where
  "getData data start sz =
     (let len = of_nat (length data);
          start' = (if start > len then len else start);
          end0 = start' + sz;
          end1 = (if end0 > len then len else end0)
      in if end1 < start' then Panic SliceBounds
         else Ok (RightPadBytes (subslice data (unat start') (unat end1)) (alloc_len sz)))"

definition getDataBig :: "bytes \<Rightarrow> bigint \<Rightarrow> bigint \<Rightarrow> bytes" where
  "getDataBig data start sz =
     (let dlen = int (length data);
          s = BigMin start dlen;
          e = BigMin (s + sz) dlen
      in RightPadBytes (subslice data (unat (big_Uint64 s)) (unat (big_Uint64 e)))
           (alloc_len (big_Uint64 sz)))"

definition bigUint64 :: "bigint \<Rightarrow> u64 \<times> bool" where
  "bigUint64 v = (big_Uint64 v, BitLen v > 64)"

definition toWordSize :: "u64 \<Rightarrow> u64" where
  "toWordSize sz =
     (if sz > MaxUint64 - 31 then MaxUint64 div 32 + 1 else (sz + 31) div 32)"

definition allZero :: "bytes \<Rightarrow> bool" where
  "allZero b = list_all (\<lambda>x. x = 0) b"

definition callGas :: "GasTable \<Rightarrow> u64 \<Rightarrow> u64 \<Rightarrow> bigint \<Rightarrow> vm_error + u64" where
  "callGas gasTable availableGas base callCost =
     (let availableGas' = availableGas - base;
          gas = availableGas' - availableGas' div 64
      in if gt_CreateBySuicide gasTable > 0 \<and> (BitLen callCost > 64 \<or> gas < big_Uint64 callCost)
         then Inr gas
         else if BitLen callCost > 64 then Inl ErrGasUintOverflow
         else Inr (big_Uint64 callCost))"

section \<open>memory.go\<close>

record Memory =
  m_store :: bytes
  m_lastGasCost :: u64

definition NewMemory :: Memory where
  "NewMemory = \<lparr>m_store = [], m_lastGasCost = 0\<rparr>"

definition Memory_Set :: "u64 \<Rightarrow> u64 \<Rightarrow> bytes \<Rightarrow> Memory \<Rightarrow> Memory outcome" where
  "Memory_Set offset sz v m =
     (if unat sz > length (m_store m) then Panic MemoryIndex
      else if sz > 0 then
        (let hi = offset + sz in
         if hi < offset \<or> unat hi > length (m_store m) then Panic SliceBounds
         else Ok (m\<lparr>m_store := slice_copy (m_store m) (unat offset) (unat sz) v\<rparr>))
      else Ok m)"

definition Memory_Resize :: "nat \<Rightarrow> Memory \<Rightarrow> Memory" where
  "Memory_Resize sz m =
     (if length (m_store m) < sz
      then m\<lparr>m_store := m_store m @ replicate (sz - length (m_store m)) 0\<rparr> else m)"

text \<open>\<open>offset\<close> and \<open>size\<close> are \<open>int64\<close>: their words are read signed.\<close>

definition Memory_Get :: "u64 \<Rightarrow> u64 \<Rightarrow> Memory \<Rightarrow> bytes outcome" where
  "Memory_Get offset sz m =
     (if sz = 0 then Ok []
      else if int (length (m_store m)) > sint offset then
        (let hi = offset + sz in
         if sint offset < 0 \<or> sint sz < 0 \<or> sint hi < sint offset \<or>
            sint hi > int (length (m_store m))
         then Panic SliceBounds
         else Ok (subslice (m_store m) (nat (sint offset)) (nat (sint hi))))
      else Ok [])"

definition Memory_GetPtr :: "u64 \<Rightarrow> u64 \<Rightarrow> Memory \<Rightarrow> bytes outcome" where
  "Memory_GetPtr offset sz m =
     (if sz = 0 then Ok []
      else if int (length (m_store m)) > sint offset then
        (let hi = offset + sz in
         if sint offset < 0 \<or> sint hi < sint offset \<or> sint hi > int (length (m_store m))
         then Panic SliceBounds
         else Ok (subslice (m_store m) (nat (sint offset)) (nat (sint hi))))
      else Ok [])"

section \<open>analysis.go\<close>

abbreviation "OP_JUMPDEST \<equiv> (0x5b :: byte)"
abbreviation "OP_PUSH1 \<equiv> (0x60 :: byte)"
abbreviation "OP_PUSH32 \<equiv> (0x7f :: byte)"

type_synonym destinations = "hash \<rightharpoonup> bytes"

function jumpdest_loop :: "bytes \<Rightarrow> nat \<Rightarrow> bytes \<Rightarrow> bytes" where
  "jumpdest_loop code pc m =
     (if pc < length code then
        (let op = code ! pc in
         if op = OP_JUMPDEST
         then jumpdest_loop code (pc + 1)
                (m[pc div 8 := m ! (pc div 8) OR push_bit (pc mod 8) 1])
         else if OP_PUSH1 \<le> op \<and> op \<le> OP_PUSH32
         then jumpdest_loop code (pc + (unat op - unat OP_PUSH1 + 1) + 1) m
         else jumpdest_loop code (pc + 1) m)
      else m)"
  by pat_completeness auto
termination
  by (relation "measure (\<lambda>(code, pc, m). length code - pc)") auto

declare jumpdest_loop.simps [simp del]

definition jumpdests :: "bytes \<Rightarrow> bytes" where
  "jumpdests code = jumpdest_loop code 0 (replicate (length code div 8 + 1) 0)"

definition destinations_has ::
    "destinations \<Rightarrow> hash \<Rightarrow> bytes \<Rightarrow> bigint \<Rightarrow> (bool \<times> destinations) outcome" where
  "destinations_has d codehash code dest =
     (let udest = big_Uint64 dest in
      if BitLen dest \<ge> 63 \<or> udest \<ge> of_nat (length code) then Ok (False, d)
      else
        (let (m, d') = (case d codehash of
                          Some m \<Rightarrow> (m, d)
                        | None \<Rightarrow> (jumpdests code, d(codehash \<mapsto> jumpdests code)));
             i = unat udest div 8
         in if i < length m
            then Ok (m ! i AND push_bit (unat udest mod 8) 1 \<noteq> 0, d')
            else Panic JumpdestIndex))"

section \<open>contract.go\<close>

record Contract =
  c_CallerAddress :: address
  c_self :: address
  c_Code :: bytes
  c_CodeHash :: hash
  c_CodeAddr :: "address option"
  c_Input :: bytes
  c_Gas :: u64
  c_value :: bigint
  c_DelegateCall :: bool

datatype ContractRef = AccountRef address | ContractOf Contract

fun ref_Address :: "ContractRef \<Rightarrow> address" where
  "ref_Address (AccountRef a) = a"
| "ref_Address (ContractOf c) = c_self c"

text \<open>A nil \<open>value\<close> (\<open>DelegateCall\<close>) is replaced by \<open>AsDelegate\<close> before it is read; the model
  passes 0 for it.  The \<open>jumpdests\<close> map of a contract is shared with its caller's, so it is a
  field of the machine (\<open>evm_jumpdests\<close> below) that \<open>NewContract\<close> resets for an outermost caller.\<close>

definition NewContract :: "ContractRef \<Rightarrow> address \<Rightarrow> bigint \<Rightarrow> u64 \<Rightarrow> Contract" where
  "NewContract caller object v gas =
     \<lparr>c_CallerAddress = ref_Address caller, c_self = object, c_Code = [], c_CodeHash = 0,
      c_CodeAddr = None, c_Input = [], c_Gas = gas, c_value = v, c_DelegateCall = False\<rparr>"

definition NewContract_jumpdests :: "ContractRef \<Rightarrow> destinations \<Rightarrow> destinations" where
  "NewContract_jumpdests caller d =
     (case caller of ContractOf parent \<Rightarrow> d | AccountRef a \<Rightarrow> Map.empty)"

definition AsDelegate :: "ContractRef \<Rightarrow> Contract \<Rightarrow> Contract outcome" where
  "AsDelegate caller c =
     (case caller of
        ContractOf parent \<Rightarrow>
          Ok (c\<lparr>c_DelegateCall := True, c_CallerAddress := c_CallerAddress parent,
                c_value := c_value parent\<rparr>)
      | AccountRef a \<Rightarrow> Panic TypeAssertion)"

definition GetByte :: "Contract \<Rightarrow> u64 \<Rightarrow> byte" where
  "GetByte c n = (if n < of_nat (length (c_Code c)) then c_Code c ! unat n else 0)"

definition GetOp :: "Contract \<Rightarrow> u64 \<Rightarrow> byte" where
  "GetOp c n = GetByte c n"

definition UseGas :: "u64 \<Rightarrow> Contract \<Rightarrow> bool \<times> Contract" where
  "UseGas gas c = (if c_Gas c < gas then (False, c) else (True, c\<lparr>c_Gas := c_Gas c - gas\<rparr>))"

definition SetCallCode :: "address \<Rightarrow> hash \<Rightarrow> bytes \<Rightarrow> Contract \<Rightarrow> Contract" where
  "SetCallCode a h code c = c\<lparr>c_Code := code, c_CodeHash := h, c_CodeAddr := Some a\<rparr>"

section \<open>stack.go, stack\_table.go and memory\_table.go\<close>

type_synonym stack = "bigint list"

definition Back :: "nat \<Rightarrow> stack \<Rightarrow> bigint outcome" where
  "Back n st = (if n < length st then Ok (st ! n) else Panic StackIndex)"

definition stack_require :: "nat \<Rightarrow> stack \<Rightarrow> vm_error option" where
  "stack_require n st = (if length st < n then Some ErrStackUnderflow else None)"

definition makeStackFunc :: "nat \<Rightarrow> nat \<Rightarrow> stack \<Rightarrow> vm_error option" where
  "makeStackFunc pop push st =
     (case stack_require pop st of
        Some err \<Rightarrow> Some err
      | None \<Rightarrow>
          if int (length st) + int push - int pop > int StackLimit then Some ErrStackLimit else None)"

definition makeDupStackFunc :: "nat \<Rightarrow> stack \<Rightarrow> vm_error option" where
  "makeDupStackFunc n = makeStackFunc n (n + 1)"

definition makeSwapStackFunc :: "nat \<Rightarrow> stack \<Rightarrow> vm_error option" where
  "makeSwapStackFunc n = makeStackFunc n n"

text \<open>\<open>calcMemSize\<close> of two stack items.\<close>

definition mem_size2 :: "nat \<Rightarrow> nat \<Rightarrow> stack \<Rightarrow> bigint outcome" where
  "mem_size2 i j st = obind (Back i st) (\<lambda>off. obind (Back j st) (\<lambda>l. Ok (calcMemSize off l)))"

definition mem_size_const :: "nat \<Rightarrow> bigint \<Rightarrow> stack \<Rightarrow> bigint outcome" where
  "mem_size_const i l st = obind (Back i st) (\<lambda>off. Ok (calcMemSize off l))"

definition mem_size_max :: "bigint outcome \<Rightarrow> bigint outcome \<Rightarrow> bigint outcome" where
  "mem_size_max mx my = obind mx (\<lambda>x. obind my (\<lambda>y. Ok (BigMax x y)))"

definition memorySha3 :: "stack \<Rightarrow> bigint outcome" where
  "memorySha3 st = mem_size2 0 1 st"
definition memoryCallDataCopy :: "stack \<Rightarrow> bigint outcome" where
  "memoryCallDataCopy st = mem_size2 0 2 st"
definition memoryReturnDataCopy :: "stack \<Rightarrow> bigint outcome" where
  "memoryReturnDataCopy st = mem_size2 0 2 st"
definition memoryCodeCopy :: "stack \<Rightarrow> bigint outcome" where
  "memoryCodeCopy st = mem_size2 0 2 st"
definition memoryExtCodeCopy :: "stack \<Rightarrow> bigint outcome" where
  "memoryExtCodeCopy st = mem_size2 1 3 st"
definition memoryMLoad :: "stack \<Rightarrow> bigint outcome" where
  "memoryMLoad st = mem_size_const 0 32 st"
definition memoryMStore8 :: "stack \<Rightarrow> bigint outcome" where
  "memoryMStore8 st = mem_size_const 0 1 st"
definition memoryMStore :: "stack \<Rightarrow> bigint outcome" where
  "memoryMStore st = mem_size_const 0 32 st"
definition memoryCreate :: "stack \<Rightarrow> bigint outcome" where
  "memoryCreate st = mem_size2 1 2 st"
definition memoryCall :: "stack \<Rightarrow> bigint outcome" where
  "memoryCall st = mem_size_max (mem_size2 5 6 st) (mem_size2 3 4 st)"
definition memoryCallCode :: "stack \<Rightarrow> bigint outcome" where
  "memoryCallCode st = mem_size_max (mem_size2 5 6 st) (mem_size2 3 4 st)"
definition memoryDelegateCall :: "stack \<Rightarrow> bigint outcome" where
  "memoryDelegateCall st = mem_size_max (mem_size2 4 5 st) (mem_size2 2 3 st)"
definition memoryStaticCall :: "stack \<Rightarrow> bigint outcome" where
  "memoryStaticCall st = mem_size_max (mem_size2 4 5 st) (mem_size2 2 3 st)"
definition memoryReturn :: "stack \<Rightarrow> bigint outcome" where
  "memoryReturn st = mem_size2 0 1 st"
definition memoryRevert :: "stack \<Rightarrow> bigint outcome" where
  "memoryRevert st = mem_size2 0 1 st"
definition memoryLog :: "stack \<Rightarrow> bigint outcome" where
  "memoryLog st = mem_size2 0 1 st"

section \<open>The machine\<close>

text \<open>
  What stays fixed while a message is executed: the block and message context, the interpreter
  configuration, and the functions of code outside the model (hashes and curve operations).
  A point of a curve is represented by its marshalled form; \<open>bn_unmarshal1\<close> is
  \<open>bn256.G1.Unmarshal\<close> together with \<open>CurvePoints\<close>.
\<close>

record evm_env =
  ee_state :: state_env
  ee_Origin :: address
  ee_GasPrice :: bigint
  ee_Coinbase :: address
  ee_GasLimit :: bigint
  ee_BlockNumber :: bigint
  ee_Time :: bigint
  ee_Difficulty :: bigint
  ee_GetHash :: "u64 \<Rightarrow> hash"
  ee_NoRecursion :: bool
  ee_DisableGasMetering :: bool
  ee_EnablePreimageRecording :: bool
  ee_sha256 :: "bytes \<Rightarrow> bytes"
  ee_ripemd160 :: "bytes \<Rightarrow> bytes"
  ee_Ecrecover :: "bytes \<Rightarrow> bytes \<Rightarrow> bytes option"
  ee_bn_unmarshal1 :: "bytes \<Rightarrow> (bigint \<times> bigint) option"
  ee_bn_unmarshal2 :: "bytes \<Rightarrow> ((bigint \<times> bigint) \<times> (bigint \<times> bigint)) option"
  ee_bn_P :: bigint
  ee_bn_add :: "bigint \<times> bigint \<Rightarrow> bigint \<times> bigint \<Rightarrow> bytes"
  ee_bn_mul :: "bigint \<times> bigint \<Rightarrow> bigint \<Rightarrow> bytes"
  ee_bn_pairing ::
    "(bigint \<times> bigint) list \<Rightarrow> ((bigint \<times> bigint) \<times> (bigint \<times> bigint)) list \<Rightarrow> bool"

text \<open>
  What changes: the state database, the call depth, the read-only flag and return data of the
  interpreter, the analysed jump destinations, and the \<open>abort\<close> flag.  \<open>Cancel\<close> may set the flag
  from another goroutine at any time: \<open>evm_abort = Some n\<close> says that the flag is seen set after
  \<open>n\<close> more loads, \<open>None\<close> that it is never set.
\<close>

record evm =
  evm_StateDB :: StateDB
  evm_depth :: nat
  evm_readOnly :: bool
  evm_returnData :: bytes
  evm_jumpdests :: destinations
  evm_abort :: "nat option"

record frame =
  f_pc :: u64
  f_stack :: stack
  f_mem :: Memory
  f_contract :: Contract

end
