(* ===== verification/Evm_Gas.thy ===== *)
theory Evm_Gas
  imports Evm_Base
begin

text \<open>
  The gas functions of \<open>hvm/evm/gas\_table.go\<close>.  A gas function may change the machine (the gas of
  \<open>SSTORE\<close> and \<open>SELFDESTRUCT\<close> adds to the refund counter, state queries load objects), the memory's
  record of its last cost, and the top of the stack (the gas passed to a call).
\<close>

type_synonym gasres = "(evm \<times> frame \<times> (vm_error + u64)) outcome"
type_synonym gasFunc = "GasTable \<Rightarrow> evm_env \<Rightarrow> evm \<Rightarrow> frame \<Rightarrow> u64 \<Rightarrow> gasres"

section \<open>Checked arithmetic\<close>

fun ebind :: "'e + 'a \<Rightarrow> ('a \<Rightarrow> 'e + 'b) \<Rightarrow> 'e + 'b" where
  "ebind (Inl e) f = Inl e"
| "ebind (Inr x) f = f x"

definition safe_add :: "u64 \<Rightarrow> u64 \<Rightarrow> vm_error + u64" where
  "safe_add x y = (if snd (SafeAdd x y) then Inl ErrGasUintOverflow else Inr (fst (SafeAdd x y)))"

definition safe_mul :: "u64 \<Rightarrow> u64 \<Rightarrow> vm_error + u64" where
  "safe_mul x y = (if snd (SafeMul x y) then Inl ErrGasUintOverflow else Inr (fst (SafeMul x y)))"

definition safe_big :: "bigint \<Rightarrow> vm_error + u64" where
  "safe_big v = (if snd (bigUint64 v) then Inl ErrGasUintOverflow else Inr (fst (bigUint64 v)))"

section \<open>Memory expansion\<close>

definition memoryGasCost :: "Memory \<Rightarrow> u64 \<Rightarrow> Memory \<times> (vm_error + u64)" where
  "memoryGasCost mem newMemSize =
     (if newMemSize = 0 then (mem, Inr 0)
      else if newMemSize > 0xffffffffe0 then (mem, Inl ErrGasUintOverflow)
      else
        (let newMemSizeWords = toWordSize newMemSize;
             newMemSize' = newMemSizeWords * 32
         in if newMemSize' > of_nat (length (m_store mem)) then
              (let square = newMemSizeWords * newMemSizeWords;
                   linCoef = newMemSizeWords * MemoryGas;
                   quadCoef = square div QuadCoeffDiv;
                   newTotalFee = linCoef + quadCoef;
                   fee = newTotalFee - m_lastGasCost mem
               in (mem\<lparr>m_lastGasCost := newTotalFee\<rparr>, Inr fee))
            else (mem, Inr 0)))"

definition frame_mem_gas :: "frame \<Rightarrow> u64 \<Rightarrow> frame \<times> (vm_error + u64)" where
  "frame_mem_gas fr memorySize =
     (let (mem, g) = memoryGasCost (f_mem fr) memorySize in (fr\<lparr>f_mem := mem\<rparr>, g))"

section \<open>Gas functions\<close>

definition constGasFunc :: "u64 \<Rightarrow> gasFunc" where
  "constGasFunc gas gt env ev fr memorySize = Ok (ev, fr, Inr gas)"

text \<open>Memory expansion, a base price and a price per word of the item at \<open>Back(n)\<close>.\<close>

definition gas_per_word :: "nat \<Rightarrow> u64 \<Rightarrow> u64 \<Rightarrow> evm \<Rightarrow> frame \<Rightarrow> u64 \<Rightarrow> gasres" where
  "gas_per_word n base per ev fr memorySize =
     (let (fr', mg) = frame_mem_gas fr memorySize in
      obind (Back n (f_stack fr)) (\<lambda>b.
      Ok (ev, fr',
        ebind mg (\<lambda>gas.
        ebind (safe_add gas base) (\<lambda>gas.
        ebind (safe_big b) (\<lambda>words.
        ebind (safe_mul (toWordSize words) per) (\<lambda>words.
        safe_add gas words)))))))"

definition gasCallDataCopy :: gasFunc where
  "gasCallDataCopy gt env ev fr memorySize = gas_per_word 2 GasFastestStep CopyGas ev fr memorySize"

definition gasReturnDataCopy :: gasFunc where
  "gasReturnDataCopy gt env ev fr memorySize = gas_per_word 2 GasFastestStep CopyGas ev fr memorySize"

definition gasSStore :: gasFunc where
  "gasSStore gt env ev fr memorySize =
     obind (Back 1 (f_stack fr)) (\<lambda>y.
     obind (Back 0 (f_stack fr)) (\<lambda>x.
     (let (val, db) = GetState (ee_state env) (c_self (f_contract fr)) (BigToHash x) (evm_StateDB ev)
      in if EmptyHash val \<and> \<not> EmptyHash (BigToHash y)
         then Ok (ev\<lparr>evm_StateDB := db\<rparr>, fr, Inr SstoreSetGas)
         else if \<not> EmptyHash val \<and> EmptyHash (BigToHash y)
         then Ok (ev\<lparr>evm_StateDB := AddRefund (uint SstoreRefundGas) db\<rparr>, fr, Inr SstoreClearGas)
         else Ok (ev\<lparr>evm_StateDB := db\<rparr>, fr, Inr SstoreResetGas))))"

definition makeGasLog :: "u64 \<Rightarrow> gasFunc" where
  "makeGasLog n gt env ev fr memorySize =
     obind (Back 1 (f_stack fr)) (\<lambda>b.
     case safe_big b of
       Inl e \<Rightarrow> Ok (ev, fr, Inl e)
     | Inr requestedSize \<Rightarrow>
         (let (fr', mg) = frame_mem_gas fr memorySize in
          Ok (ev, fr',
            ebind mg (\<lambda>gas.
            ebind (safe_add gas LogGas) (\<lambda>gas.
            ebind (safe_add gas (n * LogTopicGas)) (\<lambda>gas.
            ebind (safe_mul requestedSize LogDataGas) (\<lambda>memorySizeGas.
            safe_add gas memorySizeGas)))))))"

definition gasSha3 :: gasFunc where
  "gasSha3 gt env ev fr memorySize = gas_per_word 1 Sha3Gas Sha3WordGas ev fr memorySize"

definition gasCodeCopy :: gasFunc where
  "gasCodeCopy gt env ev fr memorySize = gas_per_word 2 GasFastestStep CopyGas ev fr memorySize"

definition gasExtCodeCopy :: gasFunc where
  "gasExtCodeCopy gt env ev fr memorySize = gas_per_word 3 (gt_ExtcodeCopy gt) CopyGas ev fr memorySize"

text \<open>Memory expansion and a base price.  The functions that replace the error of \<open>memoryGasCost\<close>
  by \<open>errGasUintOverflow\<close> replace it by itself: it has no other error.\<close>

definition gas_mem_plus :: "u64 \<Rightarrow> evm \<Rightarrow> frame \<Rightarrow> u64 \<Rightarrow> gasres" where
  "gas_mem_plus base ev fr memorySize =
     (let (fr', mg) = frame_mem_gas fr memorySize
      in Ok (ev, fr', ebind mg (\<lambda>gas. safe_add gas base)))"

definition gasMLoad :: gasFunc where
  "gasMLoad gt env ev fr memorySize = gas_mem_plus GasFastestStep ev fr memorySize"

definition gasMStore8 :: gasFunc where
  "gasMStore8 gt env ev fr memorySize = gas_mem_plus GasFastestStep ev fr memorySize"

definition gasMStore :: gasFunc where
  "gasMStore gt env ev fr memorySize = gas_mem_plus GasFastestStep ev fr memorySize"

definition gasCreate :: gasFunc where
  "gasCreate gt env ev fr memorySize = gas_mem_plus CreateGas ev fr memorySize"

definition gasBalance :: gasFunc where
  "gasBalance gt env ev fr memorySize = Ok (ev, fr, Inr (gt_Balance gt))"

definition gasExtCodeSize :: gasFunc where
  "gasExtCodeSize gt env ev fr memorySize = Ok (ev, fr, Inr (gt_ExtcodeSize gt))"

definition gasSLoad :: gasFunc where
  "gasSLoad gt env ev fr memorySize = Ok (ev, fr, Inr (gt_SLoad gt))"

definition gasExp :: gasFunc where
  "gasExp gt env ev fr memorySize =
     obind (Back 1 (f_stack fr)) (\<lambda>e.
       (let expByteLen = of_nat ((BitLen e + 7) div 8);
            gas = expByteLen * gt_ExpByte gt
        in Ok (ev, fr, safe_add gas GasSlowStep)))"

text \<open>The end of the four call gas functions: the gas passed on replaces the top of the stack.\<close>

definition charge_call ::
    "GasTable \<Rightarrow> frame \<Rightarrow> (vm_error + u64) \<Rightarrow> bigint \<Rightarrow> frame \<times> (vm_error + u64)" where
  "charge_call gt fr gas callCost =
     (case ebind gas (\<lambda>g. callGas gt (c_Gas (f_contract fr)) g callCost) of
        Inl e \<Rightarrow> (fr, Inl e)
      | Inr cg \<Rightarrow>
          (fr\<lparr>f_stack := (f_stack fr)[0 := uint cg]\<rparr>, ebind gas (\<lambda>g. safe_add g cg)))"

definition gasCall :: gasFunc where
  "gasCall gt env ev fr memorySize =
     obind (Back 2 (f_stack fr)) (\<lambda>v.
     obind (Back 1 (f_stack fr)) (\<lambda>a.
     obind (Back 0 (f_stack fr)) (\<lambda>callCost.
     (let transfersValue = (v \<noteq> 0);
          address = BigToAddress a;
          (isEmpty, db) = (if transfersValue then Empty (ee_state env) address (evm_StateDB ev)
                           else (False, evm_StateDB ev));
          gas = gt_Calls gt + (if transfersValue \<and> isEmpty then CallNewAccountGas else 0)
                  + (if transfersValue then CallValueTransferGas else 0);
          (fr1, mg) = frame_mem_gas fr memorySize;
          (fr2, r) = charge_call gt fr1 (ebind mg (\<lambda>memoryGas. safe_add gas memoryGas)) callCost
      in Ok (ev\<lparr>evm_StateDB := db\<rparr>, fr2, r)))))"

definition gasCallCode :: gasFunc where
  "gasCallCode gt env ev fr memorySize =
     obind (Back 2 (f_stack fr)) (\<lambda>v.
     obind (Back 0 (f_stack fr)) (\<lambda>callCost.
     (let gas = gt_Calls gt + (if v \<noteq> 0 then CallValueTransferGas else 0);
          (fr1, mg) = frame_mem_gas fr memorySize;
          (fr2, r) = charge_call gt fr1 (ebind mg (\<lambda>memoryGas. safe_add gas memoryGas)) callCost
      in Ok (ev, fr2, r))))"

definition gasReturn :: gasFunc where
  "gasReturn gt env ev fr memorySize =
     (let (fr', mg) = frame_mem_gas fr memorySize in Ok (ev, fr', mg))"

definition gasRevert :: gasFunc where
  "gasRevert gt env ev fr memorySize =
     (let (fr', mg) = frame_mem_gas fr memorySize in Ok (ev, fr', mg))"

definition gasSuicide :: gasFunc where
  "gasSuicide gt env ev fr memorySize =
     obind (Back 0 (f_stack fr)) (\<lambda>a.
     (let E = ee_state env; self = c_self (f_contract fr);
          address = BigToAddress a;
          (isEmpty, db1) = Empty E address (evm_StateDB ev);
          (bal, db2) = (if isEmpty then GetBalance E self db1 else (0, db1));
          gas = gt_Suicide gt + (if isEmpty \<and> bal \<noteq> 0 then gt_CreateBySuicide gt else 0);
          (suicided, db3) = HasSuicided E self db2;
          db4 = (if \<not> suicided then AddRefund (uint SuicideRefundGas) db3 else db3)
      in Ok (ev\<lparr>evm_StateDB := db4\<rparr>, fr, Inr gas)))"

definition gasDelegateCall :: gasFunc where
  "gasDelegateCall gt env ev fr memorySize =
     (let (fr1, mg) = frame_mem_gas fr memorySize in
      obind (Back 0 (f_stack fr)) (\<lambda>callCost.
      (let (fr2, r) = charge_call gt fr1 (ebind mg (\<lambda>gas. safe_add gas (gt_Calls gt))) callCost
       in Ok (ev, fr2, r))))"

definition gasStaticCall :: gasFunc where
  "gasStaticCall gt env ev fr memorySize =
     (let (fr1, mg) = frame_mem_gas fr memorySize in
      obind (Back 0 (f_stack fr)) (\<lambda>callCost.
      (let (fr2, r) = charge_call gt fr1 (ebind mg (\<lambda>gas. safe_add gas (gt_Calls gt))) callCost
       in Ok (ev, fr2, r))))"

definition gasPush :: gasFunc where
  "gasPush gt env ev fr memorySize = Ok (ev, fr, Inr GasFastestStep)"

definition gasSwap :: gasFunc where
  "gasSwap gt env ev fr memorySize = Ok (ev, fr, Inr GasFastestStep)"

definition gasDup :: gasFunc where
  "gasDup gt env ev fr memorySize = Ok (ev, fr, Inr GasFastestStep)"

end
