(* ===== verification/Evm_Instructions.thy ===== *)
theory Evm_Instructions
  imports Evm_Base
begin

text \<open>
  The instructions of \<open>hvm/evm/instructions.go\<close> that do not call other contracts.  An instruction
  takes the machine and the frame (program counter, stack, memory, contract) and returns them
  updated, together with its result bytes and error.  The pool of reusable integers has no effect
  on values and is left out.
\<close>

unbundle bit_operations_syntax

type_synonym opres = "(evm \<times> frame \<times> bytes \<times> vm_error option) outcome"

section \<open>Stack access\<close>

definition pop :: "frame \<Rightarrow> (bigint \<Rightarrow> frame \<Rightarrow> 'a outcome) \<Rightarrow> 'a outcome" where
  "pop fr k = (case f_stack fr of [] \<Rightarrow> Panic StackIndex | x # st \<Rightarrow> k x (fr\<lparr>f_stack := st\<rparr>))"

definition push :: "bigint \<Rightarrow> frame \<Rightarrow> frame" where
  "push x fr = fr\<lparr>f_stack := x # f_stack fr\<rparr>"

definition op_done :: "evm \<Rightarrow> frame \<Rightarrow> opres" where
  "op_done ev fr = Ok (ev, fr, [], None)"

definition bool_big :: "bool \<Rightarrow> bigint" where
  "bool_big b = (if b then 1 else 0)"

definition stack_swap :: "nat \<Rightarrow> stack \<Rightarrow> stack outcome" where
  "stack_swap n st =
     (if 0 < n \<and> n \<le> length st then Ok (st[0 := st ! (n - 1), n - 1 := st ! 0])
      else Panic StackIndex)"

definition stack_dup :: "nat \<Rightarrow> stack \<Rightarrow> stack outcome" where
  "stack_dup n st =
     (if 0 < n \<and> n \<le> length st then Ok (st ! (n - 1) # st) else Panic StackIndex)"

definition mem_set :: "bigint \<Rightarrow> bigint \<Rightarrow> bytes \<Rightarrow> evm \<Rightarrow> frame \<Rightarrow> opres" where
  "mem_set off sz v ev fr =
     obind (Memory_Set (big_Uint64 off) (big_Uint64 sz) v (f_mem fr))
       (\<lambda>m. op_done ev (fr\<lparr>f_mem := m\<rparr>))"

section \<open>Arithmetic\<close>

definition opAdd :: "evm_env \<Rightarrow> evm \<Rightarrow> frame \<Rightarrow> opres" where
  "opAdd env ev fr =
     pop fr (\<lambda>x fr. pop fr (\<lambda>y fr.
       op_done ev (push (U256 (x + y)) fr)))"

definition opSub :: "evm_env \<Rightarrow> evm \<Rightarrow> frame \<Rightarrow> opres" where
  "opSub env ev fr =
     pop fr (\<lambda>x fr. pop fr (\<lambda>y fr.
       op_done ev (push (U256 (x - y)) fr)))"

definition opMul :: "evm_env \<Rightarrow> evm \<Rightarrow> frame \<Rightarrow> opres" where
  "opMul env ev fr =
     pop fr (\<lambda>x fr. pop fr (\<lambda>y fr.
       op_done ev (push (U256 (x * y)) fr)))"

definition opDiv :: "evm_env \<Rightarrow> evm \<Rightarrow> frame \<Rightarrow> opres" where
  "opDiv env ev fr =
     pop fr (\<lambda>x fr. pop fr (\<lambda>y fr.
       op_done ev (push (if y \<noteq> 0 then U256 (x div y) else 0) fr)))"

text \<open>\<open>Div\<close> and \<open>Mod\<close> of \<open>math/big\<close> round towards minus infinity for a positive divisor, like
  \<open>div\<close> and \<open>mod\<close>; the divisors here are never negative.\<close>

definition opSdiv :: "evm_env \<Rightarrow> evm \<Rightarrow> frame \<Rightarrow> opres" where
  "opSdiv env ev fr =
     pop fr (\<lambda>x0 fr. pop fr (\<lambda>y0 fr.
       (let x = S256 x0; y = S256 y0 in
        if y = 0 then op_done ev (push 0 fr)
        else (let n = (if x * y < 0 then -1 else 1);
                  res = \<bar>x\<bar> div \<bar>y\<bar>
              in op_done ev (push (U256 (res * n)) fr)))))"

definition opMod :: "evm_env \<Rightarrow> evm \<Rightarrow> frame \<Rightarrow> opres" where
  "opMod env ev fr =
     pop fr (\<lambda>x fr. pop fr (\<lambda>y fr.
       op_done ev (push (if y = 0 then 0 else U256 (x mod y)) fr)))"

definition opSmod :: "evm_env \<Rightarrow> evm \<Rightarrow> frame \<Rightarrow> opres" where
  "opSmod env ev fr =
     pop fr (\<lambda>x0 fr. pop fr (\<lambda>y0 fr.
       (let x = S256 x0; y = S256 y0 in
        if y = 0 then op_done ev (push 0 fr)
        else (let n = (if x < 0 then -1 else 1);
                  res = \<bar>x\<bar> mod \<bar>y\<bar>
              in op_done ev (push (U256 (res * n)) fr)))))"

definition opExp :: "evm_env \<Rightarrow> evm \<Rightarrow> frame \<Rightarrow> opres" where
  "opExp env ev fr =
     pop fr (\<lambda>x fr. pop fr (\<lambda>y fr.
       op_done ev (push (math_Exp x y) fr)))"

definition opSignExtend :: "evm_env \<Rightarrow> evm \<Rightarrow> frame \<Rightarrow> opres" where
  "opSignExtend env ev fr =
     pop fr (\<lambda>back fr.
       if back < 31 then
         pop fr (\<lambda>num fr.
           (let b = unat (big_Uint64 back * 8 + 7);
                mask = push_bit b 1 - 1;
                num' = (if bit num b then num OR (NOT mask) else num AND mask)
            in op_done ev (push (U256 num') fr)))
       else op_done ev fr)"

definition opNot :: "evm_env \<Rightarrow> evm \<Rightarrow> frame \<Rightarrow> opres" where
  "opNot env ev fr = pop fr (\<lambda>x fr. op_done ev (push (U256 (NOT x)) fr))"

definition opLt :: "evm_env \<Rightarrow> evm \<Rightarrow> frame \<Rightarrow> opres" where
  "opLt env ev fr =
     pop fr (\<lambda>x fr. pop fr (\<lambda>y fr.
       op_done ev (push (bool_big (x < y)) fr)))"

definition opGt :: "evm_env \<Rightarrow> evm \<Rightarrow> frame \<Rightarrow> opres" where
  "opGt env ev fr =
     pop fr (\<lambda>x fr. pop fr (\<lambda>y fr.
       op_done ev (push (bool_big (x > y)) fr)))"

definition opSlt :: "evm_env \<Rightarrow> evm \<Rightarrow> frame \<Rightarrow> opres" where
  "opSlt env ev fr =
     pop fr (\<lambda>x fr. pop fr (\<lambda>y fr.
       op_done ev (push (bool_big (S256 x < S256 (S256 y))) fr)))"

definition opSgt :: "evm_env \<Rightarrow> evm \<Rightarrow> frame \<Rightarrow> opres" where
  "opSgt env ev fr =
     pop fr (\<lambda>x fr. pop fr (\<lambda>y fr.
       op_done ev (push (bool_big (S256 x > S256 y)) fr)))"

definition opEq :: "evm_env \<Rightarrow> evm \<Rightarrow> frame \<Rightarrow> opres" where
  "opEq env ev fr =
     pop fr (\<lambda>x fr. pop fr (\<lambda>y fr.
       op_done ev (push (bool_big (x = y)) fr)))"

definition opIszero :: "evm_env \<Rightarrow> evm \<Rightarrow> frame \<Rightarrow> opres" where
  "opIszero env ev fr = pop fr (\<lambda>x fr. op_done ev (push (if x > 0 then 0 else 1) fr))"

definition opAnd :: "evm_env \<Rightarrow> evm \<Rightarrow> frame \<Rightarrow> opres" where
  "opAnd env ev fr =
     pop fr (\<lambda>x fr. pop fr (\<lambda>y fr.
       op_done ev (push (x AND y) fr)))"

definition opOr :: "evm_env \<Rightarrow> evm \<Rightarrow> frame \<Rightarrow> opres" where
  "opOr env ev fr =
     pop fr (\<lambda>x fr. pop fr (\<lambda>y fr.
       op_done ev (push (x OR y) fr)))"

definition opXor :: "evm_env \<Rightarrow> evm \<Rightarrow> frame \<Rightarrow> opres" where
  "opXor env ev fr =
     pop fr (\<lambda>x fr. pop fr (\<lambda>y fr.
       op_done ev (push (x XOR y) fr)))"

definition opByte :: "evm_env \<Rightarrow> evm \<Rightarrow> frame \<Rightarrow> opres" where
  "opByte env ev fr =
     pop fr (\<lambda>th fr. pop fr (\<lambda>val fr.
       op_done ev (push (if th < 32 then uint (math_Byte val 32 (nat (sint (big_Int64 th)))) else 0) fr)))"

definition opAddmod :: "evm_env \<Rightarrow> evm \<Rightarrow> frame \<Rightarrow> opres" where
  "opAddmod env ev fr =
     pop fr (\<lambda>x fr. pop fr (\<lambda>y fr. pop fr (\<lambda>z fr.
       op_done ev (push (if z > 0 then U256 ((x + y) mod z) else 0) fr))))"

definition opMulmod :: "evm_env \<Rightarrow> evm \<Rightarrow> frame \<Rightarrow> opres" where
  "opMulmod env ev fr =
     pop fr (\<lambda>x fr. pop fr (\<lambda>y fr. pop fr (\<lambda>z fr.
       op_done ev (push (if z > 0 then U256 ((x * y) mod z) else 0) fr))))"

definition opSha3 :: "evm_env \<Rightarrow> evm \<Rightarrow> frame \<Rightarrow> opres" where
  "opSha3 env ev fr =
     pop fr (\<lambda>offset fr. pop fr (\<lambda>sz fr.
       obind (Memory_Get (big_Int64 offset) (big_Int64 sz) (f_mem fr)) (\<lambda>data.
         (let h = keccak256 (ee_state env) data;
              ev' = (if ee_EnablePreimageRecording env
                     then ev\<lparr>evm_StateDB := AddPreimage h data (evm_StateDB ev)\<rparr> else ev)
          in op_done ev' (push (uint h) fr)))))"

section \<open>Context\<close>

definition opAddress :: "evm_env \<Rightarrow> evm \<Rightarrow> frame \<Rightarrow> opres" where
  "opAddress env ev fr = op_done ev (push (Address_Big (c_self (f_contract fr))) fr)"

definition opBalance :: "evm_env \<Rightarrow> evm \<Rightarrow> frame \<Rightarrow> opres" where
  "opBalance env ev fr =
     pop fr (\<lambda>a fr.
       (let (balance, db) = GetBalance (ee_state env) (BigToAddress a) (evm_StateDB ev)
        in op_done (ev\<lparr>evm_StateDB := db\<rparr>) (push balance fr)))"

definition opOrigin :: "evm_env \<Rightarrow> evm \<Rightarrow> frame \<Rightarrow> opres" where
  "opOrigin env ev fr = op_done ev (push (Address_Big (ee_Origin env)) fr)"

definition opCaller :: "evm_env \<Rightarrow> evm \<Rightarrow> frame \<Rightarrow> opres" where
  "opCaller env ev fr = op_done ev (push (Address_Big (c_CallerAddress (f_contract fr))) fr)"

definition opCallValue :: "evm_env \<Rightarrow> evm \<Rightarrow> frame \<Rightarrow> opres" where
  "opCallValue env ev fr = op_done ev (push (c_value (f_contract fr)) fr)"

definition opCallDataLoad :: "evm_env \<Rightarrow> evm \<Rightarrow> frame \<Rightarrow> opres" where
  "opCallDataLoad env ev fr =
     pop fr (\<lambda>off fr. op_done ev (push (SetBytes (getDataBig (c_Input (f_contract fr)) off 32)) fr))"

definition opCallDataSize :: "evm_env \<Rightarrow> evm \<Rightarrow> frame \<Rightarrow> opres" where
  "opCallDataSize env ev fr = op_done ev (push (int (length (c_Input (f_contract fr)))) fr)"

definition opCallDataCopy :: "evm_env \<Rightarrow> evm \<Rightarrow> frame \<Rightarrow> opres" where
  "opCallDataCopy env ev fr =
     pop fr (\<lambda>memOffset fr. pop fr (\<lambda>dataOffset fr. pop fr (\<lambda>len fr.
       mem_set memOffset len (getDataBig (c_Input (f_contract fr)) dataOffset len) ev fr)))"

definition opReturnDataSize :: "evm_env \<Rightarrow> evm \<Rightarrow> frame \<Rightarrow> opres" where
  "opReturnDataSize env ev fr = op_done ev (push (int (length (evm_returnData ev))) fr)"

definition opReturnDataCopy :: "evm_env \<Rightarrow> evm \<Rightarrow> frame \<Rightarrow> opres" where
  "opReturnDataCopy env ev fr =
     pop fr (\<lambda>memOffset fr. pop fr (\<lambda>dataOffset fr. pop fr (\<lambda>len fr.
       (let e = dataOffset + len in
        if BitLen e > 64 \<or> of_nat (length (evm_returnData ev)) < big_Uint64 e
        then Ok (ev, fr, [], Some ErrReturnDataOutOfBounds)
        else if big_Uint64 e < big_Uint64 dataOffset then Panic SliceBounds
        else mem_set memOffset len
               (subslice (evm_returnData ev) (unat (big_Uint64 dataOffset)) (unat (big_Uint64 e)))
               ev fr))))"

definition opExtCodeSize :: "evm_env \<Rightarrow> evm \<Rightarrow> frame \<Rightarrow> opres" where
  "opExtCodeSize env ev fr =
     pop fr (\<lambda>a fr.
       (let (n, db) = GetCodeSize (ee_state env) (BigToAddress a) (evm_StateDB ev)
        in op_done (ev\<lparr>evm_StateDB := db\<rparr>) (push (int n) fr)))"

definition opCodeSize :: "evm_env \<Rightarrow> evm \<Rightarrow> frame \<Rightarrow> opres" where
  "opCodeSize env ev fr = op_done ev (push (int (length (c_Code (f_contract fr)))) fr)"

definition opCodeCopy :: "evm_env \<Rightarrow> evm \<Rightarrow> frame \<Rightarrow> opres" where
  "opCodeCopy env ev fr =
     pop fr (\<lambda>memOffset fr. pop fr (\<lambda>codeOffset fr. pop fr (\<lambda>len fr.
       mem_set memOffset len (getDataBig (c_Code (f_contract fr)) codeOffset len) ev fr)))"

definition opExtCodeCopy :: "evm_env \<Rightarrow> evm \<Rightarrow> frame \<Rightarrow> opres" where
  "opExtCodeCopy env ev fr =
     pop fr (\<lambda>a fr. pop fr (\<lambda>memOffset fr. pop fr (\<lambda>codeOffset fr. pop fr (\<lambda>len fr.
       (let (code, db) = GetCode (ee_state env) (BigToAddress a) (evm_StateDB ev)
        in mem_set memOffset len (getDataBig code codeOffset len) (ev\<lparr>evm_StateDB := db\<rparr>) fr)))))"

definition opGasprice :: "evm_env \<Rightarrow> evm \<Rightarrow> frame \<Rightarrow> opres" where
  "opGasprice env ev fr = op_done ev (push (ee_GasPrice env) fr)"

definition opBlockhash :: "evm_env \<Rightarrow> evm \<Rightarrow> frame \<Rightarrow> opres" where
  "opBlockhash env ev fr =
     pop fr (\<lambda>num fr.
       (let n = ee_BlockNumber env - 257
        in op_done ev (push (if num > n \<and> num < ee_BlockNumber env
                          then Hash_Big (ee_GetHash env (big_Uint64 num)) else 0) fr)))"

definition opCoinbase :: "evm_env \<Rightarrow> evm \<Rightarrow> frame \<Rightarrow> opres" where
  "opCoinbase env ev fr = op_done ev (push (Address_Big (ee_Coinbase env)) fr)"

definition opTimestamp :: "evm_env \<Rightarrow> evm \<Rightarrow> frame \<Rightarrow> opres" where
  "opTimestamp env ev fr = op_done ev (push (U256 (ee_Time env)) fr)"

definition opNumber :: "evm_env \<Rightarrow> evm \<Rightarrow> frame \<Rightarrow> opres" where
  "opNumber env ev fr = op_done ev (push (U256 (ee_BlockNumber env)) fr)"

definition opDifficulty :: "evm_env \<Rightarrow> evm \<Rightarrow> frame \<Rightarrow> opres" where
  "opDifficulty env ev fr = op_done ev (push (U256 (ee_Difficulty env)) fr)"

definition opGasLimit :: "evm_env \<Rightarrow> evm \<Rightarrow> frame \<Rightarrow> opres" where
  "opGasLimit env ev fr = op_done ev (push (U256 (ee_GasLimit env)) fr)"

section \<open>Stack, memory and storage\<close>

definition opPop :: "evm_env \<Rightarrow> evm \<Rightarrow> frame \<Rightarrow> opres" where
  "opPop env ev fr = pop fr (\<lambda>x fr. op_done ev fr)"

definition opMload :: "evm_env \<Rightarrow> evm \<Rightarrow> frame \<Rightarrow> opres" where
  "opMload env ev fr =
     pop fr (\<lambda>offset fr.
       obind (Memory_Get (big_Int64 offset) 32 (f_mem fr)) (\<lambda>v. op_done ev (push (SetBytes v) fr)))"

definition opMstore :: "evm_env \<Rightarrow> evm \<Rightarrow> frame \<Rightarrow> opres" where
  "opMstore env ev fr =
     pop fr (\<lambda>mStart fr. pop fr (\<lambda>val fr. mem_set mStart 32 (PaddedBigBytes val 32) ev fr))"

definition opMstore8 :: "evm_env \<Rightarrow> evm \<Rightarrow> frame \<Rightarrow> opres" where
  "opMstore8 env ev fr =
     pop fr (\<lambda>off fr. pop fr (\<lambda>val fr.
       (let i = sint (big_Int64 off); store = m_store (f_mem fr) in
        if 0 \<le> i \<and> i < int (length store)
        then op_done ev (fr\<lparr>f_mem := (f_mem fr)\<lparr>m_store := store[nat i := ucast (big_Int64 val)]\<rparr>\<rparr>)
        else Panic MemoryIndex)))"

definition opSload :: "evm_env \<Rightarrow> evm \<Rightarrow> frame \<Rightarrow> opres" where
  "opSload env ev fr =
     pop fr (\<lambda>loc fr.
       (let (v, db) = GetState (ee_state env) (c_self (f_contract fr)) (BigToHash loc) (evm_StateDB ev)
        in op_done (ev\<lparr>evm_StateDB := db\<rparr>) (push (Hash_Big v) fr)))"

definition opSstore :: "evm_env \<Rightarrow> evm \<Rightarrow> frame \<Rightarrow> opres" where
  "opSstore env ev fr =
     pop fr (\<lambda>loc fr. pop fr (\<lambda>val fr.
       op_done (ev\<lparr>evm_StateDB := SetState (ee_state env) (c_self (f_contract fr)) (BigToHash loc)
                   (BigToHash val) (evm_StateDB ev)\<rparr>) fr))"

section \<open>Control flow\<close>

text \<open>The common part of \<open>opJump\<close> and a taken \<open>opJumpi\<close>.\<close>

definition jump_to :: "bigint \<Rightarrow> evm \<Rightarrow> frame \<Rightarrow> opres" where
  "jump_to pos ev fr =
     obind (destinations_has (evm_jumpdests ev) (c_CodeHash (f_contract fr)) (c_Code (f_contract fr)) pos)
       (\<lambda>(ok, d).
          if ok then op_done (ev\<lparr>evm_jumpdests := d\<rparr>) (fr\<lparr>f_pc := big_Uint64 pos\<rparr>)
          else Ok (ev\<lparr>evm_jumpdests := d\<rparr>, fr, [], Some ErrInvalidJump))"

definition opJump :: "evm_env \<Rightarrow> evm \<Rightarrow> frame \<Rightarrow> opres" where
  "opJump env ev fr = pop fr (\<lambda>pos fr. jump_to pos ev fr)"

definition opJumpi :: "evm_env \<Rightarrow> evm \<Rightarrow> frame \<Rightarrow> opres" where
  "opJumpi env ev fr =
     pop fr (\<lambda>pos fr. pop fr (\<lambda>cond fr.
       if cond \<noteq> 0 then jump_to pos ev fr else op_done ev (fr\<lparr>f_pc := f_pc fr + 1\<rparr>)))"

definition opJumpdest :: "evm_env \<Rightarrow> evm \<Rightarrow> frame \<Rightarrow> opres" where
  "opJumpdest env ev fr = op_done ev fr"

definition opPc :: "evm_env \<Rightarrow> evm \<Rightarrow> frame \<Rightarrow> opres" where
  "opPc env ev fr = op_done ev (push (uint (f_pc fr)) fr)"

definition opMsize :: "evm_env \<Rightarrow> evm \<Rightarrow> frame \<Rightarrow> opres" where
  "opMsize env ev fr = op_done ev (push (int (length (m_store (f_mem fr)))) fr)"

definition opGas :: "evm_env \<Rightarrow> evm \<Rightarrow> frame \<Rightarrow> opres" where
  "opGas env ev fr = op_done ev (push (uint (c_Gas (f_contract fr))) fr)"

definition opReturn :: "evm_env \<Rightarrow> evm \<Rightarrow> frame \<Rightarrow> opres" where
  "opReturn env ev fr =
     pop fr (\<lambda>offset fr. pop fr (\<lambda>sz fr.
       obind (Memory_GetPtr (big_Int64 offset) (big_Int64 sz) (f_mem fr))
         (\<lambda>ret. Ok (ev, fr, ret, None))))"

definition opRevert :: "evm_env \<Rightarrow> evm \<Rightarrow> frame \<Rightarrow> opres" where
  "opRevert env ev fr =
     pop fr (\<lambda>offset fr. pop fr (\<lambda>sz fr.
       obind (Memory_GetPtr (big_Int64 offset) (big_Int64 sz) (f_mem fr))
         (\<lambda>ret. Ok (ev, fr, ret, None))))"

definition opStop :: "evm_env \<Rightarrow> evm \<Rightarrow> frame \<Rightarrow> opres" where
  "opStop env ev fr = op_done ev fr"

definition opSuicide :: "evm_env \<Rightarrow> evm \<Rightarrow> frame \<Rightarrow> opres" where
  "opSuicide env ev fr =
     (let E = ee_state env; self = c_self (f_contract fr);
          (balance, db1) = GetBalance E self (evm_StateDB ev)
      in pop fr (\<lambda>a fr.
           (let db2 = AddBalance E (BigToAddress a) balance db1;
                (ok, db3) = Suicide E self db2
            in op_done (ev\<lparr>evm_StateDB := db3\<rparr>) fr)))"

section \<open>Logs, pushes, dups and swaps\<close>

primrec pop_topics :: "nat \<Rightarrow> hash list \<Rightarrow> frame \<Rightarrow> (hash list \<Rightarrow> frame \<Rightarrow> opres) \<Rightarrow> opres" where
  "pop_topics 0 acc fr k = k acc fr"
| "pop_topics (Suc n) acc fr k = pop fr (\<lambda>t fr. pop_topics n (acc @ [BigToHash t]) fr k)"

definition makeLog :: "nat \<Rightarrow> evm_env \<Rightarrow> evm \<Rightarrow> frame \<Rightarrow> opres" where
  "makeLog n env ev fr =
     pop fr (\<lambda>mStart fr. pop fr (\<lambda>mSize fr.
     pop_topics n [] fr (\<lambda>topics fr.
       obind (Memory_Get (big_Int64 mStart) (big_Int64 mSize) (f_mem fr)) (\<lambda>d.
         op_done (ev\<lparr>evm_StateDB := AddLog
                 \<lparr>log_Address = c_self (f_contract fr), log_Topics = topics, log_Data = d,
                  log_BlockNumber = big_Uint64 (ee_BlockNumber env), log_TxHash = 0,
                  log_TxIndex = 0, log_BlockHash = 0, log_Index = 0\<rparr> (evm_StateDB ev)\<rparr>) fr))))"

text \<open>\<open>int(*pc+1)\<close> and the length of the code are compared as non-negative numbers: the program
  counter stays far below \<open>2^63\<close>.\<close>

definition makePush :: "u64 \<Rightarrow> nat \<Rightarrow> evm_env \<Rightarrow> evm \<Rightarrow> frame \<Rightarrow> opres" where
  "makePush sz pushByteSize env ev fr =
     (let code = c_Code (f_contract fr); codeLen = length code;
          startMin = (if unat (f_pc fr + 1) < codeLen then unat (f_pc fr + 1) else codeLen);
          endMin = (if startMin + pushByteSize < codeLen then startMin + pushByteSize else codeLen);
          integer = SetBytes (RightPadBytes (subslice code startMin endMin) pushByteSize)
      in op_done ev ((push integer fr)\<lparr>f_pc := f_pc fr + sz\<rparr>))"

definition makeDup :: "nat \<Rightarrow> evm_env \<Rightarrow> evm \<Rightarrow> frame \<Rightarrow> opres" where
  "makeDup n env ev fr = obind (stack_dup n (f_stack fr)) (\<lambda>st. op_done ev (fr\<lparr>f_stack := st\<rparr>))"

definition makeSwap :: "nat \<Rightarrow> evm_env \<Rightarrow> evm \<Rightarrow> frame \<Rightarrow> opres" where
  "makeSwap n env ev fr =
     obind (stack_swap (n + 1) (f_stack fr)) (\<lambda>st. op_done ev (fr\<lparr>f_stack := st\<rparr>))"

end
