(* ===== verification/Evm_Precompiled.thy ===== *)
theory Evm_Precompiled
  imports Evm_Base
begin

text \<open>
  The precompiled contracts of \<open>hvm/evm/contracts.go\<close>: their gas and what they compute.  The hash
  functions and the curve arithmetic are fields of the environment; the padding, the validity
  checks and the modular exponentiation are modelled.
\<close>

section \<open>Contracts\<close>

datatype PrecompiledContract =
    PcEcrecover | PcSha256hash | PcRipemd160hash | PcDataCopy | PcBigModExp
  | PcBn256Add | PcBn256ScalarMul | PcBn256Pairing

definition PrecompiledContractsByzantium :: "address \<Rightarrow> PrecompiledContract option" where
  "PrecompiledContractsByzantium a =
     (if a = BytesToAddress [1] then Some PcEcrecover
      else if a = BytesToAddress [2] then Some PcSha256hash
      else if a = BytesToAddress [3] then Some PcRipemd160hash
      else if a = BytesToAddress [4] then Some PcDataCopy
      else if a = BytesToAddress [5] then Some PcBigModExp
      else if a = BytesToAddress [6] then Some PcBn256Add
      else if a = BytesToAddress [7] then Some PcBn256ScalarMul
      else if a = BytesToAddress [8] then Some PcBn256Pairing
      else None)"

section \<open>Gas\<close>

definition word_price :: "bytes \<Rightarrow> u64 \<Rightarrow> u64 \<Rightarrow> u64" where
  "word_price input per base = of_nat (length input + 31) div 32 * per + base"

definition modexp_input :: "bytes \<Rightarrow> bytes" where
  "modexp_input input = (if length input > 96 then drop 96 input else [])"

definition modexp_len :: "bytes \<Rightarrow> u64 \<Rightarrow> bigint outcome" where
  "modexp_len input off = obind (getData input off 32) (\<lambda>b. Ok (SetBytes b))"

text \<open>The multiplication complexity of EIP 198, in the three ranges of the \<open>switch\<close>.\<close>

definition mult_complexity :: "bigint \<Rightarrow> bigint" where
  "mult_complexity x =
     (if x \<le> 64 then x * x
      else if x \<le> 1024 then x * x div 4 + (96 * x - 3072)
      else x * x div 16 + (480 * x - 199680))"

definition bigModExp_RequiredGas :: "bytes \<Rightarrow> u64 outcome" where
  "bigModExp_RequiredGas input0 =
     obind (modexp_len input0 0) (\<lambda>baseLen.
     obind (modexp_len input0 32) (\<lambda>expLen.
     obind (modexp_len input0 64) (\<lambda>modLen.
     (let input = modexp_input input0 in
      obind (if int (length input) \<le> baseLen then Ok 0
             else if expLen > 32
             then obind (getData input (big_Uint64 baseLen) 32) (\<lambda>b. Ok (SetBytes b))
             else obind (getData input (big_Uint64 baseLen) (big_Uint64 expLen)) (\<lambda>b. Ok (SetBytes b)))
      (\<lambda>expHead.
        (let bitlen = BitLen expHead;
             msb = (if bitlen > 0 then int bitlen - 1 else 0);
             adjExpLen = (if expLen > 32 then 8 * (expLen - 32) else 0) + msb;
             gas = mult_complexity (BigMax modLen baseLen) * BigMax adjExpLen 1 div 20
         in Ok (if BitLen gas > 64 then MaxUint64 else big_Uint64 gas)))))))"

fun RequiredGas :: "PrecompiledContract \<Rightarrow> bytes \<Rightarrow> u64 outcome" where
  "RequiredGas PcEcrecover input = Ok 3000"
| "RequiredGas PcSha256hash input = Ok (word_price input 12 60)"
| "RequiredGas PcRipemd160hash input = Ok (word_price input 120 600)"
| "RequiredGas PcDataCopy input = Ok (word_price input 3 15)"
| "RequiredGas PcBigModExp input = bigModExp_RequiredGas input"
| "RequiredGas PcBn256Add input = Ok 500"
| "RequiredGas PcBn256ScalarMul input = Ok 40000"
| "RequiredGas PcBn256Pairing input = Ok (100000 + of_nat (length input div 192) * 80000)"

section \<open>Execution\<close>

type_synonym pcres = "(bytes \<times> vm_error option) outcome"

definition secp256k1_N :: bigint where
  "secp256k1_N = 0xfffffffffffffffffffffffffffffffebaaedce6af48a03bbfd25e8cd0364141"

definition secp256k1_halfN :: bigint where
  "secp256k1_halfN = secp256k1_N div 2"

definition ValidateSignatureValues :: "byte \<Rightarrow> bigint \<Rightarrow> bigint \<Rightarrow> bool \<Rightarrow> bool" where
  "ValidateSignatureValues v r s homestead =
     (if r < 1 \<or> s < 1 then False
      else if homestead \<and> s > secp256k1_halfN then False
      else r < secp256k1_N \<and> s < secp256k1_N \<and> (v = 0 \<or> v = 1))"

definition ecrecover_Run :: "evm_env \<Rightarrow> bytes \<Rightarrow> pcres" where
  "ecrecover_Run env input0 =
     (let input = RightPadBytes input0 128;
          r = SetBytes (subslice input 64 96);
          s = SetBytes (subslice input 96 128);
          v = input ! 63 - 27
      in if \<not> allZero (subslice input 32 63) \<or> \<not> ValidateSignatureValues v r s False
         then Ok ([], None)
         else case ee_Ecrecover env (take 32 input) (subslice input 64 128 @ [v]) of
                None \<Rightarrow> Ok ([], None)
              | Some pubKey \<Rightarrow>
                  if pubKey = [] then Panic SliceBounds
                  else Ok (LeftPadBytes (drop 12 (Hash_Bytes (keccak256 (ee_state env) (drop 1 pubKey)))) 32,
                           None))"

definition sha256hash_Run :: "evm_env \<Rightarrow> bytes \<Rightarrow> pcres" where
  "sha256hash_Run env input = Ok (ee_sha256 env input, None)"

definition ripemd160hash_Run :: "evm_env \<Rightarrow> bytes \<Rightarrow> pcres" where
  "ripemd160hash_Run env input = Ok (LeftPadBytes (ee_ripemd160 env input) 32, None)"

definition dataCopy_Run :: "bytes \<Rightarrow> pcres" where
  "dataCopy_Run input = Ok (input, None)"

definition bigModExp_Run :: "bytes \<Rightarrow> pcres" where
  "bigModExp_Run input0 =
     obind (modexp_len input0 0) (\<lambda>b0.
     obind (modexp_len input0 32) (\<lambda>e0.
     obind (modexp_len input0 64) (\<lambda>m0.
     (let baseLen = big_Uint64 b0; expLen = big_Uint64 e0; modLen = big_Uint64 m0;
          input = modexp_input input0
      in if baseLen = 0 \<and> modLen = 0 then Ok ([], None)
         else
           obind (getData input 0 baseLen) (\<lambda>bs.
           obind (getData input baseLen expLen) (\<lambda>es.
           obind (getData input (baseLen + expLen) modLen) (\<lambda>ms.
           (let base = SetBytes bs; exp = SetBytes es; md = SetBytes ms in
            if BitLen md = 0 then Ok (LeftPadBytes [] (alloc_len modLen), None)
            else Ok (LeftPadBytes (big_Bytes (base ^ nat exp mod md)) (alloc_len modLen), None)))))))))"

definition newCurvePoint :: "evm_env \<Rightarrow> bytes \<Rightarrow> vm_error + (bigint \<times> bigint)" where
  "newCurvePoint env blob =
     (case ee_bn_unmarshal1 env blob of
        None \<Rightarrow> Inl ErrNotOnCurve
      | Some (gx, gy) \<Rightarrow>
          if gx \<ge> ee_bn_P env \<or> gy \<ge> ee_bn_P env then Inl ErrInvalidCurvePoint
          else Inr (gx, gy))"

definition newTwistPoint ::
    "evm_env \<Rightarrow> bytes \<Rightarrow> vm_error + ((bigint \<times> bigint) \<times> (bigint \<times> bigint))" where
  "newTwistPoint env blob =
     (case ee_bn_unmarshal2 env blob of
        None \<Rightarrow> Inl ErrNotOnCurve
      | Some ((x_re, x_im), (y_re, y_im)) \<Rightarrow>
          if x_re \<ge> ee_bn_P env \<or> x_im \<ge> ee_bn_P env \<or> y_re \<ge> ee_bn_P env \<or> y_im \<ge> ee_bn_P env
          then Inl ErrInvalidCurvePoint
          else Inr ((x_re, x_im), (y_re, y_im)))"

definition bn256Add_Run :: "evm_env \<Rightarrow> bytes \<Rightarrow> pcres" where
  "bn256Add_Run env input =
     obind (getData input 0 64) (\<lambda>b1.
     obind (getData input 64 64) (\<lambda>b2.
       case newCurvePoint env b1 of
         Inl e \<Rightarrow> Ok ([], Some e)
       | Inr x \<Rightarrow>
           (case newCurvePoint env b2 of
              Inl e \<Rightarrow> Ok ([], Some e)
            | Inr y \<Rightarrow> Ok (ee_bn_add env x y, None))))"

definition bn256ScalarMul_Run :: "evm_env \<Rightarrow> bytes \<Rightarrow> pcres" where
  "bn256ScalarMul_Run env input =
     obind (getData input 0 64) (\<lambda>b1.
     obind (getData input 64 32) (\<lambda>b2.
       case newCurvePoint env b1 of
         Inl e \<Rightarrow> Ok ([], Some e)
       | Inr p \<Rightarrow> Ok (ee_bn_mul env p (SetBytes b2), None)))"

definition true32Byte :: bytes where "true32Byte = replicate 31 0 @ [1]"
definition false32Byte :: bytes where "false32Byte = replicate 32 0"

function pairing_points :: "evm_env \<Rightarrow> bytes \<Rightarrow> nat \<Rightarrow> (bigint \<times> bigint) list \<Rightarrow>
    ((bigint \<times> bigint) \<times> (bigint \<times> bigint)) list \<Rightarrow>
    vm_error + (bigint \<times> bigint) list \<times> ((bigint \<times> bigint) \<times> (bigint \<times> bigint)) list" where
  "pairing_points env input i cs ts =
     (if i < length input then
        (case newCurvePoint env (subslice input i (i + 64)) of
           Inl e \<Rightarrow> Inl e
         | Inr c \<Rightarrow>
             (case newTwistPoint env (subslice input (i + 64) (i + 192)) of
                Inl e \<Rightarrow> Inl e
              | Inr t \<Rightarrow> pairing_points env input (i + 192) (cs @ [c]) (ts @ [t])))
      else Inr (cs, ts))"
  by pat_completeness auto
termination
  by (relation "measure (\<lambda>(env, input, i, cs, ts). length input - i)") auto

declare pairing_points.simps [simp del]

definition bn256Pairing_Run :: "evm_env \<Rightarrow> bytes \<Rightarrow> pcres" where
  "bn256Pairing_Run env input =
     (if length input mod 192 > 0 then Ok ([], Some ErrBadPairingInput)
      else case pairing_points env input 0 [] [] of
             Inl e \<Rightarrow> Ok ([], Some e)
           | Inr (cs, ts) \<Rightarrow>
               Ok (if ee_bn_pairing env cs ts then true32Byte else false32Byte, None))"

fun Precompiled_Run :: "evm_env \<Rightarrow> PrecompiledContract \<Rightarrow> bytes \<Rightarrow> pcres" where
  "Precompiled_Run env PcEcrecover input = ecrecover_Run env input"
| "Precompiled_Run env PcSha256hash input = sha256hash_Run env input"
| "Precompiled_Run env PcRipemd160hash input = ripemd160hash_Run env input"
| "Precompiled_Run env PcDataCopy input = dataCopy_Run input"
| "Precompiled_Run env PcBigModExp input = bigModExp_Run input"
| "Precompiled_Run env PcBn256Add input = bn256Add_Run env input"
| "Precompiled_Run env PcBn256ScalarMul input = bn256ScalarMul_Run env input"
| "Precompiled_Run env PcBn256Pairing input = bn256Pairing_Run env input"

definition RunPrecompiledContract ::
    "evm_env \<Rightarrow> PrecompiledContract \<Rightarrow> bytes \<Rightarrow> Contract \<Rightarrow> (Contract \<times> bytes \<times> vm_error option) outcome" where
  "RunPrecompiledContract env p input contract =
     obind (RequiredGas p input) (\<lambda>gas.
       (let (ok, contract') = UseGas gas contract in
        if ok then obind (Precompiled_Run env p input) (\<lambda>(ret, err). Ok (contract', ret, err))
        else Ok (contract', [], Some ErrOutOfGas)))"

end
