(* ===== verification/Rlp.thy ===== *)
theory Rlp
  imports Common_Math
begin

text \<open>
  Recursive length prefix encoding: \<open>common/rlp\<close> (encode.go, raw.go) and the address of a new
  contract, \<open>crypto.CreateAddress\<close>.

  The encoder collects string data in one buffer and keeps the list headers apart, with the offset
  at which each is to be inserted, until \<open>toBytes\<close> merges them; the model follows it.  The
  reflection that picks a writer for a Go type is replaced by the datatype \<open>rlp_val\<close> of what the
  writers distinguish.
\<close>

section \<open>Data\<close>

datatype rlp_val =
    RBytes bytes          \<comment> \<open>byte slices, byte arrays and strings\<close>
  | RUint u64
  | RBool bool
  | RBigInt bigint
  | RList "rlp_val list"  \<comment> \<open>slices and structs\<close>

record encbuf =
  eb_str :: bytes
  eb_lheads :: "(nat \<times> nat) list"     \<comment> \<open>listhead: offset, size\<close>
  eb_lhsize :: nat

section \<open>encode.go\<close>

definition putint :: "u64 \<Rightarrow> bytes" where
  "putint i =
     (if i < 0x100 then [ucast i]
      else if i < 0x10000 then [ucast (drop_bit 8 i), ucast i]
      else if i < 0x1000000 then [ucast (drop_bit 16 i), ucast (drop_bit 8 i), ucast i]
      else if i < 0x100000000 then
        [ucast (drop_bit 24 i), ucast (drop_bit 16 i), ucast (drop_bit 8 i), ucast i]
      else if i < 0x10000000000 then
        [ucast (drop_bit 32 i), ucast (drop_bit 24 i), ucast (drop_bit 16 i), ucast (drop_bit 8 i),
         ucast i]
      else if i < 0x1000000000000 then
        [ucast (drop_bit 40 i), ucast (drop_bit 32 i), ucast (drop_bit 24 i), ucast (drop_bit 16 i),
         ucast (drop_bit 8 i), ucast i]
      else if i < 0x100000000000000 then
        [ucast (drop_bit 48 i), ucast (drop_bit 40 i), ucast (drop_bit 32 i), ucast (drop_bit 24 i),
         ucast (drop_bit 16 i), ucast (drop_bit 8 i), ucast i]
      else
        [ucast (drop_bit 56 i), ucast (drop_bit 48 i), ucast (drop_bit 40 i), ucast (drop_bit 32 i),
         ucast (drop_bit 24 i), ucast (drop_bit 16 i), ucast (drop_bit 8 i), ucast i])"

function intsize_loop :: "u64 \<Rightarrow> nat \<Rightarrow> nat" where
  "intsize_loop i sz = (let i' = drop_bit 8 i in if i' = 0 then sz else intsize_loop i' (sz + 1))"
  by pat_completeness auto
termination
proof (relation "measure (\<lambda>(i, sz). unat i)")
  fix i i' :: u64 and sz :: nat
  assume "i' = drop_bit 8 i" "i' \<noteq> 0"
  then have "unat i' = unat i div 256" "unat i' \<noteq> 0"
    by (simp add: drop_bit_eq_div unat_div) (metis \<open>i' \<noteq> 0\<close> unat_eq_zero)
  then show "((i', sz + 1), i, sz) \<in> measure (\<lambda>(i, sz). unat i)" by auto
qed simp

declare intsize_loop.simps [simp del]

definition intsize :: "u64 \<Rightarrow> nat" where
  "intsize i = intsize_loop i 1"

definition headsize :: "u64 \<Rightarrow> nat" where
  "headsize sz = (if sz < 56 then 1 else 1 + intsize sz)"

definition puthead :: "byte \<Rightarrow> byte \<Rightarrow> u64 \<Rightarrow> bytes" where
  "puthead smalltag largetag sz =
     (if sz < 56 then [smalltag + ucast sz]
      else (largetag + of_nat (length (putint sz))) # putint sz)"

definition eb_append :: "bytes \<Rightarrow> encbuf \<Rightarrow> encbuf" where
  "eb_append b w = w\<lparr>eb_str := eb_str w @ b\<rparr>"

definition encodeStringHeader :: "nat \<Rightarrow> encbuf \<Rightarrow> encbuf" where
  "encodeStringHeader sz w =
     (if sz < 56 then eb_append [0x80 + of_nat sz] w
      else (let b = putint (of_nat sz) in eb_append ((0xB7 + of_nat (length b)) # b) w))"

definition encodeString :: "bytes \<Rightarrow> encbuf \<Rightarrow> encbuf" where
  "encodeString b w =
     (if length b = 1 \<and> b ! 0 \<le> 0x7F then eb_append [b ! 0] w
      else eb_append b (encodeStringHeader (length b) w))"

definition eb_list :: "encbuf \<Rightarrow> nat \<times> encbuf" where
  "eb_list w =
     (length (eb_lheads w), w\<lparr>eb_lheads := eb_lheads w @ [(length (eb_str w), eb_lhsize w)]\<rparr>)"

definition eb_size :: "encbuf \<Rightarrow> nat" where
  "eb_size w = length (eb_str w) + eb_lhsize w"

definition eb_listEnd :: "nat \<Rightarrow> encbuf \<Rightarrow> encbuf" where
  "eb_listEnd i w =
     (let (offset, sz) = eb_lheads w ! i;
          sz' = eb_size w - offset - sz
      in w\<lparr>eb_lheads := (eb_lheads w)[i := (offset, sz')],
           eb_lhsize := eb_lhsize w + (if sz' < 56 then 1 else 1 + intsize (of_nat sz'))\<rparr>)"

definition writeUint :: "u64 \<Rightarrow> encbuf \<Rightarrow> encbuf" where
  "writeUint i w =
     (if i = 0 then eb_append [0x80] w
      else if i < 128 then eb_append [ucast i] w
      else (let b = putint i in eb_append ((0x80 + of_nat (length b)) # b) w))"

definition writeBool :: "bool \<Rightarrow> encbuf \<Rightarrow> encbuf" where
  "writeBool b w = eb_append [if b then 0x01 else 0x80] w"

definition writeBigInt :: "bigint \<Rightarrow> encbuf \<Rightarrow> encbuf option" where
  "writeBigInt i w =
     (if i < 0 then None
      else if i = 0 then Some (eb_append [0x80] w)
      else Some (encodeString (big_Bytes i) w))"

fun encode_val :: "rlp_val \<Rightarrow> encbuf \<Rightarrow> encbuf option"
and encode_vals :: "rlp_val list \<Rightarrow> encbuf \<Rightarrow> encbuf option" where
  "encode_val (RBytes b) w = Some (encodeString b w)"
| "encode_val (RUint i) w = Some (writeUint i w)"
| "encode_val (RBool b) w = Some (writeBool b w)"
| "encode_val (RBigInt i) w = writeBigInt i w"
| "encode_val (RList vs) w =
     (let (lh, w1) = eb_list w
      in case encode_vals vs w1 of None \<Rightarrow> None | Some w2 \<Rightarrow> Some (eb_listEnd lh w2))"
| "encode_vals [] w = Some w"
| "encode_vals (v # vs) w =
     (case encode_val v w of None \<Rightarrow> None | Some w1 \<Rightarrow> encode_vals vs w1)"

text \<open>\<open>toBytes\<close> writes into a buffer of exactly \<open>size()\<close> bytes; a header that does not fit is an
  index out of range, \<open>None\<close>.\<close>

fun toBytes_loop :: "(nat \<times> nat) list \<Rightarrow> bytes \<Rightarrow> nat \<Rightarrow> nat \<Rightarrow> bytes \<Rightarrow> bytes option" where
  "toBytes_loop [] str strpos pos out =
     Some (slice_copy out pos (length out - pos) (drop strpos str))"
| "toBytes_loop ((offset, sz) # hs) str strpos pos out =
     (let piece = subslice str strpos offset;
          n = min (length out - pos) (length piece);
          out1 = slice_copy out pos n piece;
          enc = puthead 0xC0 0xF7 (of_nat sz)
      in if pos + n + length enc \<le> length out
         then toBytes_loop hs str (strpos + n) (pos + n + length enc)
                (slice_copy out1 (pos + n) (length enc) enc)
         else None)"

definition toBytes :: "encbuf \<Rightarrow> bytes option" where
  "toBytes w = toBytes_loop (eb_lheads w) (eb_str w) 0 0 (replicate (eb_size w) 0)"

definition EncodeToBytes :: "rlp_val \<Rightarrow> bytes option" where
  "EncodeToBytes v =
     (case encode_val v \<lparr>eb_str = [], eb_lheads = [], eb_lhsize = 0\<rparr> of
        None \<Rightarrow> None
      | Some w \<Rightarrow> toBytes w)"

section \<open>raw.go\<close>

datatype Kind = Byte | String | List

text \<open>\<open>DecodeErr\<close> is the \<open>decodeError\<close> of the type-directed decoders, by its message; \<open>DecFuel\<close> is not an
  error of the code but the model's loop counter.\<close>

datatype rlp_error =
    ErrUnexpectedEOF | ErrCanonSize | ErrValueTooLarge | ErrExpectedString | ErrExpectedList
  | EOL | IoEOF | ErrCanonInt | ErrElemTooLarge | ErrMoreThanOneValue
  | ErrNotInList | ErrNotAtEOL | ErrUintOverflow | ErrInvalidBool u64
  | DecodeErr string | DecFuel

datatype 'a rlp_res = RPanic | RErr rlp_error | ROk 'a

definition ListSize :: "u64 \<Rightarrow> u64" where
  "ListSize contentSize = of_nat (headsize contentSize) + contentSize"

text \<open>The big-endian sum of \<open>slen\<close> bytes that the eight cases of \<open>readSize\<close> write out.\<close>

definition be_u64 :: "bytes \<Rightarrow> u64" where
  "be_u64 bs = of_int (SetBytes bs)"

definition readSize :: "bytes \<Rightarrow> byte \<Rightarrow> rlp_error + u64" where
  "readSize b slen =
     (if unat slen > length b then Inl ErrUnexpectedEOF
      else (let s = be_u64 (take (unat slen) b)
            in if s < 56 \<or> b ! 0 = 0 then Inl ErrCanonSize else Inr s))"

definition readKind :: "bytes \<Rightarrow> (Kind \<times> u64 \<times> u64) rlp_res" where
  "readKind buf =
     (if buf = [] then RErr ErrUnexpectedEOF
      else
        (let b = buf ! 0;
             check = (\<lambda>k tagsize contentsize.
               if contentsize > of_nat (length buf) - tagsize then RErr ErrValueTooLarge
               else ROk (k, tagsize, contentsize))
         in if b < 0x80 then check Byte 0 1
            else if b < 0xB8 then
              (let contentsize = ucast (b - 0x80) in
               if contentsize = 1
               then (if length buf \<le> 1 then RPanic
                     else if buf ! 1 < 128 then RErr ErrCanonSize
                     else check String 1 contentsize)
               else check String 1 contentsize)
            else if b < 0xC0 then
              (case readSize (drop 1 buf) (b - 0xB7) of
                 Inl e \<Rightarrow> RErr e
               | Inr contentsize \<Rightarrow> check String (ucast (b - 0xB7) + 1) contentsize)
            else if b < 0xF8 then check List 1 (ucast (b - 0xC0))
            else
              (case readSize (drop 1 buf) (b - 0xF7) of
                 Inl e \<Rightarrow> RErr e
               | Inr contentsize \<Rightarrow> check List (ucast (b - 0xF7) + 1) contentsize)))"

definition rlp_Split :: "bytes \<Rightarrow> (Kind \<times> bytes \<times> bytes) rlp_res" where
  "rlp_Split b =
     (case readKind b of
        RPanic \<Rightarrow> RPanic
      | RErr e \<Rightarrow> RErr e
      | ROk (k, ts, cs) \<Rightarrow>
          ROk (k, subslice b (unat ts) (unat (ts + cs)), drop (unat (ts + cs)) b))"

definition SplitString :: "bytes \<Rightarrow> (bytes \<times> bytes) rlp_res" where
  "SplitString b =
     (case rlp_Split b of
        RPanic \<Rightarrow> RPanic
      | RErr e \<Rightarrow> RErr e
      | ROk (k, content, rest) \<Rightarrow> if k = List then RErr ErrExpectedString else ROk (content, rest))"

definition SplitList :: "bytes \<Rightarrow> (bytes \<times> bytes) rlp_res" where
  "SplitList b =
     (case rlp_Split b of
        RPanic \<Rightarrow> RPanic
      | RErr e \<Rightarrow> RErr e
      | ROk (k, content, rest) \<Rightarrow> if k \<noteq> List then RErr ErrExpectedList else ROk (content, rest))"

text \<open>\<open>CountValues\<close>; \<open>n\<close> bounds the number of passes.\<close>

fun CountValues_loop :: "nat \<Rightarrow> bytes \<Rightarrow> nat \<Rightarrow> nat rlp_res" where
  "CountValues_loop n b i =
     (if b = [] then ROk i
      else case n of
          0 \<Rightarrow> RErr DecFuel
        | Suc m \<Rightarrow>
            (case readKind b of
               RPanic \<Rightarrow> RPanic
             | RErr e \<Rightarrow> RErr e
             | ROk (k, tagsize, sz) \<Rightarrow> CountValues_loop m (drop (unat (tagsize + sz)) b) (i + 1)))"

declare CountValues_loop.simps [simp del]

definition CountValues :: "bytes \<Rightarrow> nat rlp_res" where
  "CountValues b = CountValues_loop (length b) b 0"

section \<open>crypto.CreateAddress\<close>

definition CreateAddress :: "(bytes \<Rightarrow> hash) \<Rightarrow> address \<Rightarrow> u64 \<Rightarrow> address" where
  "CreateAddress keccak b nonce =
     (let data = (case EncodeToBytes (RList [RBytes (Address_Bytes b), RUint nonce]) of
                    None \<Rightarrow> [] | Some d \<Rightarrow> d)
      in BytesToAddress (drop 12 (Hash_Bytes (keccak data))))"

end
