(* ===== verification/Evm_Calls.thy ===== *)
theory Evm_Calls
  imports Evm_Gas Evm_Instructions Evm_Precompiled Rlp
begin

text \<open>
  Message calls: \<open>hvm/hvm.go\<close> (CanTransfer, Transfer), \<open>hvm/evm/evm.go\<close> and the calling
  instructions of instructions.go.  A call runs the interpreter, which is the argument \<open>interp\<close>
  here; the loop of \<open>Evm_Interpreter\<close> closes the recursion.
\<close>

type_synonym runner = "evm \<Rightarrow> Contract \<Rightarrow> bytes \<Rightarrow> (evm \<times> Contract \<times> bytes \<times> vm_error option) outcome"
type_synonym callres = "(evm \<times> bytes \<times> u64 \<times> vm_error option) outcome"

section \<open>hvm.go\<close>

definition CanTransfer :: "state_env \<Rightarrow> address \<Rightarrow> bigint \<Rightarrow> StateDB \<Rightarrow> bool \<times> StateDB" where
  "CanTransfer E a amount db = (let (bal, db1) = GetBalance E a db in (bal \<ge> amount, db1))"

definition Transfer :: "state_env \<Rightarrow> address \<Rightarrow> address \<Rightarrow> bigint \<Rightarrow> StateDB \<Rightarrow> StateDB" where
  "Transfer E sender recipient amount db =
     AddBalance E recipient amount (SubBalance E sender amount db)"

section \<open>evm.go\<close>

definition evm_run :: "evm_env \<Rightarrow> runner \<Rightarrow> runner" where
  "evm_run env interp ev contract input =
     (case c_CodeAddr contract of
        Some a \<Rightarrow>
          (case PrecompiledContractsByzantium a of
             Some p \<Rightarrow>
               obind (RunPrecompiledContract env p input contract)
                 (\<lambda>(contract', ret, err). Ok (ev, contract', ret, err))
           | None \<Rightarrow> interp ev contract input)
      | None \<Rightarrow> interp ev contract input)"

text \<open>What the four call functions do with the result of \<open>run\<close>.\<close>

definition end_call ::
    "evm_env \<Rightarrow> nat \<Rightarrow> (evm \<times> Contract \<times> bytes \<times> vm_error option) outcome \<Rightarrow> callres" where
  "end_call env snapshot r =
     obind r (\<lambda>(ev, contract, ret, err).
       case err of
         None \<Rightarrow> Ok (ev, ret, c_Gas contract, None)
       | Some e \<Rightarrow>
           obind (of_option InvalidRevision
                    (RevertToSnapshot (ee_state env) snapshot (evm_StateDB ev))) (\<lambda>db.
             (let contract' = (if e \<noteq> ErrExecutionReverted then snd (UseGas (c_Gas contract) contract)
                               else contract)
              in Ok (ev\<lparr>evm_StateDB := db\<rparr>, ret, c_Gas contract', Some e))))"

text \<open>Load the code of \<open>addr\<close> into a new contract and run it.\<close>

definition run_code_of ::
    "evm_env \<Rightarrow> runner \<Rightarrow> nat \<Rightarrow> ContractRef \<Rightarrow> Contract \<Rightarrow> address \<Rightarrow> bytes \<Rightarrow> evm \<Rightarrow> callres" where
  "run_code_of env interp snapshot caller contract addr input ev =
     (let E = ee_state env;
          (h, db1) = GetCodeHash E addr (evm_StateDB ev);
          (code, db2) = GetCode E addr db1
      in end_call env snapshot
           (evm_run env interp
              (ev\<lparr>evm_StateDB := db2,
                  evm_jumpdests := NewContract_jumpdests caller (evm_jumpdests ev)\<rparr>)
              (SetCallCode addr h code contract) input))"

definition Call ::
    "evm_env \<Rightarrow> runner \<Rightarrow> ContractRef \<Rightarrow> address \<Rightarrow> bytes \<Rightarrow> u64 \<Rightarrow> bigint \<Rightarrow> evm \<Rightarrow> callres" where
  "Call env interp caller addr input gas val ev =
     (if ee_NoRecursion env \<and> evm_depth ev > 0 then Ok (ev, [], gas, None)
      else if evm_depth ev > CallCreateDepth then Ok (ev, [], gas, Some ErrDepth)
      else
        (let E = ee_state env;
             (can, db1) = CanTransfer E (ref_Address caller) val (evm_StateDB ev)
         in if \<not> can then Ok (ev\<lparr>evm_StateDB := db1\<rparr>, [], gas, Some ErrInsufficientBalance)
            else
              (let (snapshot, db2) = Snapshot db1;
                   (exists, db3) = Exist E addr db2
               in if \<not> exists \<and> PrecompiledContractsByzantium addr = None \<and> val = 0
                  then Ok (ev\<lparr>evm_StateDB := db3\<rparr>, [], gas, None)
                  else
                    (let db4 = (if exists then db3 else CreateAccount E addr db3);
                         db5 = Transfer E (ref_Address caller) addr val db4
                     in run_code_of env interp snapshot caller (NewContract caller addr val gas) addr
                          input (ev\<lparr>evm_StateDB := db5\<rparr>)))))"

definition CallCode ::
    "evm_env \<Rightarrow> runner \<Rightarrow> ContractRef \<Rightarrow> address \<Rightarrow> bytes \<Rightarrow> u64 \<Rightarrow> bigint \<Rightarrow> evm \<Rightarrow> callres" where
  "CallCode env interp caller addr input gas val ev =
     (if ee_NoRecursion env \<and> evm_depth ev > 0 then Ok (ev, [], gas, None)
      else if evm_depth ev > CallCreateDepth then Ok (ev, [], gas, Some ErrDepth)
      else
        (let E = ee_state env;
             (can, db1) = CanTransfer E (ref_Address caller) val (evm_StateDB ev)
         in if \<not> can then Ok (ev\<lparr>evm_StateDB := db1\<rparr>, [], gas, Some ErrInsufficientBalance)
            else
              (let (snapshot, db2) = Snapshot db1
               in run_code_of env interp snapshot caller
                    (NewContract caller (ref_Address caller) val gas) addr input
                    (ev\<lparr>evm_StateDB := db2\<rparr>))))"

definition DelegateCall ::
    "evm_env \<Rightarrow> runner \<Rightarrow> ContractRef \<Rightarrow> address \<Rightarrow> bytes \<Rightarrow> u64 \<Rightarrow> evm \<Rightarrow> callres" where
  "DelegateCall env interp caller addr input gas ev =
     (if ee_NoRecursion env \<and> evm_depth ev > 0 then Ok (ev, [], gas, None)
      else if evm_depth ev > CallCreateDepth then Ok (ev, [], gas, Some ErrDepth)
      else
        (let (snapshot, db1) = Snapshot (evm_StateDB ev)
         in obind (AsDelegate caller (NewContract caller (ref_Address caller) 0 gas)) (\<lambda>contract.
              run_code_of env interp snapshot caller contract addr input
                (ev\<lparr>evm_StateDB := db1\<rparr>))))"

definition StaticCall ::
    "evm_env \<Rightarrow> runner \<Rightarrow> ContractRef \<Rightarrow> address \<Rightarrow> bytes \<Rightarrow> u64 \<Rightarrow> evm \<Rightarrow> callres" where
  "StaticCall env interp caller addr input gas ev =
     (if ee_NoRecursion env \<and> evm_depth ev > 0 then Ok (ev, [], gas, None)
      else if evm_depth ev > CallCreateDepth then Ok (ev, [], gas, Some ErrDepth)
      else
        (let (snapshot, db1) = Snapshot (evm_StateDB ev)
         in obind (run_code_of env interp snapshot caller (NewContract caller addr 0 gas) addr input
                     (ev\<lparr>evm_StateDB := db1, evm_readOnly := True\<rparr>))
              (\<lambda>(ev', ret, left, err).
                 Ok (if evm_readOnly ev then ev' else ev'\<lparr>evm_readOnly := False\<rparr>, ret, left, err))))"

text \<open>The end of \<open>Create\<close>: store the code, or revert.\<close>

definition end_create ::
    "evm_env \<Rightarrow> nat \<Rightarrow> address \<Rightarrow> (evm \<times> Contract \<times> bytes \<times> vm_error option) outcome \<Rightarrow>
     (evm \<times> bytes \<times> address \<times> u64 \<times> vm_error option) outcome" where
  "end_create env snapshot contractAddr r =
     obind r (\<lambda>(ev, contract, ret, err).
       (let maxCodeSizeExceeded = (length ret > MaxCodeSize);
            (ev1, contract1, err1) =
              (if err = None \<and> \<not> maxCodeSizeExceeded then
                 (let createDataGas = of_nat (length ret) * CreateDataGas;
                      (ok, contract') = UseGas createDataGas contract
                  in if ok
                     then (ev\<lparr>evm_StateDB := SetCode (ee_state env) contractAddr ret (evm_StateDB ev)\<rparr>,
                           contract', None)
                     else (ev, contract', Some ErrCodeStoreOutOfGas))
               else (ev, contract, err))
        in if maxCodeSizeExceeded \<or> err1 \<noteq> None then
             obind (of_option InvalidRevision
                      (RevertToSnapshot (ee_state env) snapshot (evm_StateDB ev1))) (\<lambda>db.
               (let contract2 = (if err1 \<noteq> Some ErrExecutionReverted
                                 then snd (UseGas (c_Gas contract1) contract1) else contract1);
                    err2 = (if maxCodeSizeExceeded \<and> err1 = None then Some ErrMaxCodeSizeExceeded
                            else err1)
                in Ok (ev1\<lparr>evm_StateDB := db\<rparr>, ret, contractAddr, c_Gas contract2, err2)))
           else Ok (ev1, ret, contractAddr, c_Gas contract1, err1)))"

definition Create ::
    "evm_env \<Rightarrow> runner \<Rightarrow> ContractRef \<Rightarrow> bytes \<Rightarrow> u64 \<Rightarrow> bigint \<Rightarrow> evm \<Rightarrow>
     (evm \<times> bytes \<times> address \<times> u64 \<times> vm_error option) outcome" where
  "Create env interp caller code gas val ev =
     (let E = ee_state env; self = ref_Address caller in
      if evm_depth ev > CallCreateDepth then Ok (ev, [], 0, gas, Some ErrDepth)
      else
        (let (can, db1) = CanTransfer E self val (evm_StateDB ev) in
         if \<not> can then Ok (ev\<lparr>evm_StateDB := db1\<rparr>, [], 0, gas, Some ErrInsufficientBalance)
         else
           (let (nonce, db2) = GetNonce E self db1;
                db3 = SetNonce E self (nonce + 1) db2;
                contractAddr = CreateAddress (keccak256 E) self nonce;
                (contractHash, db4) = GetCodeHash E contractAddr db3;
                (cnonce, db5) = GetNonce E contractAddr db4
            in if cnonce \<noteq> 0 \<or> (contractHash \<noteq> 0 \<and> contractHash \<noteq> emptyCodeHash E)
               then Ok (ev\<lparr>evm_StateDB := db5\<rparr>, [], 0, 0, Some ErrContractAddressCollision)
               else
                 (let (snapshot, db6) = Snapshot db5;
                      db7 = CreateAccount E contractAddr db6;
                      db8 = SetNonce E contractAddr 1 db7;
                      db9 = Transfer E self contractAddr val db8;
                      contract = SetCallCode contractAddr (keccak256 E code) code
                                   (NewContract caller contractAddr val gas);
                      ev1 = ev\<lparr>evm_StateDB := db9,
                              evm_jumpdests := NewContract_jumpdests caller (evm_jumpdests ev)\<rparr>
                  in if ee_NoRecursion env \<and> evm_depth ev > 0
                     then Ok (ev1, [], contractAddr, gas, None)
                     else end_create env snapshot contractAddr
                            (evm_run env interp ev1 contract [])))))"

section \<open>instructions.go: calls\<close>

definition use_gas :: "u64 \<Rightarrow> frame \<Rightarrow> frame" where
  "use_gas gas fr = fr\<lparr>f_contract := snd (UseGas gas (f_contract fr))\<rparr>"

definition add_gas :: "u64 \<Rightarrow> frame \<Rightarrow> frame" where
  "add_gas gas fr = fr\<lparr>f_contract := (f_contract fr)\<lparr>c_Gas := c_Gas (f_contract fr) + gas\<rparr>\<rparr>"

definition opCreate :: "runner \<Rightarrow> evm_env \<Rightarrow> evm \<Rightarrow> frame \<Rightarrow> opres" where
  "opCreate interp env ev fr =
     pop fr (\<lambda>val fr. pop fr (\<lambda>offset fr. pop fr (\<lambda>sz fr.
     obind (Memory_Get (big_Int64 offset) (big_Int64 sz) (f_mem fr)) (\<lambda>input.
     (let gas0 = c_Gas (f_contract fr);
          gas = gas0 - gas0 div 64;
          fr1 = use_gas gas fr
      in obind (Create env interp (ContractOf (f_contract fr1)) input gas val ev)
           (\<lambda>(ev', res, addr, returnGas, suberr).
             (let fr2 = push (if suberr \<noteq> None then 0 else Address_Big addr) fr1;
                  fr3 = add_gas returnGas fr2
              in Ok (ev', fr3, if suberr = Some ErrExecutionReverted then res else [], None))))))))"

text \<open>What the four call instructions do with the result of the call.\<close>

definition end_call_op ::
    "bigint \<Rightarrow> bigint \<Rightarrow> frame \<Rightarrow> callres \<Rightarrow> opres" where
  "end_call_op retOffset retSize fr r =
     obind r (\<lambda>(ev, ret, returnGas, err).
       (let fr1 = push (if err \<noteq> None then 0 else 1) fr in
        obind (if err = None \<or> err = Some ErrExecutionReverted
               then Memory_Set (big_Uint64 retOffset) (big_Uint64 retSize) ret (f_mem fr1)
               else Ok (f_mem fr1))
          (\<lambda>m. Ok (ev, add_gas returnGas (fr1\<lparr>f_mem := m\<rparr>), ret, None))))"

definition opCall :: "runner \<Rightarrow> evm_env \<Rightarrow> evm \<Rightarrow> frame \<Rightarrow> opres" where
  "opCall interp env ev fr =
     pop fr (\<lambda>g fr. pop fr (\<lambda>addr fr. pop fr (\<lambda>v fr.
     pop fr (\<lambda>inOffset fr. pop fr (\<lambda>inSize fr. pop fr (\<lambda>retOffset fr. pop fr (\<lambda>retSize fr.
     (let val = U256 v in
      obind (Memory_Get (big_Int64 inOffset) (big_Int64 inSize) (f_mem fr)) (\<lambda>args.
      (let gas = big_Uint64 g + (if val \<noteq> 0 then CallStipend else 0) in
       end_call_op retOffset retSize fr
         (Call env interp (ContractOf (f_contract fr)) (BigToAddress addr) args gas val ev)))))))))))"

definition opCallCode :: "runner \<Rightarrow> evm_env \<Rightarrow> evm \<Rightarrow> frame \<Rightarrow> opres" where
  "opCallCode interp env ev fr =
     pop fr (\<lambda>g fr. pop fr (\<lambda>addr fr. pop fr (\<lambda>v fr.
     pop fr (\<lambda>inOffset fr. pop fr (\<lambda>inSize fr. pop fr (\<lambda>retOffset fr. pop fr (\<lambda>retSize fr.
     (let val = U256 v in
      obind (Memory_Get (big_Int64 inOffset) (big_Int64 inSize) (f_mem fr)) (\<lambda>args.
      (let gas = big_Uint64 g + (if val \<noteq> 0 then CallStipend else 0) in
       end_call_op retOffset retSize fr
         (CallCode env interp (ContractOf (f_contract fr)) (BigToAddress addr) args gas val ev)))))))))))"

definition opDelegateCall :: "runner \<Rightarrow> evm_env \<Rightarrow> evm \<Rightarrow> frame \<Rightarrow> opres" where
  "opDelegateCall interp env ev fr =
     pop fr (\<lambda>g fr. pop fr (\<lambda>to fr.
     pop fr (\<lambda>inOffset fr. pop fr (\<lambda>inSize fr. pop fr (\<lambda>outOffset fr. pop fr (\<lambda>outSize fr.
     obind (Memory_Get (big_Int64 inOffset) (big_Int64 inSize) (f_mem fr)) (\<lambda>args.
       end_call_op outOffset outSize fr
         (DelegateCall env interp (ContractOf (f_contract fr)) (BigToAddress to) args (big_Uint64 g) ev))))))))"

definition opStaticCall :: "runner \<Rightarrow> evm_env \<Rightarrow> evm \<Rightarrow> frame \<Rightarrow> opres" where
  "opStaticCall interp env ev fr =
     pop fr (\<lambda>g fr. pop fr (\<lambda>addr fr.
     pop fr (\<lambda>inOffset fr. pop fr (\<lambda>inSize fr. pop fr (\<lambda>retOffset fr. pop fr (\<lambda>retSize fr.
     obind (Memory_Get (big_Int64 inOffset) (big_Int64 inSize) (f_mem fr)) (\<lambda>args.
       end_call_op retOffset retSize fr
         (StaticCall env interp (ContractOf (f_contract fr)) (BigToAddress addr) args (big_Uint64 g) ev))))))))"

end
