(* ===== verification/Evm_Interpreter.thy ===== *)
theory Evm_Interpreter
  imports Evm_Calls
begin

text \<open>
  The jump table and the interpreter loop: \<open>hvm/evm/jump\_table.go\<close>, opcodes.go and
  interpreter.go.

  A call runs the interpreter and the interpreter's instructions make calls; the recursion is cut
  by fuel.  \<open>run_loop env (Suc n)\<close> performs one iteration of the interpreter loop, with
  \<open>run_loop env n\<close> for the following iterations and for the loops of inner calls.  Every iteration
  costs gas, so a fuel greater than the gas is enough.
\<close>

section \<open>opcodes.go\<close>

abbreviation "OP_STOP \<equiv> (0x00 :: byte)"
abbreviation "OP_ADD \<equiv> (0x01 :: byte)"
abbreviation "OP_MUL \<equiv> (0x02 :: byte)"
abbreviation "OP_SUB \<equiv> (0x03 :: byte)"
abbreviation "OP_DIV \<equiv> (0x04 :: byte)"
abbreviation "OP_SDIV \<equiv> (0x05 :: byte)"
abbreviation "OP_MOD \<equiv> (0x06 :: byte)"
abbreviation "OP_SMOD \<equiv> (0x07 :: byte)"
abbreviation "OP_ADDMOD \<equiv> (0x08 :: byte)"
abbreviation "OP_MULMOD \<equiv> (0x09 :: byte)"
abbreviation "OP_EXP \<equiv> (0x0a :: byte)"
abbreviation "OP_SIGNEXTEND \<equiv> (0x0b :: byte)"
abbreviation "OP_LT \<equiv> (0x10 :: byte)"
abbreviation "OP_GT \<equiv> (0x11 :: byte)"
abbreviation "OP_SLT \<equiv> (0x12 :: byte)"
abbreviation "OP_SGT \<equiv> (0x13 :: byte)"
abbreviation "OP_EQ \<equiv> (0x14 :: byte)"
abbreviation "OP_ISZERO \<equiv> (0x15 :: byte)"
abbreviation "OP_AND \<equiv> (0x16 :: byte)"
abbreviation "OP_OR \<equiv> (0x17 :: byte)"
abbreviation "OP_XOR \<equiv> (0x18 :: byte)"
abbreviation "OP_NOT \<equiv> (0x19 :: byte)"
abbreviation "OP_BYTE \<equiv> (0x1a :: byte)"
abbreviation "OP_SHA3 \<equiv> (0x20 :: byte)"
abbreviation "OP_ADDRESS \<equiv> (0x30 :: byte)"
abbreviation "OP_BALANCE \<equiv> (0x31 :: byte)"
abbreviation "OP_ORIGIN \<equiv> (0x32 :: byte)"
abbreviation "OP_CALLER \<equiv> (0x33 :: byte)"
abbreviation "OP_CALLVALUE \<equiv> (0x34 :: byte)"
abbreviation "OP_CALLDATALOAD \<equiv> (0x35 :: byte)"
abbreviation "OP_CALLDATASIZE \<equiv> (0x36 :: byte)"
abbreviation "OP_CALLDATACOPY \<equiv> (0x37 :: byte)"
abbreviation "OP_CODESIZE \<equiv> (0x38 :: byte)"
abbreviation "OP_CODECOPY \<equiv> (0x39 :: byte)"
abbreviation "OP_GASPRICE \<equiv> (0x3a :: byte)"
abbreviation "OP_EXTCODESIZE \<equiv> (0x3b :: byte)"
abbreviation "OP_EXTCODECOPY \<equiv> (0x3c :: byte)"
abbreviation "OP_RETURNDATASIZE \<equiv> (0x3d :: byte)"
abbreviation "OP_RETURNDATACOPY \<equiv> (0x3e :: byte)"
abbreviation "OP_BLOCKHASH \<equiv> (0x40 :: byte)"
abbreviation "OP_COINBASE \<equiv> (0x41 :: byte)"
abbreviation "OP_TIMESTAMP \<equiv> (0x42 :: byte)"
abbreviation "OP_NUMBER \<equiv> (0x43 :: byte)"
abbreviation "OP_DIFFICULTY \<equiv> (0x44 :: byte)"
abbreviation "OP_GASLIMIT \<equiv> (0x45 :: byte)"
abbreviation "OP_POP \<equiv> (0x50 :: byte)"
abbreviation "OP_MLOAD \<equiv> (0x51 :: byte)"
abbreviation "OP_MSTORE \<equiv> (0x52 :: byte)"
abbreviation "OP_MSTORE8 \<equiv> (0x53 :: byte)"
abbreviation "OP_SLOAD \<equiv> (0x54 :: byte)"
abbreviation "OP_SSTORE \<equiv> (0x55 :: byte)"
abbreviation "OP_JUMP \<equiv> (0x56 :: byte)"
abbreviation "OP_JUMPI \<equiv> (0x57 :: byte)"
abbreviation "OP_PC \<equiv> (0x58 :: byte)"
abbreviation "OP_MSIZE \<equiv> (0x59 :: byte)"
abbreviation "OP_GAS \<equiv> (0x5a :: byte)"
abbreviation "OP_DUP1 \<equiv> (0x80 :: byte)"
abbreviation "OP_SWAP1 \<equiv> (0x90 :: byte)"
abbreviation "OP_LOG0 \<equiv> (0xa0 :: byte)"
abbreviation "OP_CREATE \<equiv> (0xf0 :: byte)"
abbreviation "OP_CALL \<equiv> (0xf1 :: byte)"
abbreviation "OP_CALLCODE \<equiv> (0xf2 :: byte)"
abbreviation "OP_RETURN \<equiv> (0xf3 :: byte)"
abbreviation "OP_DELEGATECALL \<equiv> (0xf4 :: byte)"
abbreviation "OP_STATICCALL \<equiv> (0xfa :: byte)"
abbreviation "OP_REVERT \<equiv> (0xfd :: byte)"
abbreviation "OP_SELFDESTRUCT \<equiv> (0xff :: byte)"

section \<open>jump\_table.go\<close>

record operation =
  op_execute :: "runner \<Rightarrow> evm_env \<Rightarrow> evm \<Rightarrow> frame \<Rightarrow> opres"
  op_gasCost :: gasFunc
  op_validateStack :: "stack \<Rightarrow> vm_error option"
  op_memorySize :: "(stack \<Rightarrow> bigint outcome) option"
  op_halts :: bool
  op_jumps :: bool
  op_writes :: bool
  op_valid :: bool
  op_reverts :: bool
  op_returns :: bool

text \<open>A valid operation whose other flags are the zero value.\<close>

definition mk_op ::
    "(runner \<Rightarrow> evm_env \<Rightarrow> evm \<Rightarrow> frame \<Rightarrow> opres) \<Rightarrow> gasFunc \<Rightarrow> (stack \<Rightarrow> vm_error option) \<Rightarrow> operation" where
  "mk_op ex gas vs =
     \<lparr>op_execute = ex, op_gasCost = gas, op_validateStack = vs, op_memorySize = None,
      op_halts = False, op_jumps = False, op_writes = False, op_valid = True,
      op_reverts = False, op_returns = False\<rparr>"

definition plain ::
    "(evm_env \<Rightarrow> evm \<Rightarrow> frame \<Rightarrow> opres) \<Rightarrow> gasFunc \<Rightarrow> (stack \<Rightarrow> vm_error option) \<Rightarrow> operation" where
  "plain ex gas vs = mk_op (\<lambda>interp. ex) gas vs"

definition with_mem :: "(stack \<Rightarrow> bigint outcome) \<Rightarrow> operation \<Rightarrow> operation" where
  "with_mem f o1 = o1\<lparr>op_memorySize := Some f\<rparr>"

definition invalid_op :: operation where
  "invalid_op =
     (plain (\<lambda>env ev fr. Panic NilPointer) (\<lambda>gt env ev fr ms. Panic NilPointer) (\<lambda>st. None))
       \<lparr>op_valid := False\<rparr>"

definition frontier_arith :: "(byte \<times> operation) list" where
  "frontier_arith =
     [
      (OP_STOP, (plain opStop (constGasFunc 0) (makeStackFunc 0 0))\<lparr>op_halts := True\<rparr>),
      (OP_ADD, plain opAdd (constGasFunc GasFastestStep) (makeStackFunc 2 1)),
      (OP_MUL, plain opMul (constGasFunc GasFastStep) (makeStackFunc 2 1)),
      (OP_SUB, plain opSub (constGasFunc GasFastestStep) (makeStackFunc 2 1)),
      (OP_DIV, plain opDiv (constGasFunc GasFastStep) (makeStackFunc 2 1)),
      (OP_SDIV, plain opSdiv (constGasFunc GasFastStep) (makeStackFunc 2 1)),
      (OP_MOD, plain opMod (constGasFunc GasFastStep) (makeStackFunc 2 1)),
      (OP_SMOD, plain opSmod (constGasFunc GasFastStep) (makeStackFunc 2 1)),
      (OP_ADDMOD, plain opAddmod (constGasFunc GasMidStep) (makeStackFunc 3 1)),
      (OP_MULMOD, plain opMulmod (constGasFunc GasMidStep) (makeStackFunc 3 1)),
      (OP_EXP, plain opExp gasExp (makeStackFunc 2 1)),
      (OP_SIGNEXTEND, plain opSignExtend (constGasFunc GasFastStep) (makeStackFunc 2 1)),
      (OP_LT, plain opLt (constGasFunc GasFastestStep) (makeStackFunc 2 1)),
      (OP_GT, plain opGt (constGasFunc GasFastestStep) (makeStackFunc 2 1)),
      (OP_SLT, plain opSlt (constGasFunc GasFastestStep) (makeStackFunc 2 1)),
      (OP_SGT, plain opSgt (constGasFunc GasFastestStep) (makeStackFunc 2 1)),
      (OP_EQ, plain opEq (constGasFunc GasFastestStep) (makeStackFunc 2 1)),
      (OP_ISZERO, plain opIszero (constGasFunc GasFastestStep) (makeStackFunc 1 1)),
      (OP_AND, plain opAnd (constGasFunc GasFastestStep) (makeStackFunc 2 1)),
      (OP_XOR, plain opXor (constGasFunc GasFastestStep) (makeStackFunc 2 1)),
      (OP_OR, plain opOr (constGasFunc GasFastestStep) (makeStackFunc 2 1)),
      (OP_NOT, plain opNot (constGasFunc GasFastestStep) (makeStackFunc 1 1)),
      (OP_BYTE, plain opByte (constGasFunc GasFastestStep) (makeStackFunc 2 1))]"

definition frontier_context :: "(byte \<times> operation) list" where
  "frontier_context =
     [
      (OP_SHA3, with_mem memorySha3 (plain opSha3 gasSha3 (makeStackFunc 2 1))),
      (OP_ADDRESS, plain opAddress (constGasFunc GasQuickStep) (makeStackFunc 0 1)),
      (OP_BALANCE, plain opBalance gasBalance (makeStackFunc 1 1)),
      (OP_ORIGIN, plain opOrigin (constGasFunc GasQuickStep) (makeStackFunc 0 1)),
      (OP_CALLER, plain opCaller (constGasFunc GasQuickStep) (makeStackFunc 0 1)),
      (OP_CALLVALUE, plain opCallValue (constGasFunc GasQuickStep) (makeStackFunc 0 1)),
      (OP_CALLDATALOAD, plain opCallDataLoad (constGasFunc GasFastestStep) (makeStackFunc 1 1)),
      (OP_CALLDATASIZE, plain opCallDataSize (constGasFunc GasQuickStep) (makeStackFunc 0 1)),
      (OP_CALLDATACOPY, with_mem memoryCallDataCopy (plain opCallDataCopy gasCallDataCopy (makeStackFunc 3 0))),
      (OP_CODESIZE, plain opCodeSize (constGasFunc GasQuickStep) (makeStackFunc 0 1)),
      (OP_CODECOPY, with_mem memoryCodeCopy (plain opCodeCopy gasCodeCopy (makeStackFunc 3 0))),
      (OP_GASPRICE, plain opGasprice (constGasFunc GasQuickStep) (makeStackFunc 0 1)),
      (OP_EXTCODESIZE, plain opExtCodeSize gasExtCodeSize (makeStackFunc 1 1)),
      (OP_EXTCODECOPY, with_mem memoryExtCodeCopy (plain opExtCodeCopy gasExtCodeCopy (makeStackFunc 4 0))),
      (OP_BLOCKHASH, plain opBlockhash (constGasFunc GasExtStep) (makeStackFunc 1 1)),
      (OP_COINBASE, plain opCoinbase (constGasFunc GasQuickStep) (makeStackFunc 0 1)),
      (OP_TIMESTAMP, plain opTimestamp (constGasFunc GasQuickStep) (makeStackFunc 0 1)),
      (OP_NUMBER, plain opNumber (constGasFunc GasQuickStep) (makeStackFunc 0 1)),
      (OP_DIFFICULTY, plain opDifficulty (constGasFunc GasQuickStep) (makeStackFunc 0 1)),
      (OP_GASLIMIT, plain opGasLimit (constGasFunc GasQuickStep) (makeStackFunc 0 1))]"

definition frontier_storage :: "(byte \<times> operation) list" where
  "frontier_storage =
     [
      (OP_POP, plain opPop (constGasFunc GasQuickStep) (makeStackFunc 1 0)),
      (OP_MLOAD, with_mem memoryMLoad (plain opMload gasMLoad (makeStackFunc 1 1))),
      (OP_MSTORE, with_mem memoryMStore (plain opMstore gasMStore (makeStackFunc 2 0))),
      (OP_MSTORE8, with_mem memoryMStore8 (plain opMstore8 gasMStore8 (makeStackFunc 2 0))),
      (OP_SLOAD, plain opSload gasSLoad (makeStackFunc 1 1)),
      (OP_SSTORE, (plain opSstore gasSStore (makeStackFunc 2 0))\<lparr>op_writes := True\<rparr>),
      (OP_JUMP, (plain opJump (constGasFunc GasMidStep) (makeStackFunc 1 0))\<lparr>op_jumps := True\<rparr>),
      (OP_JUMPI, (plain opJumpi (constGasFunc GasSlowStep) (makeStackFunc 2 0))\<lparr>op_jumps := True\<rparr>),
      (OP_PC, plain opPc (constGasFunc GasQuickStep) (makeStackFunc 0 1)),
      (OP_MSIZE, plain opMsize (constGasFunc GasQuickStep) (makeStackFunc 0 1)),
      (OP_GAS, plain opGas (constGasFunc GasQuickStep) (makeStackFunc 0 1)),
      (OP_JUMPDEST, plain opJumpdest (constGasFunc JumpdestGas) (makeStackFunc 0 0))]"

definition frontier_push :: "(byte \<times> operation) list" where
  "frontier_push =
     map (\<lambda>n. (OP_PUSH1 + of_nat n, plain (makePush (of_nat (n + 1)) (n + 1)) gasPush (makeStackFunc 0 1)))
       [0..<32]"

definition frontier_dup :: "(byte \<times> operation) list" where
  "frontier_dup =
     map (\<lambda>n. (OP_DUP1 + of_nat n, plain (makeDup (n + 1)) gasDup (makeDupStackFunc (n + 1)))) [0..<16]"

definition frontier_swap :: "(byte \<times> operation) list" where
  "frontier_swap =
     map (\<lambda>n. (OP_SWAP1 + of_nat n, plain (makeSwap (n + 1)) gasSwap (makeSwapStackFunc (n + 2)))) [0..<16]"

definition frontier_log :: "(byte \<times> operation) list" where
  "frontier_log =
     map (\<lambda>n. (OP_LOG0 + of_nat n,
        (with_mem memoryLog (plain (makeLog n) (makeGasLog (of_nat n)) (makeStackFunc (n + 2) 0)))
          \<lparr>op_writes := True\<rparr>)) [0..<5]"

definition frontier_system :: "(byte \<times> operation) list" where
  "frontier_system =
     [
      (OP_CREATE, (with_mem memoryCreate (mk_op opCreate gasCreate (makeStackFunc 3 1)))\<lparr>op_writes := True, op_returns := True\<rparr>),
      (OP_CALL, (with_mem memoryCall (mk_op opCall gasCall (makeStackFunc 7 1)))\<lparr>op_returns := True\<rparr>),
      (OP_CALLCODE, (with_mem memoryCall (mk_op opCallCode gasCallCode (makeStackFunc 7 1)))\<lparr>op_returns := True\<rparr>),
      (OP_RETURN, (with_mem memoryReturn (plain opReturn gasReturn (makeStackFunc 2 0)))\<lparr>op_halts := True\<rparr>),
      (OP_SELFDESTRUCT, (plain opSuicide gasSuicide (makeStackFunc 1 0))\<lparr>op_halts := True, op_writes := True\<rparr>)]"

definition frontier_ops :: "(byte \<times> operation) list" where
  "frontier_ops =
     frontier_arith @ frontier_context @ frontier_storage @ frontier_push @ frontier_dup @
     frontier_swap @ frontier_log @ frontier_system"

definition NewFrontierInstructionSet :: "byte \<Rightarrow> operation" where
  "NewFrontierInstructionSet op =
     (case map_of frontier_ops op of Some o1 \<Rightarrow> o1 | None \<Rightarrow> invalid_op)"

definition NewHomesteadInstructionSet :: "byte \<Rightarrow> operation" where
  "NewHomesteadInstructionSet = NewFrontierInstructionSet
     (OP_DELEGATECALL :=
        (with_mem memoryDelegateCall (mk_op opDelegateCall gasDelegateCall (makeStackFunc 6 1)))
          \<lparr>op_returns := True\<rparr>)"

definition NewByzantiumInstructionSet :: "byte \<Rightarrow> operation" where
  "NewByzantiumInstructionSet = NewHomesteadInstructionSet
     (OP_STATICCALL :=
        (with_mem memoryStaticCall (mk_op opStaticCall gasStaticCall (makeStackFunc 6 1)))
          \<lparr>op_returns := True\<rparr>,
      OP_RETURNDATASIZE := plain opReturnDataSize (constGasFunc GasQuickStep) (makeStackFunc 0 1),
      OP_RETURNDATACOPY :=
        with_mem memoryReturnDataCopy (plain opReturnDataCopy gasReturnDataCopy (makeStackFunc 3 0)),
      OP_REVERT :=
        (with_mem memoryRevert (plain opRevert gasRevert (makeStackFunc 2 0)))
          \<lparr>op_reverts := True, op_returns := True\<rparr>)"

section \<open>interpreter.go\<close>

type_synonym looper = "evm \<Rightarrow> frame \<Rightarrow> opres"

definition enforceRestrictions ::
    "bool \<Rightarrow> byte \<Rightarrow> operation \<Rightarrow> stack \<Rightarrow> vm_error option outcome" where
  "enforceRestrictions readOnly op o1 st =
     (if readOnly then
        (if op_writes o1 then Ok (Some ErrWriteProtection)
         else if op = OP_CALL
         then obind (Back 2 st) (\<lambda>v. Ok (if BitLen v > 0 then Some ErrWriteProtection else None))
         else Ok None)
      else Ok None)"

text \<open>The memory size an operation needs, in bytes rounded up to words.\<close>

definition required_memory :: "operation \<Rightarrow> stack \<Rightarrow> (vm_error + u64) outcome" where
  "required_memory o1 st =
     (case op_memorySize o1 of
        None \<Rightarrow> Ok (Inr 0)
      | Some f \<Rightarrow>
          obind (f st) (\<lambda>sz.
            Ok (ebind (safe_big sz) (\<lambda>memSize. safe_mul (toWordSize memSize) 32))))"

text \<open>Charging for an operation: \<open>None\<close> when it cannot be paid.\<close>

definition charge ::
    "evm_env \<Rightarrow> operation \<Rightarrow> evm \<Rightarrow> frame \<Rightarrow> u64 \<Rightarrow> (evm \<times> frame \<times> bool) outcome" where
  "charge env o1 ev fr memorySize =
     (if ee_DisableGasMetering env then Ok (ev, fr, True)
      else
        obind (op_gasCost o1 GasTableEIP158 env ev fr memorySize) (\<lambda>(ev1, fr1, g).
          case g of
            Inl e \<Rightarrow> Ok (ev1, fr1, False)
          | Inr cost \<Rightarrow>
              (let (ok, contract) = UseGas cost (f_contract fr1)
               in Ok (ev1, fr1\<lparr>f_contract := contract\<rparr>, ok))))"

text \<open>What follows the execution of an operation.\<close>

definition after_execute :: "looper \<Rightarrow> operation \<Rightarrow> evm \<times> frame \<times> bytes \<times> vm_error option \<Rightarrow> opres" where
  "after_execute continue o1 r =
     (case r of (ev, fr, res, err) \<Rightarrow>
        (let ev1 = (if op_returns o1 then ev\<lparr>evm_returnData := res\<rparr> else ev) in
         case err of
           Some e \<Rightarrow> Ok (ev1, fr, [], Some e)
         | None \<Rightarrow>
             if op_reverts o1 then Ok (ev1, fr, res, Some ErrExecutionReverted)
             else if op_halts o1 then Ok (ev1, fr, res, None)
             else if \<not> op_jumps o1 then continue ev1 (fr\<lparr>f_pc := f_pc fr + 1\<rparr>)
             else continue ev1 fr))"

definition step :: "evm_env \<Rightarrow> runner \<Rightarrow> looper \<Rightarrow> looper" where
  "step env interp continue ev fr =
     (let op = GetOp (f_contract fr) (f_pc fr); o1 = NewByzantiumInstructionSet op in
      if \<not> op_valid o1 then Ok (ev, fr, [], Some (ErrInvalidOpcode op))
      else case op_validateStack o1 (f_stack fr) of
        Some e \<Rightarrow> Ok (ev, fr, [], Some e)
      | None \<Rightarrow>
          obind (enforceRestrictions (evm_readOnly ev) op o1 (f_stack fr)) (\<lambda>r.
          case r of
            Some e \<Rightarrow> Ok (ev, fr, [], Some e)
          | None \<Rightarrow>
              obind (required_memory o1 (f_stack fr)) (\<lambda>ms.
              case ms of
                Inl e \<Rightarrow> Ok (ev, fr, [], Some e)
              | Inr memorySize \<Rightarrow>
                  obind (charge env o1 ev fr memorySize) (\<lambda>(ev1, fr1, paid).
                  if \<not> paid then Ok (ev1, fr1, [], Some ErrOutOfGas)
                  else
                    (let fr2 = (if memorySize > 0
                                then fr1\<lparr>f_mem := Memory_Resize (unat memorySize) (f_mem fr1)\<rparr>
                                else fr1)
                     in obind (op_execute o1 interp env ev1 fr2) (after_execute continue o1))))))"

text \<open>One test of the \<open>abort\<close> flag, then one operation.\<close>

definition loop_body :: "evm_env \<Rightarrow> runner \<Rightarrow> looper \<Rightarrow> looper" where
  "loop_body env interp continue ev fr =
     (case evm_abort ev of
        Some 0 \<Rightarrow> Ok (ev, fr, [], None)
      | Some (Suc k) \<Rightarrow> step env interp continue (ev\<lparr>evm_abort := Some k\<rparr>) fr
      | None \<Rightarrow> step env interp continue ev fr)"

definition new_frame :: "Contract \<Rightarrow> frame" where
  "new_frame contract = \<lparr>f_pc = 0, f_stack = [], f_mem = NewMemory, f_contract = contract\<rparr>"

definition Interpreter_Run :: "looper \<Rightarrow> runner" where
  "Interpreter_Run loop ev contract input =
     (let ev1 = ev\<lparr>evm_depth := evm_depth ev + 1, evm_returnData := []\<rparr> in
      obind (if c_Code contract = [] then Ok (ev1, contract, [], None)
             else obind (loop ev1 (new_frame (contract\<lparr>c_Input := input\<rparr>)))
                    (\<lambda>(ev2, fr, ret, err). Ok (ev2, f_contract fr, ret, err)))
        (\<lambda>(ev2, c, ret, err). Ok (ev2\<lparr>evm_depth := evm_depth ev2 - 1\<rparr>, c, ret, err)))"

primrec run_loop :: "evm_env \<Rightarrow> nat \<Rightarrow> looper" where
  "run_loop env 0 ev fr = OutOfFuel"
| "run_loop env (Suc n) ev fr = loop_body env (Interpreter_Run (run_loop env n)) (run_loop env n) ev fr"

definition interpreter :: "evm_env \<Rightarrow> nat \<Rightarrow> runner" where
  "interpreter env n = Interpreter_Run (run_loop env n)"

definition Cancel :: "evm \<Rightarrow> evm" where
  "Cancel ev = ev\<lparr>evm_abort := Some 0\<rparr>"

definition NewEVM :: "StateDB \<Rightarrow> evm" where
  "NewEVM db =
     \<lparr>evm_StateDB = db, evm_depth = 0, evm_readOnly = False, evm_returnData = [],
      evm_jumpdests = Map.empty, evm_abort = None\<rparr>"

end
