(* ===== verification/State_Transition.thy ===== *)
theory State_Transition
  imports Evm_Interpreter
begin

text \<open>
  Applying a message to the state: \<open>blockchain/state_transition.go\<close>, the gas pool of
  \<open>hvm/gaspool.go\<close>, \<open>hvm/native/native.go\<close>, the context of \<open>hvm/hvm.go\<close> and the intrinsic gas of
  \<open>types/transaction.go\<close>.  Errors are returned together with the state and the gas pool the Go code
  leaves behind, because the callers see those mutations too.
\<close>

section \<open>Data\<close>

record Header =
  h_ParentHash :: hash
  h_UncleHash :: hash
  h_Coinbase :: address
  h_Root :: hash
  h_TxHash :: hash
  h_ReceiptHash :: hash
  h_Bloom :: "2048 word"
  h_Difficulty :: bigint
  h_Number :: bigint
  h_GasLimit :: bigint
  h_GasUsed :: bigint
  h_Time :: bigint
  h_Extra :: bytes

record Message =
  m_to :: "address option"
  m_from :: address
  m_nonce :: u64
  m_amount :: bigint
  m_price :: bigint
  m_gasLimit :: bigint
  m_data :: bytes
  m_checkNonce :: bool

text \<open>What the transition reads from the chain: the cryptographic parameters of the machine, the
  \<open>Author\<close> method of the consensus engine and the hashes of earlier blocks.\<close>

record chain_ctx =
  cc_vm :: evm_env
  cc_Author :: "Header \<Rightarrow> address"
  cc_GetHash :: "Header \<Rightarrow> u64 \<Rightarrow> hash"

abbreviation cc_state :: "chain_ctx \<Rightarrow> state_env" where
  "cc_state cc \<equiv> ee_state (cc_vm cc)"

datatype tx_error =
    TxOutOfGas | InsufficientBalanceForGas | TxInsufficientBalance | GasLimitReached
  | NonceTooHigh | NonceTooLow | VmErr vm_error

record StateTransition =
  st_gp :: bigint
  st_msg :: Message
  st_gas :: u64
  st_gasPrice :: bigint
  st_initialGas :: bigint
  st_value :: bigint
  st_data :: bytes
  st_state :: StateDB
  st_native :: bool
  st_header :: Header
  st_author :: "address option"

abbreviation "TxGas \<equiv> (10 :: int)"
abbreviation "TxGasContractCreation \<equiv> (53000 :: int)"
abbreviation "TxDataZeroGas \<equiv> (1 :: int)"
abbreviation "TxDataNonZeroGas \<equiv> (1 :: int)"

section \<open>Gas pool, intrinsic gas, context\<close>

definition AddGas :: "bigint \<Rightarrow> bigint \<Rightarrow> bigint" where
  "AddGas amount gp = gp + amount"

definition SubGas :: "bigint \<Rightarrow> bigint \<Rightarrow> tx_error + bigint" where
  "SubGas amount gp = (if gp < amount then Inl GasLimitReached else Inr (gp - amount))"

definition IntrinsicGas :: "bytes \<Rightarrow> bool \<Rightarrow> bigint" where
  "IntrinsicGas data contractCreation =
     (let igas = (if contractCreation then TxGasContractCreation else TxGas) in
      if length data > 0 then
        (let nz = int (length (filter (\<lambda>byt. byt \<noteq> 0) data))
         in igas + nz * TxDataNonZeroGas + (int (length data) - nz) * TxDataZeroGas)
      else igas)"

definition beneficiary_of :: "chain_ctx \<Rightarrow> Header \<Rightarrow> address option \<Rightarrow> address" where
  "beneficiary_of cc header author = (case author of None \<Rightarrow> cc_Author cc header | Some a \<Rightarrow> a)"

definition NewEVMContext :: "chain_ctx \<Rightarrow> Message \<Rightarrow> Header \<Rightarrow> address option \<Rightarrow> evm_env" where
  "NewEVMContext cc msg header author =
     (cc_vm cc)\<lparr>ee_GetHash := cc_GetHash cc header, ee_Origin := m_from msg,
        ee_Coinbase := beneficiary_of cc header author, ee_BlockNumber := h_Number header,
        ee_Time := h_Time header, ee_Difficulty := h_Difficulty header, ee_GasLimit := h_GasLimit header,
        ee_GasPrice := m_price msg, ee_NoRecursion := False, ee_DisableGasMetering := False,
        ee_EnablePreimageRecording := False\<rparr>"

definition native_CanTransfer :: "state_env \<Rightarrow> address \<Rightarrow> bigint \<Rightarrow> StateDB \<Rightarrow> bool \<times> StateDB" where
  "native_CanTransfer E addr amount db = (let (bal, db1) = GetBalance E addr db in (bal \<ge> amount, db1))"

definition native_Transfer :: "state_env \<Rightarrow> address \<Rightarrow> address \<Rightarrow> bigint \<Rightarrow> StateDB \<Rightarrow> StateDB" where
  "native_Transfer E sender recipient amount db =
     AddBalance E recipient amount (SubBalance E sender amount db)"

section \<open>state\_transition.go\<close>

definition NewStateTransition ::
    "chain_ctx \<Rightarrow> Message \<Rightarrow> bigint \<Rightarrow> StateDB \<Rightarrow> Header \<Rightarrow> address option \<Rightarrow> StateTransition" where
  "NewStateTransition cc msg gp db header author =
     (let (sz, db1) = (if m_to msg \<noteq> None then GetCodeSize (cc_state cc) (m_from msg) db else (0, db))
      in \<lparr>st_gp = gp, st_msg = msg, st_gas = 0, st_gasPrice = m_price msg, st_initialGas = 0,
          st_value = m_amount msg, st_data = m_data msg, st_state = db1,
          st_native = (m_to msg \<noteq> None \<and> sz = 0), st_header = header, st_author = author\<rparr>)"

text \<open>The account of the sender or recipient is created when it does not exist.\<close>

definition ensure_account :: "state_env \<Rightarrow> address \<Rightarrow> StateDB \<Rightarrow> StateDB" where
  "ensure_account E a db = (let (b, db1) = Exist E a db in if b then db1 else CreateAccount E a db1)"

definition st_from :: "chain_ctx \<Rightarrow> StateTransition \<Rightarrow> address \<times> StateTransition" where
  "st_from cc st =
     (m_from (st_msg st), st\<lparr>st_state := ensure_account (cc_state cc) (m_from (st_msg st)) (st_state st)\<rparr>)"

definition st_to :: "chain_ctx \<Rightarrow> StateTransition \<Rightarrow> address \<times> StateTransition" where
  "st_to cc st =
     (case m_to (st_msg st) of
        None \<Rightarrow> (0, st)
      | Some a \<Rightarrow> (a, st\<lparr>st_state := ensure_account (cc_state cc) a (st_state st)\<rparr>))"

definition useGas :: "u64 \<Rightarrow> StateTransition \<Rightarrow> tx_error + StateTransition" where
  "useGas amount st =
     (if st_gas st < amount then Inl TxOutOfGas else Inr (st\<lparr>st_gas := st_gas st - amount\<rparr>))"

definition gasUsed :: "StateTransition \<Rightarrow> bigint" where
  "gasUsed st = st_initialGas st - uint (st_gas st)"

definition buyGas :: "chain_ctx \<Rightarrow> StateTransition \<Rightarrow> StateTransition \<times> tx_error option" where
  "buyGas cc st =
     (let mgas = m_gasLimit (st_msg st) in
      if BitLen mgas > 64 then (st, Some TxOutOfGas)
      else
        (let mgval = mgas * st_gasPrice st;
             (sender, st1) = st_from cc st;
             (bal, db1) = GetBalance (cc_state cc) sender (st_state st1);
             st2 = st1\<lparr>st_state := db1\<rparr>
         in if bal < mgval then (st2, Some InsufficientBalanceForGas)
            else case SubGas mgas (st_gp st2) of
                Inl e \<Rightarrow> (st2, Some e)
              | Inr gp' \<Rightarrow>
                  (st2\<lparr>st_gp := gp', st_gas := st_gas st2 + big_Uint64 mgas, st_initialGas := mgas,
                       st_state := SubBalance (cc_state cc) sender mgval (st_state st2)\<rparr>, None)))"

definition preCheck :: "chain_ctx \<Rightarrow> StateTransition \<Rightarrow> StateTransition \<times> tx_error option" where
  "preCheck cc st =
     (let msg = st_msg st; (sender, st1) = st_from cc st in
      if m_checkNonce msg then
        (let (nonce, db1) = GetNonce (cc_state cc) sender (st_state st1);
             st2 = st1\<lparr>st_state := db1\<rparr>
         in if nonce < m_nonce msg then (st2, Some NonceTooHigh)
            else if nonce > m_nonce msg then (st2, Some NonceTooLow)
            else buyGas cc st2)
      else buyGas cc st1)"

text \<open>\<open>GetRefund\<close> returns the counter of the database itself, so when the counter is the smaller of the
  two arguments of \<open>BigMin\<close>, the in-place multiplication overwrites it.\<close>

definition refundGas :: "chain_ctx \<Rightarrow> StateTransition \<Rightarrow> StateTransition" where
  "refundGas cc st =
     (let E = cc_state cc;
          (sender, st1) = st_from cc st;
          remaining = uint (st_gas st1) * st_gasPrice st1;
          db1 = AddBalance E sender remaining (st_state st1);
          uhalf = gasUsed st1 div 2;
          counter = GetRefund db1;
          refund = BigMin uhalf counter;
          gas' = st_gas st1 + big_Uint64 refund;
          amount = refund * st_gasPrice st1;
          db2 = (if uhalf > counter then db1\<lparr>sd_refund := amount\<rparr> else db1);
          db3 = AddBalance E sender amount db2
      in st1\<lparr>st_gas := gas', st_state := db3, st_gp := AddGas (uint gas') (st_gp st1)\<rparr>)"

type_synonym transition = "StateTransition \<times> (tx_error + bytes \<times> bigint \<times> bigint \<times> bool)"

definition TransitionOnNative :: "chain_ctx \<Rightarrow> StateTransition \<Rightarrow> transition" where
  "TransitionOnNative cc st =
     (let E = cc_state cc;
          msg = st_msg st;
          from = m_from msg;
          (dest, st1) = st_to cc st;
          (can, db2) = native_CanTransfer E from (m_amount msg) (st_state st1);
          st2 = st1\<lparr>st_state := db2\<rparr>
      in if \<not> can then (st2, Inl TxInsufficientBalance)
         else
           (let (to2, st3) = st_to cc st2;
                (b, db4) = Exist E to2 (st_state st3);
                db5 = (if b then db4 else CreateAccount E dest db4);
                db6 = native_Transfer E from dest (m_amount msg) db5;
                st6 = st3\<lparr>st_state := db6\<rparr>;
                requiredGas = gasUsed st6;
                st7 = refundGas cc st6;
                beneficiary = beneficiary_of cc (st_header st7) (st_author st7);
                st8 = st7\<lparr>st_state := AddBalance E beneficiary (gasUsed st7 * st_gasPrice st7) (st_state st7)\<rparr>
            in (st8, Inr ([], requiredGas, gasUsed st8, False))))"

text \<open>The interpreter is the model of \<open>Evm_Interpreter\<close> with \<open>n\<close> passes.\<close>

definition vm_apply ::
    "chain_ctx \<Rightarrow> nat \<Rightarrow> evm_env \<Rightarrow> StateTransition \<Rightarrow>
     (StateTransition \<times> bytes \<times> vm_error option) outcome" where
  "vm_apply cc n env st =
     (let E = cc_state cc;
          (sender, st1) = st_from cc st
      in case m_to (st_msg st) of
           None \<Rightarrow>
             obind (Create env (interpreter env n) (AccountRef sender) (st_data st1) (st_gas st1)
                      (st_value st1) (NewEVM (st_state st1)))
               (\<lambda>(ev, ret, addr, left, vmerr).
                  Ok (st1\<lparr>st_gas := left, st_state := evm_StateDB ev\<rparr>, ret, vmerr))
         | Some a \<Rightarrow>
             (let (nonce, db2) = GetNonce E sender (st_state st1);
                  db3 = SetNonce E sender (nonce + 1) db2;
                  (dest, st3) = st_to cc (st1\<lparr>st_state := db3\<rparr>)
              in obind (Call env (interpreter env n) (AccountRef sender) dest (st_data st3) (st_gas st3)
                          (st_value st3) (NewEVM (st_state st3)))
                   (\<lambda>(ev, ret, left, vmerr).
                      Ok (st3\<lparr>st_gas := left, st_state := evm_StateDB ev\<rparr>, ret, vmerr))))"

definition TransitionOnEVM :: "chain_ctx \<Rightarrow> nat \<Rightarrow> StateTransition \<Rightarrow> transition outcome" where
  "TransitionOnEVM cc n st =
     (let E = cc_state cc;
          env = NewEVMContext cc (st_msg st) (st_header st) (st_author st)
      in obind (vm_apply cc n env st) (\<lambda>(st1, ret, vmerr).
           if vmerr = Some ErrInsufficientBalance then Ok (st1, Inl (VmErr ErrInsufficientBalance))
           else
             (let requiredGas = gasUsed st1;
                  st2 = refundGas cc st1;
                  st3 = st2\<lparr>st_state :=
                    AddBalance E (ee_Coinbase env) (gasUsed st2 * st_gasPrice st2) (st_state st2)\<rparr>
              in Ok (st3, Inr (ret, requiredGas, gasUsed st3, vmerr \<noteq> None)))))"

definition ApplyMessage ::
    "chain_ctx \<Rightarrow> nat \<Rightarrow> Header \<Rightarrow> StateDB \<Rightarrow> address option \<Rightarrow> Message \<Rightarrow> bigint \<Rightarrow>
     (bigint \<times> StateDB \<times> (tx_error + bytes \<times> bigint \<times> bool)) outcome" where
  "ApplyMessage cc n header db author msg gp =
     (let (st, err) = preCheck cc (NewStateTransition cc msg gp db header author) in
      case err of
        Some e \<Rightarrow> Ok (st_gp st, st_state st, Inl e)
      | None \<Rightarrow>
          (let intrinsicGas = IntrinsicGas (st_data st) (m_to msg = None) in
           if BitLen intrinsicGas > 64 then Ok (st_gp st, st_state st, Inl TxOutOfGas)
           else case useGas (big_Uint64 intrinsicGas) st of
               Inl e \<Rightarrow> Ok (st_gp st, st_state st, Inl e)
             | Inr st1 \<Rightarrow>
                 obind (if st_native st1 then Ok (TransitionOnNative cc st1) else TransitionOnEVM cc n st1)
                   (\<lambda>(st2, r). Ok (st_gp st2, st_state st2,
                      case r of Inl e \<Rightarrow> Inl e
                      | Inr (ret, requiredGas, used, failed) \<Rightarrow> Inr (ret, used, failed)))))"

end
