(* ===== verification/Evm_Relations.thy ===== *)
theory Evm_Relations
  imports State_Refine Evm_Calls
begin

text \<open>
  How the virtual machine may change the account state.  \<open>a_step\<close> collects what holds between the
  abstract states before and after any piece of execution: balances and the refund counter stay
  non-negative, no value is created, and in read-only mode nothing observable changes except that empty accounts may appear.
  \<open>db_step\<close> adds that the database change can be undone.  Both are reflexive and transitive, and
  the database operations the machine uses are instances.
\<close>

section \<open>Relations on abstract states\<close>

definition bal_ok :: "abs_state \<Rightarrow> bool" where
  "bal_ok A \<longleftrightarrow> (\<forall>a ac. as_accounts A a = Some ac \<longrightarrow> 0 \<le> aa_balance ac)"

definition abs_balance_of :: "abs_state \<Rightarrow> address \<Rightarrow> bigint" where
  "abs_balance_of A a = a_get a aa_balance 0 A"

definition total_supply :: "abs_state \<Rightarrow> bigint" where
  "total_supply A = (\<Sum>a \<in> dom (as_accounts A). abs_balance_of A a)"

definition no_mint :: "abs_state \<Rightarrow> abs_state \<Rightarrow> bool" where
  "no_mint A B \<longleftrightarrow>
     (finite (dom (as_accounts A)) \<longrightarrow> finite (dom (as_accounts B)) \<and> total_supply B \<le> total_supply A)"

definition ro_rel :: "state_env \<Rightarrow> abs_state \<Rightarrow> abs_state \<Rightarrow> bool" where
  "ro_rel E A B \<longleftrightarrow>
     as_refund B = as_refund A \<and> as_logs B = as_logs A \<and> as_logSize B = as_logSize A \<and>
     (\<forall>a. as_accounts B a = as_accounts A a \<or>
          (as_accounts A a = None \<and> as_accounts B a = Some (fresh_account E a)))"

definition a_step :: "state_env \<Rightarrow> bool \<Rightarrow> abs_state \<Rightarrow> abs_state \<Rightarrow> bool" where
  "a_step E ro A B \<longleftrightarrow>
     (bal_ok A \<longrightarrow> bal_ok B) \<and> no_mint A B \<and> (0 \<le> as_refund A \<longrightarrow> 0 \<le> as_refund B) \<and>
     (ro \<longrightarrow> ro_rel E A B)"

definition db_step :: "state_env \<Rightarrow> bool \<Rightarrow> StateDB \<Rightarrow> StateDB \<Rightarrow> bool" where
  "db_step E ro s t \<longleftrightarrow> ext E s t \<and> a_step E ro (abs_db E s) (abs_db E t)"

named_theorems db_steps \<open>database operations as steps\<close>

section \<open>Order properties\<close>

lemma no_mint_refl [simp]: "no_mint A A"
  by (simp add: no_mint_def)

lemma ro_rel_refl [simp]: "ro_rel E A A"
  by (simp add: ro_rel_def)

lemma ro_rel_trans: "ro_rel E A B \<Longrightarrow> ro_rel E B C \<Longrightarrow> ro_rel E A C"
  unfolding ro_rel_def by (metis option.distinct(1))

lemma a_step_refl [simp]: "a_step E ro A A"
  by (simp add: a_step_def)

lemma no_mint_trans: "no_mint A B \<Longrightarrow> no_mint B C \<Longrightarrow> no_mint A C"
  unfolding no_mint_def by auto

lemma a_step_trans: "a_step E ro A B \<Longrightarrow> a_step E ro B C \<Longrightarrow> a_step E ro A C"
  unfolding a_step_def using ro_rel_trans no_mint_trans by blast

lemma a_step_weaken: "a_step E True A B \<Longrightarrow> a_step E ro A B"
  by (simp add: a_step_def)

lemma db_step_refl [simp]: "db_inv E s \<Longrightarrow> db_step E ro s s"
  by (simp add: db_step_def)

lemma db_step_trans [trans]: "db_step E ro s t \<Longrightarrow> db_step E ro t u \<Longrightarrow> db_step E ro s u"
  unfolding db_step_def using ext_trans a_step_trans by blast

lemma db_step_inv: "db_step E ro s t \<Longrightarrow> db_inv E t"
  by (auto simp: db_step_def)

lemma db_step_bal: "db_step E ro s t \<Longrightarrow> bal_ok (abs_db E s) \<Longrightarrow> bal_ok (abs_db E t)"
  by (simp add: db_step_def a_step_def)

lemma db_step_same: "ext E s t \<Longrightarrow> abs_db E t = abs_db E s \<Longrightarrow> db_step E ro s t"
  by (simp add: db_step_def)

lemma db_step_reads: "reads E f F \<Longrightarrow> db_inv E s \<Longrightarrow> db_step E ro s (snd (f s))"
  by (simp add: reads_def db_step_same)

lemma db_step_refines:
  "refines E f F \<Longrightarrow> db_inv E s \<Longrightarrow> a_step E ro (abs_db E s) (F (abs_db E s)) \<Longrightarrow> db_step E ro s (f s)"
  by (simp add: refines_def db_step_def)

section \<open>Totals\<close>

lemma abs_balance_upd [simp]:
  "abs_balance_of (A\<lparr>as_accounts := (as_accounts A)(a \<mapsto> ac)\<rparr>) =
   (abs_balance_of A)(a := aa_balance ac)"
  by (auto simp: abs_balance_of_def a_get_def fun_eq_iff)

lemma abs_balance_none [simp]: "as_accounts A a = None \<Longrightarrow> abs_balance_of A a = 0"
  by (simp add: abs_balance_of_def a_get_def)

lemma total_upd:
  assumes "finite (dom (as_accounts A))"
  shows "total_supply (A\<lparr>as_accounts := (as_accounts A)(a \<mapsto> ac)\<rparr>) =
    total_supply A + aa_balance ac - abs_balance_of A a"
proof -
  let ?D = "dom (as_accounts A)"
  have "total_supply (A\<lparr>as_accounts := (as_accounts A)(a \<mapsto> ac)\<rparr>) =
      (\<Sum>b \<in> insert a ?D. ((abs_balance_of A)(a := aa_balance ac)) b)"
    by (simp add: total_supply_def)
  also have "\<dots> = aa_balance ac + (\<Sum>b \<in> ?D - {a}. abs_balance_of A b)"
    using assms by (simp add: sum.insert_remove)
  also have "(\<Sum>b \<in> ?D - {a}. abs_balance_of A b) = total_supply A - abs_balance_of A a"
  proof (cases "a \<in> ?D")
    case True
    then show ?thesis using assms by (simp add: total_supply_def sum_diff1)
  next
    case False
    then have "abs_balance_of A a = 0" by (auto simp: dom_def)
    with False show ?thesis by (simp add: total_supply_def)
  qed
  finally show ?thesis by linarith
qed

lemma no_mint_upd:
  "aa_balance ac \<le> abs_balance_of A a \<Longrightarrow>
   no_mint A (A\<lparr>as_accounts := (as_accounts A)(a \<mapsto> ac)\<rparr>)"
  by (simp add: no_mint_def total_upd)

lemma a_on_eq:
  "a_on E a g A = A\<lparr>as_accounts := (as_accounts A)(a \<mapsto>
     g (case as_accounts A a of None \<Rightarrow> fresh_account E a | Some ac \<Rightarrow> ac))\<rparr>"
  by (auto simp: a_on_def a_update_def a_new_def split: option.splits)

definition account_or_new :: "state_env \<Rightarrow> address \<Rightarrow> abs_state \<Rightarrow> abs_account" where
  "account_or_new E a A = (case as_accounts A a of None \<Rightarrow> fresh_account E a | Some ac \<Rightarrow> ac)"

lemma account_or_new_balance: "aa_balance (account_or_new E a A) = abs_balance_of A a"
  by (simp add: account_or_new_def abs_balance_of_def a_get_def split: option.splits)

lemma a_on_alt:
  "a_on E a g A = A\<lparr>as_accounts := (as_accounts A)(a \<mapsto> g (account_or_new E a A))\<rparr>"
  by (simp add: a_on_eq account_or_new_def)

lemma bal_ok_upd: "bal_ok A \<Longrightarrow> 0 \<le> aa_balance ac \<Longrightarrow> bal_ok (A\<lparr>as_accounts := (as_accounts A)(a \<mapsto> ac)\<rparr>)"
  by (auto simp: bal_ok_def)

lemma bal_ok_balance: "bal_ok A \<Longrightarrow> 0 \<le> abs_balance_of A a"
  by (auto simp: bal_ok_def abs_balance_of_def a_get_def split: option.splits)

text \<open>A change of one account that keeps or lowers its balance.\<close>

lemma a_step_on:
  assumes "\<And>ac. aa_balance (g ac) = aa_balance ac"
  shows "a_step E False A (a_on E a g A)"
  using assms unfolding a_step_def a_on_alt
  by (auto simp: account_or_new_balance bal_ok_balance intro!: bal_ok_upd no_mint_upd)

section \<open>Database operations\<close>

lemma load_step [db_steps]:
  assumes "db_inv E s"
  shows "db_step E ro s (snd (Exist E a s))" "db_step E ro s (snd (Empty E a s))"
    "db_step E ro s (snd (GetBalance E a s))" "db_step E ro s (snd (GetNonce E a s))"
    "db_step E ro s (snd (GetCodeHash E a s))" "db_step E ro s (snd (HasSuicided E a s))"
    "db_step E ro s (snd (GetState E a k s))" "db_step E ro s (snd (GetCode E a s))"
  by (rule db_step_reads [OF Exist_reads assms] db_step_reads [OF Empty_reads assms]
      db_step_reads [OF GetBalance_reads assms] db_step_reads [OF GetNonce_reads assms]
      db_step_reads [OF GetCodeHash_reads assms] db_step_reads [OF HasSuicided_reads assms]
      db_step_reads [OF GetState_reads assms] db_step_reads [OF GetCode_reads assms])+

lemma GetCodeSize_step [db_steps]: "db_inv E s \<Longrightarrow> db_step E ro s (snd (GetCodeSize E a s))"
  using GetCodeSize_extends by (simp add: db_step_same)

lemma Snapshot_step [db_steps]: "db_inv E s \<Longrightarrow> db_step E ro s (snd (Snapshot s))"
  using Snapshot_extends by (simp add: db_step_same)

lemma SetNonce_step [db_steps]: "db_inv E s \<Longrightarrow> db_step E False s (SetNonce E a n s)"
  by (rule db_step_refines [OF SetNonce_refines]) (simp_all add: a_step_on)

lemma SetState_step [db_steps]: "db_inv E s \<Longrightarrow> db_step E False s (SetState E a k v s)"
  by (rule db_step_refines [OF SetState_refines]) (simp_all add: a_step_on)

lemma SetCode_step [db_steps]: "db_inv E s \<Longrightarrow> db_step E False s (SetCode E a c s)"
  by (rule db_step_refines [OF SetCode_refines]) (simp_all add: a_step_on)

lemma no_mint_frame [simp]:
  "no_mint A (A\<lparr>as_refund := r\<rparr>)" "no_mint A (A\<lparr>as_preimages := p\<rparr>)"
  "no_mint A (A\<lparr>as_logs := l, as_logSize := n\<rparr>)"
  by (simp_all add: no_mint_def total_supply_def abs_balance_of_def a_get_def)

lemma bal_ok_frame [simp]:
  "bal_ok (A\<lparr>as_refund := r\<rparr>) = bal_ok A" "bal_ok (A\<lparr>as_preimages := p\<rparr>) = bal_ok A"
  "bal_ok (A\<lparr>as_logs := l, as_logSize := n\<rparr>) = bal_ok A"
  by (simp_all add: bal_ok_def)

lemma AddRefund_step [db_steps]: "db_inv E s \<Longrightarrow> 0 \<le> x \<Longrightarrow> db_step E False s (AddRefund x s)"
  by (rule db_step_refines [OF AddRefund_refines]) (simp_all add: a_step_def)

lemma AddLog_step [db_steps]: "db_inv E s \<Longrightarrow> db_step E False s (AddLog l s)"
  by (rule db_step_refines [OF AddLog_refines]) (simp_all add: a_step_def a_log_def)

lemma AddPreimage_step [db_steps]: "db_inv E s \<Longrightarrow> db_step E ro s (AddPreimage h p s)"
  by (rule db_step_refines [OF AddPreimage_refines]) (simp_all add: a_step_def ro_rel_def)

text \<open>Creating an account that does not exist, also in read-only mode.\<close>

lemma CreateAccount_new_step [db_steps]:
  assumes "db_inv E s" "as_accounts (abs_db E s) a = None"
  shows "db_step E ro s (CreateAccount E a s)"
proof (rule db_step_refines [OF CreateAccount_refines assms(1)])
  have "no_mint (abs_db E s) (a_create E a (abs_db E s))"
    unfolding a_create_def by (rule no_mint_upd) (use assms(2) in simp)
  then show "a_step E ro (abs_db E s) (a_create E a (abs_db E s))"
    using assms(2) by (auto simp: a_step_def a_create_def ro_rel_def bal_ok_def)
qed

lemma CreateAccount_step [db_steps]:
  assumes "db_inv E s" shows "db_step E False s (CreateAccount E a s)"
proof (rule db_step_refines [OF CreateAccount_refines assms])
  let ?A = "abs_db E s"
  let ?c = "case as_accounts ?A a of None \<Rightarrow> fresh_account E a
    | Some p \<Rightarrow> (fresh_account E a)\<lparr>aa_balance := aa_balance p\<rparr>"
  have b: "aa_balance ?c = abs_balance_of ?A a"
    by (simp add: abs_balance_of_def a_get_def split: option.splits)
  then show "a_step E False ?A (a_create E a ?A)"
    unfolding a_step_def a_create_def by (auto simp: bal_ok_balance intro!: bal_ok_upd no_mint_upd)
qed

section \<open>Transfers\<close>

lemma AddBalance_zero_step:
  assumes "db_inv E s" shows "db_step E ro s (AddBalance E a 0 s)"
proof (rule db_step_refines [OF AddBalance_refines assms])
  show "a_step E ro (abs_db E s) (a_on E a (\<lambda>ac. ac\<lparr>aa_balance := aa_balance ac + 0\<rparr>) (abs_db E s))"
    using a_step_on [of "\<lambda>ac. ac" E "abs_db E s" a]
    by (auto simp: a_step_def ro_rel_def a_on_eq split: option.splits)
qed

lemma SubBalance_zero_step:
  assumes "db_inv E s" shows "db_step E ro s (SubBalance E a 0 s)"
proof (rule db_step_refines [OF SubBalance_refines assms])
  show "a_step E ro (abs_db E s) (a_on E a (\<lambda>ac. ac\<lparr>aa_balance := aa_balance ac - 0\<rparr>) (abs_db E s))"
    using a_step_on [of "\<lambda>ac. ac" E "abs_db E s" a]
    by (auto simp: a_step_def ro_rel_def a_on_eq split: option.splits)
qed

lemma SubBalance_abs:
  "db_inv E s \<Longrightarrow> ext E s (SubBalance E a x s) \<and> abs_db E (SubBalance E a x s) =
     (abs_db E s)\<lparr>as_accounts := (as_accounts (abs_db E s))(a \<mapsto>
        (account_or_new E a (abs_db E s))\<lparr>aa_balance := abs_balance_of (abs_db E s) a - x\<rparr>)\<rparr>"
  using SubBalance_refines [of E a x] by (simp add: refines_def a_on_alt account_or_new_balance)

lemma AddBalance_abs:
  "db_inv E s \<Longrightarrow> ext E s (AddBalance E a x s) \<and> abs_db E (AddBalance E a x s) =
     (abs_db E s)\<lparr>as_accounts := (as_accounts (abs_db E s))(a \<mapsto>
        (account_or_new E a (abs_db E s))\<lparr>aa_balance := abs_balance_of (abs_db E s) a + x\<rparr>)\<rparr>"
  using AddBalance_refines [of E a x] by (simp add: refines_def a_on_alt account_or_new_balance)

lemma SubBalance_balance:
  assumes "db_inv E s"
  shows "abs_balance_of (abs_db E (SubBalance E a x s)) =
      (abs_balance_of (abs_db E s))(a := abs_balance_of (abs_db E s) a - x)"
    "finite (dom (as_accounts (abs_db E s))) \<Longrightarrow>
      finite (dom (as_accounts (abs_db E (SubBalance E a x s)))) \<and>
      total_supply (abs_db E (SubBalance E a x s)) = total_supply (abs_db E s) - x"
  using SubBalance_abs [OF assms, of a x] by (simp_all add: total_upd)

lemma AddBalance_balance:
  assumes "db_inv E s"
  shows "abs_balance_of (abs_db E (AddBalance E a x s)) =
      (abs_balance_of (abs_db E s))(a := abs_balance_of (abs_db E s) a + x)"
    "finite (dom (as_accounts (abs_db E s))) \<Longrightarrow>
      finite (dom (as_accounts (abs_db E (AddBalance E a x s)))) \<and>
      total_supply (abs_db E (AddBalance E a x s)) = total_supply (abs_db E s) + x"
  using AddBalance_abs [OF assms, of a x] by (simp_all add: total_upd)

text \<open>None of these touches the refund counter.\<close>

lemma refund_same:
  assumes "db_inv E s"
  shows "sd_refund (AddBalance E a x s) = sd_refund s" "sd_refund (SubBalance E a x s) = sd_refund s"
    "sd_refund (snd (Suicide E a s)) = sd_refund s"
proof -
  have r: "sd_refund t = sd_refund s" if "abs_db E t = (abs_db E s)\<lparr>as_accounts := f\<rparr>" for t f
    using arg_cong [OF that, of as_refund] by simp
  show "sd_refund (AddBalance E a x s) = sd_refund s" "sd_refund (SubBalance E a x s) = sd_refund s"
    using r [OF conjunct2 [OF AddBalance_abs [OF assms]]] r [OF conjunct2 [OF SubBalance_abs [OF assms]]] .
  have "as_refund (abs_db E (snd (Suicide E a s))) = as_refund (abs_db E s)"
    unfolding Suicide_refines(2) [OF assms] by (simp add: a_update_def)
  then show "sd_refund (snd (Suicide E a s)) = sd_refund s" by simp
qed

lemma Transfer_refund:
  assumes "db_inv E s" shows "sd_refund (Transfer E a b x s) = sd_refund s"
proof -
  have "db_inv E (SubBalance E a x s)" using SubBalance_abs [OF assms] by auto
  then show ?thesis unfolding Transfer_def using refund_same(1,2) assms by metis
qed

lemma Transfer_abs:
  assumes inv: "db_inv E s"
  shows "ext E s (Transfer E a b x s)"
    "abs_balance_of (abs_db E (Transfer E a b x s)) =
       (let f = (abs_balance_of (abs_db E s))(a := abs_balance_of (abs_db E s) a - x) in f(b := f b + x))"
    "finite (dom (as_accounts (abs_db E s))) \<Longrightarrow>
       finite (dom (as_accounts (abs_db E (Transfer E a b x s)))) \<and>
       total_supply (abs_db E (Transfer E a b x s)) = total_supply (abs_db E s)"
proof -
  have inv': "db_inv E (SubBalance E a x s)" using SubBalance_abs [OF inv] by auto
  note s = SubBalance_balance [OF inv, of a x] and t = AddBalance_balance [OF inv', of b x]
  show "ext E s (Transfer E a b x s)"
    using SubBalance_abs [OF inv] AddBalance_abs [OF inv'] ext_trans unfolding Transfer_def by blast
  show "abs_balance_of (abs_db E (Transfer E a b x s)) =
       (let f = (abs_balance_of (abs_db E s))(a := abs_balance_of (abs_db E s) a - x) in f(b := f b + x))"
    unfolding Transfer_def t(1) s(1) Let_def ..
  show "finite (dom (as_accounts (abs_db E s))) \<Longrightarrow>
       finite (dom (as_accounts (abs_db E (Transfer E a b x s)))) \<and>
       total_supply (abs_db E (Transfer E a b x s)) = total_supply (abs_db E s)"
    using s(2) t(2) unfolding Transfer_def by simp
qed

lemma bal_ok_iff: "bal_ok A \<longleftrightarrow> (\<forall>a. 0 \<le> abs_balance_of A a)"
  by (auto simp: bal_ok_def abs_balance_of_def a_get_def split: option.splits)

lemma Transfer_step [db_steps]:
  assumes inv: "db_inv E s" and x: "0 \<le> x" "x \<le> abs_balance_of (abs_db E s) a"
    and ro: "ro \<longrightarrow> x = 0"
  shows "db_step E ro s (Transfer E a b x s)"
proof (cases ro)
  case True
  with ro have [simp]: "x = 0" by simp
  have "db_step E ro s (SubBalance E a 0 s)" by (rule SubBalance_zero_step [OF inv])
  with AddBalance_zero_step db_step_trans db_step_inv show ?thesis
    unfolding Transfer_def by simp
next
  case False
  note t = Transfer_abs [OF inv, of a b x]
  have "bal_ok (abs_db E s) \<Longrightarrow> bal_ok (abs_db E (Transfer E a b x s))"
    using x unfolding bal_ok_iff t(2) by (auto simp: Let_def intro: add_nonneg_nonneg)
  with t False show ?thesis by (auto simp: db_step_def a_step_def no_mint_def Transfer_refund [OF inv])
qed

lemma CanTransfer_spec:
  assumes "db_inv E s"
  shows "fst (CanTransfer E a x s) \<longleftrightarrow> x \<le> abs_balance_of (abs_db E s) a"
    "db_step E ro s (snd (CanTransfer E a x s))" "abs_db E (snd (CanTransfer E a x s)) = abs_db E s"
  using GetBalance_reads [of E a] assms db_step_reads [OF GetBalance_reads assms, of ro]
  by (auto simp: CanTransfer_def case_prod_unfold reads_def abs_balance_of_def)

text \<open>\<open>SELFDESTRUCT\<close>: the balance goes to the beneficiary and the account is emptied; if the two are
  the same account the value is burnt.\<close>

lemma self_destruct_step:
  assumes inv: "db_inv E s" and bal: "bal_ok (abs_db E s)"
  shows "db_step E False s (snd (Suicide E a (AddBalance E b (abs_balance_of (abs_db E s) a) s)))"
proof -
  let ?x = "abs_balance_of (abs_db E s) a"
  let ?t = "AddBalance E b ?x s"
  note t = AddBalance_abs [OF inv, of b ?x]
  then have inv': "db_inv E ?t" by auto
  note u = Suicide_refines [OF inv', of a]
  let ?A = "abs_db E s" and ?B = "abs_db E ?t" and ?C = "abs_db E (snd (Suicide E a ?t))"
  have x: "0 \<le> ?x" using bal by (rule bal_ok_balance)
  have B: "bal_ok ?B" using t x bal unfolding bal_ok_iff by simp
  have C: "bal_ok ?C" using B unfolding u(2) a_update_def
    by (auto simp: bal_ok_def split: if_splits)
  have fin: "finite (dom (as_accounts ?C)) \<and> total_supply ?C \<le> total_supply ?A"
    if f: "finite (dom (as_accounts ?A))"
  proof (cases "as_accounts ?B a")
    case None
    then have "as_accounts ?A a = None" using t by (auto simp del: abs_db_sel(1) split: if_splits)
    then have "?x = 0" by simp
    moreover have "?C = ?B" using u(2) None by (simp add: a_update_def fun_upd_idem del: abs_db_sel(1))
    ultimately show ?thesis using AddBalance_balance(2) [OF inv f, of b ?x] by simp
  next
    case (Some ac)
    have fB: "finite (dom (as_accounts ?B))" "total_supply ?B = total_supply ?A + ?x"
      using AddBalance_balance(2) [OF inv f, of b ?x] by auto
    have "?x \<le> abs_balance_of ?B a" using AddBalance_balance(1) [OF inv, of b ?x] x by auto
    moreover have "?C = ?B\<lparr>as_accounts := (as_accounts ?B)(a \<mapsto> ac\<lparr>aa_suicided := True, aa_balance := 0\<rparr>)\<rparr>"
      using u(2) Some by (simp add: a_update_def del: abs_db_sel(1))
    ultimately show ?thesis using fB total_upd [OF fB(1)] by simp
  qed
  have "ext E s (snd (Suicide E a ?t))" using t u(1) ext_trans by blast
  moreover have "sd_refund (snd (Suicide E a ?t)) = sd_refund s"
    using refund_same(3) [OF inv'] refund_same(1) [OF inv] by metis
  ultimately show ?thesis using C fin by (simp add: db_step_def a_step_def no_mint_def)
qed

text \<open>Reverting to a snapshot after any step ends in a state that looks like the one before.\<close>

lemma revert_step:
  assumes inv: "db_inv E s" and sn: "Snapshot s = (i, s1)" and st: "ext E s1 t"
  obtains u where "RevertToSnapshot E i t = Some u" "db_step E ro s u" "abs_db E u = abs_db E s"
proof -
  from RevertToSnapshot_restores [OF inv sn st]
  obtain u where u: "RevertToSnapshot E i t = Some u" "abs_db E u = abs_db E s" "ext E s u" by blast
  with that [of u] db_step_same [OF u(3,2)] show ?thesis by blast
qed

end
