(* ===== verification/Evm_Arith.thy ===== *)
theory Evm_Arith
  imports Evm_Gas
begin

text \<open>
  Facts on the 64-bit arithmetic of the machine: word sizes, memory access and expansion, and the
  gas passed to a call.
\<close>

named_theorems checked_arith \<open>what a successful checked operation computed\<close>

section \<open>Small conversions\<close>

lemma sint_of_int_u64: "0 \<le> x \<Longrightarrow> x < 9223372036854775808 \<Longrightarrow> sint (of_int x :: u64) = x"
  by (simp add: signed_of_int signed_take_bit_int_eq_self)

lemma big_Int64_nonneg: "0 \<le> x \<Longrightarrow> big_Int64 x = of_int x"
  by (simp add: big_Int64_def)

lemma sint_big_Int64: "0 \<le> x \<Longrightarrow> x < 9223372036854775808 \<Longrightarrow> sint (big_Int64 x) = x"
  by (simp add: big_Int64_nonneg sint_of_int_u64)

lemma big_Uint64_0 [simp]: "big_Uint64 0 = 0"
  by (simp add: big_Uint64_def)

lemma big_Int64_0 [simp]: "big_Int64 0 = 0"
  by (simp add: big_Int64_def)

lemma safe_add_Inr [checked_arith]:
  "safe_add x y = Inr z \<longleftrightarrow> unat x + unat y < 18446744073709551616 \<and> unat z = unat x + unat y"
  using SafeAdd_overflow [of x y] SafeAdd_value [of x y]
  by (auto simp: safe_add_def word_unat_eq_iff)

lemma safe_mul_Inr [checked_arith]:
  "safe_mul x y = Inr z \<longleftrightarrow> unat x * unat y < 18446744073709551616 \<and> unat z = unat x * unat y"
  using SafeMul_overflow [of x y] SafeMul_value [of x y]
  by (auto simp: safe_mul_def word_unat_eq_iff)

lemma safe_big_Inr [checked_arith]:
  "safe_big v = Inr z \<longleftrightarrow> \<bar>v\<bar> < 18446744073709551616 \<and> z = big_Uint64 v"
  using BitLen_gt_64 [of v] by (auto simp: safe_big_def bigUint64_def)

lemma ebind_Inr [checked_arith]: "ebind m f = Inr z \<longleftrightarrow> (\<exists>x. m = Inr x \<and> f x = Inr z)"
  by (cases m) auto

section \<open>Word sizes\<close>

lemma unat_toWordSize: "unat (toWordSize s) = (unat s + 31) div 32"
proof (cases "unat s + 31 < 18446744073709551616")
  case True
  then have "\<not> s > MaxUint64 - 31" by (simp add: word_less_nat_alt unat_sub_u64)
  with True show ?thesis
    by (simp add: toWordSize_def unat_div_u64 unat_add_u64)
next
  case False
  then have "s > MaxUint64 - 31" by (simp add: word_less_nat_alt unat_sub_u64)
  moreover have "(unat s + 31) div 32 = 576460752303423488"
    using False unat_u64_less [of s] by (intro div_nat_eqI) simp_all
  moreover have "unat (MaxUint64 div 32 + 1) = 576460752303423488"
    by (simp add: MaxUint64_def)
  ultimately show ?thesis by (simp add: toWordSize_def)
qed

lemma toWordSize_mul_32:
  assumes "safe_mul (toWordSize s) 32 = Inr ms"
  shows "unat ms = (unat s + 31) div 32 * 32" "unat s \<le> unat ms"
  using assms by (simp_all add: checked_arith unat_toWordSize)

section \<open>Memory\<close>

definition mem_cap :: nat where
  "mem_cap = 0xffffffffe0"

lemma mem_cap_bounds: "int mem_cap < 9223372036854775808" "mem_cap < 18446744073709551616"
  by (simp_all add: mem_cap_def)

lemma Memory_Get_ok:
  assumes nonneg: "0 \<le> off" "0 \<le> sz" and fits: "calcMemSize off sz \<le> int (length (m_store m))"
    and cap: "length (m_store m) \<le> mem_cap"
  shows "Memory_Get (big_Int64 off) (big_Int64 sz) m =
    Ok (if sz = 0 then [] else subslice (m_store m) (nat off) (nat (off + sz)))"
proof (cases "sz = 0")
  case True
  then show ?thesis by (simp add: Memory_Get_def)
next
  case False
  with fits nonneg have b: "off + sz \<le> int (length (m_store m))" by (simp add: calcMemSize_def)
  with cap mem_cap_bounds nonneg have lt: "off + sz < 9223372036854775808" by linarith
  have s: "sint (big_Int64 off) = off" "sint (big_Int64 sz) = sz"
    using lt nonneg by (simp_all add: sint_big_Int64)
  have "big_Int64 off + big_Int64 sz = of_int (off + sz)"
    using nonneg by (simp add: big_Int64_nonneg)
  then have h: "sint (big_Int64 off + big_Int64 sz) = off + sz"
    using lt nonneg by (metis add_nonneg_nonneg sint_of_int_u64)
  have "big_Int64 sz \<noteq> 0" using s False by force
  then show ?thesis using False nonneg b
    by (simp add: Memory_Get_def Let_def s h)
qed

lemma Memory_GetPtr_ok:
  assumes nonneg: "0 \<le> off" "0 \<le> sz" and fits: "calcMemSize off sz \<le> int (length (m_store m))"
    and cap: "length (m_store m) \<le> mem_cap"
  shows "Memory_GetPtr (big_Int64 off) (big_Int64 sz) m =
    Ok (if sz = 0 then [] else subslice (m_store m) (nat off) (nat (off + sz)))"
proof -
  have "0 \<le> sint (big_Int64 sz)" if "sz \<noteq> 0"
    using that fits nonneg cap mem_cap_bounds by (simp add: calcMemSize_def sint_big_Int64)
  then have "Memory_GetPtr (big_Int64 off) (big_Int64 sz) m = Memory_Get (big_Int64 off) (big_Int64 sz) m"
    by (cases "sz = 0") (auto simp: Memory_GetPtr_def Memory_Get_def Let_def)
  with Memory_Get_ok [OF assms] show ?thesis by simp
qed

lemma Memory_Set_ok:
  assumes nonneg: "0 \<le> off" "0 \<le> sz" and fits: "calcMemSize off sz \<le> int (length (m_store m))"
    and cap: "length (m_store m) \<le> mem_cap"
  shows "Memory_Set (big_Uint64 off) (big_Uint64 sz) v m =
    Ok (if sz = 0 then m else m\<lparr>m_store := slice_copy (m_store m) (nat off) (nat sz) v\<rparr>)"
proof (cases "sz = 0")
  case True
  then show ?thesis by (simp add: Memory_Set_def)
next
  case False
  with fits nonneg have b: "off + sz \<le> int (length (m_store m))" by (simp add: calcMemSize_def)
  with cap mem_cap_bounds nonneg have lt: "off + sz < 18446744073709551616" by linarith
  have s: "unat (big_Uint64 off) = nat off" "unat (big_Uint64 sz) = nat sz"
    using lt nonneg by (simp_all add: unat_big_Uint64)
  have h: "unat (big_Uint64 off + big_Uint64 sz) = nat off + nat sz"
    using lt nonneg s by (subst unat_add_u64) (simp_all add: nat_add_distrib [symmetric])
  have "big_Uint64 sz > 0" using s False nonneg by (simp add: word_less_nat_alt)
  moreover have "\<not> big_Uint64 off + big_Uint64 sz < big_Uint64 off"
    using h s by (simp add: word_less_nat_alt)
  moreover have "nat off + nat sz \<le> length (m_store m)" using b nonneg by linarith
  ultimately show ?thesis using False nonneg
    by (simp add: Memory_Set_def Let_def s h)
qed

lemma Memory_Set_length:
  assumes "0 \<le> off" "0 \<le> sz" "calcMemSize off sz \<le> int (length (m_store m))"
    "length (m_store m) \<le> mem_cap"
  obtains m' where "Memory_Set (big_Uint64 off) (big_Uint64 sz) v m = Ok m'"
    "length (m_store m') = length (m_store m)" "m_lastGasCost m' = m_lastGasCost m"
proof -
  have "nat off + nat sz \<le> length (m_store m)" if "sz \<noteq> 0"
    using assms that by (simp add: calcMemSize_def)
  with that [of "if sz = 0 then m else m\<lparr>m_store := slice_copy (m_store m) (nat off) (nat sz) v\<rparr>"]
    Memory_Set_ok [OF assms, of v] show ?thesis
    by (auto simp: length_slice_copy split: if_splits)
qed

lemma length_Memory_Resize: "length (m_store (Memory_Resize n m)) = max (length (m_store m)) n"
  by (simp add: Memory_Resize_def)

section \<open>The price of memory\<close>

definition mem_fee :: "nat \<Rightarrow> nat" where
  "mem_fee w = 3 * w + w * w div 512"

lemma memoryGasCost_store [simp]: "m_store (fst (memoryGasCost mem s)) = m_store mem"
  by (simp add: memoryGasCost_def Let_def)

lemma memoryGasCost_cap: "snd (memoryGasCost mem s) = Inr fee \<Longrightarrow> unat s \<le> mem_cap"
  by (auto simp: memoryGasCost_def mem_cap_def word_less_nat_alt split: if_splits)

lemma frame_mem_gas_frame:
  assumes "frame_mem_gas fr s = (fr', g)"
  shows "f_pc fr' = f_pc fr" "f_stack fr' = f_stack fr" "f_contract fr' = f_contract fr"
    "m_store (f_mem fr') = m_store (f_mem fr)" "g = Inr fee \<Longrightarrow> unat s \<le> mem_cap"
  using assms memoryGasCost_cap [of "f_mem fr" s fee]
  by (auto simp: frame_mem_gas_def Let_def case_prod_unfold)

text \<open>As long as the expanded size is at most \<open>0x1fffffffe0\<close> (\<open>2^32 - 1\<close> words) the fee is the
  exact quadratic price of the new size less what was paid before.\<close>

lemma memoryGasCost_words:
  assumes w: "unat (toWordSize s) = w" "w \<le> 4294967295"
  shows "unat (toWordSize s * 32) = w * 32"
    "toWordSize s * 3 + toWordSize s * toWordSize s div 512 = of_nat (mem_fee w)"
    "unat (of_nat (mem_fee w) :: u64) = mem_fee w"
proof -
  let ?ws = "toWordSize s"
  have sq: "w * w \<le> 18446744065119617025" using mult_le_mono [OF w(2) w(2)] by simp
  have u: "unat (?ws * ?ws) = w * w" using unat_mul_u64 [of ?ws ?ws] sq unfolding w(1) by linarith
  have u3: "unat (?ws * 3) = w * 3" using unat_mul_u64 [of ?ws 3] w(2) unfolding w(1) by simp
  show "unat (?ws * 32) = w * 32" using unat_mul_u64 [of ?ws 32] w(2) unfolding w(1) by simp
  have d: "w * w div 512 \<le> 36028797002186752" using div_le_mono [OF sq, of 512] by simp
  have fb: "mem_fee w < 18446744073709551616" using d w(2) unfolding mem_fee_def by linarith
  show inv: "unat (of_nat (mem_fee w) :: u64) = mem_fee w" by (rule of_nat_u64_inverse [OF fb])
  have "unat (?ws * 3 + ?ws * ?ws div 512) = w * 3 + w * w div 512"
    using unat_add_u64 [of "?ws * 3" "?ws * ?ws div 512"] d w(2)
    unfolding unat_div_u64 u u3 by simp
  then show "?ws * 3 + ?ws * ?ws div 512 = of_nat (mem_fee w)"
    unfolding word_unat_eq_iff inv by (simp add: mem_fee_def)
qed

lemma memoryGasCost_exact:
  assumes "0 < unat s" "unat s \<le> 0x1fffffffe0" "w = (unat s + 31) div 32"
    and last: "unat (m_lastGasCost mem) \<le> mem_fee w" and len: "length (m_store mem) < w * 32"
  shows "\<exists>fee. memoryGasCost mem s = (mem\<lparr>m_lastGasCost := of_nat (mem_fee w)\<rparr>, Inr fee) \<and>
      unat fee = mem_fee w - unat (m_lastGasCost mem)"
proof -
  have w: "unat (toWordSize s) = w" unfolding assms(3) by (rule unat_toWordSize)
  have wb: "w \<le> 4294967295" using assms(2) unfolding assms(3) by (simp add: div_le_mono)
  note ws = memoryGasCost_words [OF w wb]
  have ne: "s \<noteq> 0" using assms(1) by auto
  have le: "\<not> s > 0xffffffffe0" using assms(2) by (simp add: word_less_nat_alt)
  have "unat (of_nat (length (m_store mem)) :: u64) = length (m_store mem)"
    using len wb by (intro of_nat_u64_inverse) linarith
  then have gt: "toWordSize s * 32 > of_nat (length (m_store mem))"
    using len ws(1) by (simp add: word_less_nat_alt)
  have "unat (of_nat (mem_fee w) - m_lastGasCost mem) = mem_fee w - unat (m_lastGasCost mem)"
    using last ws(3) by (subst unat_sub_u64) (simp_all add: word_le_nat_alt)
  with ne le gt ws(2) show ?thesis by (simp add: memoryGasCost_def Let_def)
qed

text \<open>Beyond \<open>2^32 - 1\<close> words the square wraps around: the comment in the source promises that no
  overflow happens up to \<open>0xffffffffe0\<close> bytes.\<close>

lemma memoryGasCost_wraps:
  "snd (memoryGasCost NewMemory 0x2000000000) = Inr 12884901888"
  "snd (memoryGasCost NewMemory 0x1fffffffe0) = Inr 36028809887088637"
  by (simp_all add: memoryGasCost_def NewMemory_def toWordSize_def MaxUint64_def)

section \<open>Gas passed to a call\<close>

text \<open>With the gas table of the chain the gas passed on is at most what is requested, and all but
  one 64th of what remains after the base price; the subtraction wraps when the base price cannot
  be paid, and then the sum charged exceeds the available gas.\<close>

lemma callGas_EIP158:
  "callGas GasTableEIP158 avail base req =
     (let rest = avail - base; gas = rest - rest div 64
      in Inr (if BitLen req > 64 \<or> gas < big_Uint64 req then gas else big_Uint64 req))"
  by (simp add: callGas_def GasTableEIP158_def Let_def)

lemma callGas_bound:
  assumes "callGas GasTableEIP158 avail base req = Inr cg" "base \<le> avail"
  shows "unat cg \<le> (unat avail - unat base) - (unat avail - unat base) div 64"
proof -
  let ?rest = "avail - base"
  have r: "unat ?rest = unat avail - unat base" using assms(2) by (rule unat_sub_u64)
  have "?rest div 64 \<le> ?rest" by (simp add: word_le_nat_alt unat_div_u64)
  then have g: "unat (?rest - ?rest div 64) = (unat avail - unat base) - (unat avail - unat base) div 64"
    using r by (simp add: unat_sub_u64 unat_div_u64)
  from assms(1) have "cg \<le> ?rest - ?rest div 64"
    by (auto simp: callGas_EIP158 Let_def split: if_splits)
  with g show ?thesis by (simp add: word_le_nat_alt)
qed

end
