(* ===== verification/Evm_Ops.thy ===== *)
theory Evm_Ops
  imports Evm_Relations Evm_Arith Evm_Interpreter
begin

text \<open>
  What every operation of the jump table guarantees.  \<open>exec_good\<close> says of the result of executing an
  operation: it does not panic (except for reading a jump destination bitmap that belongs to other
  code of the same hash), the machine took an allowed step, the gas grew by at most the gas given
  back by an inner call, and the stack changed by what the table declares.  \<open>gas_good\<close> says of a gas
  function: it does not fail, and a price it returns covers the gas passed on.
\<close>

section \<open>Predicates\<close>

definition env_ok :: "evm_env \<Rightarrow> bool" where
  "env_ok env \<longleftrightarrow> \<not> ee_DisableGasMetering env \<and> 0 \<le> ee_GasPrice env \<and>
     (\<forall>h sg pk. ee_Ecrecover env h sg = Some pk \<longrightarrow> pk \<noteq> [])"

definition ev_ok :: "evm_env \<Rightarrow> evm \<Rightarrow> bool" where
  "ev_ok env ev \<longleftrightarrow>
     db_inv (ee_state env) (evm_StateDB ev) \<and> bal_ok (abs_db (ee_state env) (evm_StateDB ev))"

definition ev_step :: "evm_env \<Rightarrow> evm \<Rightarrow> evm \<Rightarrow> bool" where
  "ev_step env ev ev' \<longleftrightarrow>
     db_step (ee_state env) (evm_readOnly ev) (evm_StateDB ev) (evm_StateDB ev') \<and>
     evm_depth ev' = evm_depth ev \<and> evm_readOnly ev' = evm_readOnly ev"

definition gas_of :: "frame \<Rightarrow> nat" where
  "gas_of fr = unat (c_Gas (f_contract fr))"

definition gas_cap :: nat where
  "gas_cap = 2 ^ 62"

definition frame_ok :: "frame \<Rightarrow> bool" where
  "frame_ok fr \<longleftrightarrow> (\<forall>x \<in> set (f_stack fr). 0 \<le> x) \<and> 0 \<le> c_value (f_contract fr) \<and>
     length (m_store (f_mem fr)) \<le> mem_cap"

definition exec_good :: "evm_env \<Rightarrow> nat \<Rightarrow> nat \<Rightarrow> nat \<Rightarrow> nat \<Rightarrow> evm \<Rightarrow> frame \<Rightarrow> opres \<Rightarrow> bool" where
  "exec_good env n p q x ev fr r \<longleftrightarrow>
     (case r of
        Panic pn \<Rightarrow> pn = JumpdestIndex
      | OutOfFuel \<Rightarrow> n \<le> gas_of fr + x
      | Ok (ev', fr', res, err) \<Rightarrow>
          ev_step env ev ev' \<and> gas_of fr' \<le> gas_of fr + x \<and>
          (err = None \<longrightarrow> frame_ok fr' \<and> length (f_stack fr') = length (f_stack fr) - p + q))"

definition gas_good ::
    "evm_env \<Rightarrow> bool \<Rightarrow> nat \<Rightarrow> (stack \<Rightarrow> nat) \<Rightarrow> evm \<Rightarrow> frame \<Rightarrow> u64 \<Rightarrow> gasres \<Rightarrow> bool" where
  "gas_good env mem k xtra ev fr ms r \<longleftrightarrow>
     (\<exists>ev1 fr1 g. r = Ok (ev1, fr1, g) \<and> ev_step env ev ev1 \<and>
        f_contract fr1 = f_contract fr \<and> m_store (f_mem fr1) = m_store (f_mem fr) \<and>
        (\<forall>x \<in> set (f_stack fr1). 0 \<le> x) \<and> length (f_stack fr1) = length (f_stack fr) \<and>
        tl (f_stack fr1) = tl (f_stack fr) \<and> (xtra = (\<lambda>st. 0) \<longrightarrow> f_stack fr1 = f_stack fr) \<and>
        (\<forall>cost. g = Inr cost \<longrightarrow> (mem \<longrightarrow> unat ms \<le> mem_cap) \<and> k + xtra (f_stack fr1) \<le> unat cost))"

text \<open>The memory an operation declares is there.\<close>

definition mem_ready :: "(stack \<Rightarrow> bigint outcome) \<Rightarrow> frame \<Rightarrow> bool" where
  "mem_ready f fr \<longleftrightarrow> (\<exists>sz. f (f_stack fr) = Ok sz \<and> sz \<le> int (length (m_store (f_mem fr))))"

definition mem_total :: "nat \<Rightarrow> (stack \<Rightarrow> bigint outcome) \<Rightarrow> bool" where
  "mem_total p f \<longleftrightarrow>
     (\<forall>st. p \<le> length st \<and> (\<forall>x \<in> set st. 0 \<le> x) \<longrightarrow> (\<exists>sz. f st = Ok sz \<and> 0 \<le> sz))"

section \<open>Steps of the machine\<close>

lemma ev_step_refl [simp, intro]: "ev_ok env ev \<Longrightarrow> ev_step env ev ev"
  by (simp add: ev_step_def ev_ok_def)

lemma ev_step_trans [trans]: "ev_step env ev ev1 \<Longrightarrow> ev_step env ev1 ev2 \<Longrightarrow> ev_step env ev ev2"
  unfolding ev_step_def using db_step_trans by auto

lemma ev_step_ok: "ev_step env ev ev' \<Longrightarrow> ev_ok env ev \<Longrightarrow> ev_ok env ev'"
  unfolding ev_step_def ev_ok_def using db_step_inv db_step_bal by blast

lemma ev_step_db:
  "db_step (ee_state env) (evm_readOnly ev) (evm_StateDB ev) db \<Longrightarrow> ev_step env ev (ev\<lparr>evm_StateDB := db\<rparr>)"
  by (simp add: ev_step_def)

lemma ev_step_frame [simp]:
  "ev_step env ev (ev'\<lparr>evm_returnData := r\<rparr>) = ev_step env ev ev'"
  "ev_step env ev (ev'\<lparr>evm_jumpdests := d\<rparr>) = ev_step env ev ev'"
  "ev_step env ev (ev'\<lparr>evm_abort := b\<rparr>) = ev_step env ev ev'"
  by (simp_all add: ev_step_def)

lemma ev_ok_inv: "ev_ok env ev \<Longrightarrow> db_inv (ee_state env) (evm_StateDB ev)"
  by (simp add: ev_ok_def)

lemma ev_ok_frame [simp]:
  "ev_ok env (ev\<lparr>evm_returnData := r\<rparr>) = ev_ok env ev"
  "ev_ok env (ev\<lparr>evm_jumpdests := d\<rparr>) = ev_ok env ev"
  "ev_ok env (ev\<lparr>evm_abort := b\<rparr>) = ev_ok env ev"
  "ev_ok env (ev\<lparr>evm_depth := k\<rparr>) = ev_ok env ev"
  "ev_ok env (ev\<lparr>evm_readOnly := ro\<rparr>) = ev_ok env ev"
  by (simp_all add: ev_ok_def)

section \<open>Pure stack operations\<close>

named_theorems exec_rules \<open>what the operations guarantee\<close>
named_theorems op_defs \<open>definitions of the operations\<close>

lemma exec_done:
  assumes "ev_step env ev ev'" "frame_ok fr'" "gas_of fr' \<le> gas_of fr + x"
    "length (f_stack fr') = length (f_stack fr) - p + q"
  shows "exec_good env n p q x ev fr (op_done ev' fr')"
  using assms by (simp add: exec_good_def op_done_def)

lemma frame_ok_stack:
  "frame_ok (fr\<lparr>f_stack := st\<rparr>) \<longleftrightarrow>
     (\<forall>x \<in> set st. 0 \<le> x) \<and> 0 \<le> c_value (f_contract fr) \<and> length (m_store (f_mem fr)) \<le> mem_cap"
  by (simp add: frame_ok_def)

lemma gas_of_frame [simp]:
  "gas_of (fr\<lparr>f_stack := st\<rparr>) = gas_of fr" "gas_of (fr\<lparr>f_pc := pc\<rparr>) = gas_of fr"
  "gas_of (fr\<lparr>f_mem := m\<rparr>) = gas_of fr"
  by (simp_all add: gas_of_def)

text \<open>An operation that replaces its \<open>p\<close> operands by one non-negative result.\<close>

lemma exec_result:
  assumes "ev_ok env ev" "frame_ok fr" "p \<le> length (f_stack fr)"
    and "r = op_done ev (push v (fr\<lparr>f_stack := drop p (f_stack fr)\<rparr>))" "0 \<le> v"
  shows "exec_good env n p 1 0 ev fr r"
  using assms unfolding assms(4)
  by (intro exec_done) (auto simp: push_def frame_ok_def dest: in_set_dropD)

lemma pop1:
  "Suc 0 \<le> length (f_stack fr) \<Longrightarrow> pop fr k = k (f_stack fr ! 0) (fr\<lparr>f_stack := drop 1 (f_stack fr)\<rparr>)"
  by (cases "f_stack fr") (auto simp: pop_def)

lemma pop2:
  "2 \<le> length (f_stack fr) \<Longrightarrow> pop fr (\<lambda>x fr. pop fr (k x)) =
     k (f_stack fr ! 0) (f_stack fr ! 1) (fr\<lparr>f_stack := drop 2 (f_stack fr)\<rparr>)"
  by (auto simp: pop_def numeral_eq_Suc Suc_le_length_iff)

lemma pop3:
  "3 \<le> length (f_stack fr) \<Longrightarrow> pop fr (\<lambda>x fr. pop fr (\<lambda>y fr. pop fr (k x y))) =
     k (f_stack fr ! 0) (f_stack fr ! 1) (f_stack fr ! 2) (fr\<lparr>f_stack := drop 3 (f_stack fr)\<rparr>)"
  by (auto simp: pop_def numeral_eq_Suc Suc_le_length_iff)

lemma pop4:
  "4 \<le> length (f_stack fr) \<Longrightarrow>
   pop fr (\<lambda>x fr. pop fr (\<lambda>y fr. pop fr (\<lambda>z fr. pop fr (k x y z)))) =
     k (f_stack fr ! 0) (f_stack fr ! 1) (f_stack fr ! 2) (f_stack fr ! 3)
       (fr\<lparr>f_stack := drop 4 (f_stack fr)\<rparr>)"
  by (auto simp: pop_def numeral_eq_Suc Suc_le_length_iff)

lemma stack_nonneg: "frame_ok fr \<Longrightarrow> i < length (f_stack fr) \<Longrightarrow> 0 \<le> f_stack fr ! i"
  by (simp add: frame_ok_def)

section \<open>The operations one by one\<close>

text \<open>Shared premises: a well-formed machine and frame.\<close>

definition ready :: "evm_env \<Rightarrow> nat \<Rightarrow> evm \<Rightarrow> frame \<Rightarrow> bool" where
  "ready env p ev fr \<longleftrightarrow> env_ok env \<and> ev_ok env ev \<and> frame_ok fr \<and> p \<le> length (f_stack fr)"

lemma ready_nonneg: "ready env p ev fr \<Longrightarrow> i < p \<Longrightarrow> 0 \<le> f_stack fr ! i"
  by (simp add: ready_def stack_nonneg)

lemma nonneg_drop: "\<forall>x \<in> set st. (0 :: int) \<le> x \<Longrightarrow> \<forall>x \<in> set (drop k st). 0 \<le> x"
  by (blast dest: in_set_dropD)

lemma exec_nullary:
  "ready env 0 ev fr \<Longrightarrow> 0 \<le> v \<Longrightarrow> exec_good env n 0 1 0 ev fr (op_done ev (push v fr))"
  by (rule exec_result [where p = 0 and v = v]) (simp_all add: ready_def)

lemma exec_unary:
  assumes "ready env 1 ev fr" "\<And>x. 0 \<le> x \<Longrightarrow> 0 \<le> g x"
  shows "exec_good env n 1 1 0 ev fr (pop fr (\<lambda>x fr. op_done ev (push (g x) fr)))"
  by (rule exec_result [where p = 1 and v = "g (f_stack fr ! 0)"])
     (use assms(1) in \<open>simp_all add: ready_def pop1\<close>,
      intro assms(2) ready_nonneg [OF assms(1)], simp_all)

lemma exec_binary:
  assumes "ready env 2 ev fr" "\<And>x y. 0 \<le> x \<Longrightarrow> 0 \<le> y \<Longrightarrow> 0 \<le> g x y"
  shows "exec_good env n 2 1 0 ev fr (pop fr (\<lambda>x fr. pop fr (\<lambda>y fr. op_done ev (push (g x y) fr))))"
  by (rule exec_result [where p = 2 and v = "g (f_stack fr ! 0) (f_stack fr ! 1)"])
     (use assms(1) in \<open>simp_all add: ready_def pop2\<close>,
      intro assms(2) ready_nonneg [OF assms(1)], simp_all)

lemma exec_ternary:
  assumes "ready env 3 ev fr" "\<And>x y z. 0 \<le> x \<Longrightarrow> 0 \<le> y \<Longrightarrow> 0 \<le> z \<Longrightarrow> 0 \<le> g x y z"
  shows "exec_good env n 3 1 0 ev fr
    (pop fr (\<lambda>x fr. pop fr (\<lambda>y fr. pop fr (\<lambda>z fr. op_done ev (push (g x y z) fr)))))"
  by (rule exec_result [where p = 3 and v = "g (f_stack fr ! 0) (f_stack fr ! 1) (f_stack fr ! 2)"])
     (use assms(1) in \<open>simp_all add: ready_def pop3\<close>,
      intro assms(2) ready_nonneg [OF assms(1)], simp_all)

lemma bool_big_nonneg [simp]: "0 \<le> bool_big b"
  by (simp add: bool_big_def)

lemma math_Exp_nonneg: "0 \<le> y \<Longrightarrow> 0 \<le> math_Exp x y"
  by (simp add: math_Exp_eq)

lemma big_nonneg [simp]: "0 \<le> Address_Big a" "0 \<le> Hash_Big h"
  by (simp_all add: Address_Big_def Hash_Big_def)

lemma opAdd_exec [exec_rules]: "ready env 2 ev fr \<Longrightarrow> exec_good env n 2 1 0 ev fr (opAdd env ev fr)"
  unfolding opAdd_def by (rule exec_binary) (simp_all)

lemma opSub_exec [exec_rules]: "ready env 2 ev fr \<Longrightarrow> exec_good env n 2 1 0 ev fr (opSub env ev fr)"
  unfolding opSub_def by (rule exec_binary) (simp_all)

lemma opMul_exec [exec_rules]: "ready env 2 ev fr \<Longrightarrow> exec_good env n 2 1 0 ev fr (opMul env ev fr)"
  unfolding opMul_def by (rule exec_binary) (simp_all)

lemma opDiv_exec [exec_rules]: "ready env 2 ev fr \<Longrightarrow> exec_good env n 2 1 0 ev fr (opDiv env ev fr)"
  unfolding opDiv_def by (rule exec_binary) (simp_all)

lemma opMod_exec [exec_rules]: "ready env 2 ev fr \<Longrightarrow> exec_good env n 2 1 0 ev fr (opMod env ev fr)"
  unfolding opMod_def by (rule exec_binary) (simp_all)

lemma opExp_exec [exec_rules]: "ready env 2 ev fr \<Longrightarrow> exec_good env n 2 1 0 ev fr (opExp env ev fr)"
  unfolding opExp_def by (rule exec_binary) (simp_all add: math_Exp_nonneg)

lemma opLt_exec [exec_rules]: "ready env 2 ev fr \<Longrightarrow> exec_good env n 2 1 0 ev fr (opLt env ev fr)"
  unfolding opLt_def by (rule exec_binary) (simp_all)

lemma opGt_exec [exec_rules]: "ready env 2 ev fr \<Longrightarrow> exec_good env n 2 1 0 ev fr (opGt env ev fr)"
  unfolding opGt_def by (rule exec_binary) (simp_all)

lemma opSlt_exec [exec_rules]: "ready env 2 ev fr \<Longrightarrow> exec_good env n 2 1 0 ev fr (opSlt env ev fr)"
  unfolding opSlt_def by (rule exec_binary) (simp_all)

lemma opSgt_exec [exec_rules]: "ready env 2 ev fr \<Longrightarrow> exec_good env n 2 1 0 ev fr (opSgt env ev fr)"
  unfolding opSgt_def by (rule exec_binary) (simp_all)

lemma opEq_exec [exec_rules]: "ready env 2 ev fr \<Longrightarrow> exec_good env n 2 1 0 ev fr (opEq env ev fr)"
  unfolding opEq_def by (rule exec_binary) (simp_all)

lemma opAnd_exec [exec_rules]: "ready env 2 ev fr \<Longrightarrow> exec_good env n 2 1 0 ev fr (opAnd env ev fr)"
  unfolding opAnd_def by (rule exec_binary) (simp_all)

lemma opOr_exec [exec_rules]: "ready env 2 ev fr \<Longrightarrow> exec_good env n 2 1 0 ev fr (opOr env ev fr)"
  unfolding opOr_def by (rule exec_binary) (simp_all add: or_nonnegative_int_iff xor_nonnegative_int_iff)

lemma opXor_exec [exec_rules]: "ready env 2 ev fr \<Longrightarrow> exec_good env n 2 1 0 ev fr (opXor env ev fr)"
  unfolding opXor_def by (rule exec_binary) (simp_all add: or_nonnegative_int_iff xor_nonnegative_int_iff)

lemma opByte_exec [exec_rules]: "ready env 2 ev fr \<Longrightarrow> exec_good env n 2 1 0 ev fr (opByte env ev fr)"
  unfolding opByte_def by (rule exec_binary) (simp_all)

lemma opNot_exec [exec_rules]: "ready env 1 ev fr \<Longrightarrow> exec_good env n 1 1 0 ev fr (opNot env ev fr)"
  unfolding opNot_def by (rule exec_unary) (simp_all)

lemma opIszero_exec [exec_rules]: "ready env 1 ev fr \<Longrightarrow> exec_good env n 1 1 0 ev fr (opIszero env ev fr)"
  unfolding opIszero_def by (rule exec_unary) (simp_all)

lemma opAddmod_exec [exec_rules]: "ready env 3 ev fr \<Longrightarrow> exec_good env n 3 1 0 ev fr (opAddmod env ev fr)"
  unfolding opAddmod_def by (rule exec_ternary) (simp_all)

lemma opMulmod_exec [exec_rules]: "ready env 3 ev fr \<Longrightarrow> exec_good env n 3 1 0 ev fr (opMulmod env ev fr)"
  unfolding opMulmod_def by (rule exec_ternary) (simp_all)

lemma opAddress_exec [exec_rules]: "ready env 0 ev fr \<Longrightarrow> exec_good env n 0 1 0 ev fr (opAddress env ev fr)"
  unfolding opAddress_def by (rule exec_nullary) (simp_all)

lemma opOrigin_exec [exec_rules]: "ready env 0 ev fr \<Longrightarrow> exec_good env n 0 1 0 ev fr (opOrigin env ev fr)"
  unfolding opOrigin_def by (rule exec_nullary) (simp_all)

lemma opCaller_exec [exec_rules]: "ready env 0 ev fr \<Longrightarrow> exec_good env n 0 1 0 ev fr (opCaller env ev fr)"
  unfolding opCaller_def by (rule exec_nullary) (simp_all)

lemma opCallDataSize_exec [exec_rules]: "ready env 0 ev fr \<Longrightarrow> exec_good env n 0 1 0 ev fr (opCallDataSize env ev fr)"
  unfolding opCallDataSize_def by (rule exec_nullary) (simp_all)

lemma opReturnDataSize_exec [exec_rules]: "ready env 0 ev fr \<Longrightarrow> exec_good env n 0 1 0 ev fr (opReturnDataSize env ev fr)"
  unfolding opReturnDataSize_def by (rule exec_nullary) (simp_all)

lemma opCodeSize_exec [exec_rules]: "ready env 0 ev fr \<Longrightarrow> exec_good env n 0 1 0 ev fr (opCodeSize env ev fr)"
  unfolding opCodeSize_def by (rule exec_nullary) (simp_all)

lemma opCoinbase_exec [exec_rules]: "ready env 0 ev fr \<Longrightarrow> exec_good env n 0 1 0 ev fr (opCoinbase env ev fr)"
  unfolding opCoinbase_def by (rule exec_nullary) (simp_all)

lemma opTimestamp_exec [exec_rules]: "ready env 0 ev fr \<Longrightarrow> exec_good env n 0 1 0 ev fr (opTimestamp env ev fr)"
  unfolding opTimestamp_def by (rule exec_nullary) (simp_all)

lemma opNumber_exec [exec_rules]: "ready env 0 ev fr \<Longrightarrow> exec_good env n 0 1 0 ev fr (opNumber env ev fr)"
  unfolding opNumber_def by (rule exec_nullary) (simp_all)

lemma opDifficulty_exec [exec_rules]: "ready env 0 ev fr \<Longrightarrow> exec_good env n 0 1 0 ev fr (opDifficulty env ev fr)"
  unfolding opDifficulty_def by (rule exec_nullary) (simp_all)

lemma opGasLimit_exec [exec_rules]: "ready env 0 ev fr \<Longrightarrow> exec_good env n 0 1 0 ev fr (opGasLimit env ev fr)"
  unfolding opGasLimit_def by (rule exec_nullary) (simp_all)

lemma opPc_exec [exec_rules]: "ready env 0 ev fr \<Longrightarrow> exec_good env n 0 1 0 ev fr (opPc env ev fr)"
  unfolding opPc_def by (rule exec_nullary) (simp_all)

lemma opMsize_exec [exec_rules]: "ready env 0 ev fr \<Longrightarrow> exec_good env n 0 1 0 ev fr (opMsize env ev fr)"
  unfolding opMsize_def by (rule exec_nullary) (simp_all)

lemma opGas_exec [exec_rules]: "ready env 0 ev fr \<Longrightarrow> exec_good env n 0 1 0 ev fr (opGas env ev fr)"
  unfolding opGas_def by (rule exec_nullary) (simp_all)

lemma opCallValue_exec [exec_rules]: "ready env 0 ev fr \<Longrightarrow> exec_good env n 0 1 0 ev fr (opCallValue env ev fr)"
  unfolding opCallValue_def by (rule exec_nullary) (simp_all add: ready_def frame_ok_def)

lemma opGasprice_exec [exec_rules]: "ready env 0 ev fr \<Longrightarrow> exec_good env n 0 1 0 ev fr (opGasprice env ev fr)"
  unfolding opGasprice_def by (rule exec_nullary) (simp_all add: ready_def env_ok_def)

lemma opBlockhash_exec [exec_rules]: "ready env 1 ev fr \<Longrightarrow> exec_good env n 1 1 0 ev fr (opBlockhash env ev fr)"
  unfolding opBlockhash_def Let_def by (rule exec_unary) (simp_all)

lemma opSdiv_exec [exec_rules]:
  assumes r: "ready env 2 ev fr" shows "exec_good env n 2 1 0 ev fr (opSdiv env ev fr)"
proof -
  let ?x = "S256 (f_stack fr ! 0)" and ?y = "S256 (f_stack fr ! 1)"
  let ?v = "if ?y = 0 then 0 else U256 (\<bar>?x\<bar> div \<bar>?y\<bar> * (if ?x * ?y < 0 then -1 else 1))"
  have "opSdiv env ev fr = op_done ev (push ?v (fr\<lparr>f_stack := drop 2 (f_stack fr)\<rparr>))"
    using r by (cases "?y = 0") (simp_all add: opSdiv_def ready_def pop2 Let_def)
  with r show ?thesis by (intro exec_result [where p = 2 and v = ?v]) (simp_all add: ready_def)
qed

lemma opSmod_exec [exec_rules]:
  assumes r: "ready env 2 ev fr" shows "exec_good env n 2 1 0 ev fr (opSmod env ev fr)"
proof -
  let ?x = "S256 (f_stack fr ! 0)" and ?y = "S256 (f_stack fr ! 1)"
  let ?v = "if ?y = 0 then 0 else U256 (\<bar>?x\<bar> mod \<bar>?y\<bar> * (if ?x < 0 then -1 else 1))"
  have "opSmod env ev fr = op_done ev (push ?v (fr\<lparr>f_stack := drop 2 (f_stack fr)\<rparr>))"
    using r by (cases "?y = 0") (simp_all add: opSmod_def ready_def pop2 Let_def)
  with r show ?thesis by (intro exec_result [where p = 2 and v = ?v]) (simp_all add: ready_def)
qed

lemma opSignExtend_exec [exec_rules]:
  assumes r: "ready env 2 ev fr" shows "exec_good env n 2 1 0 ev fr (opSignExtend env ev fr)"
proof (cases "f_stack fr ! 0 < 31")
  case True
  have "opSignExtend env ev fr = op_done ev (push (U256
     (let b = unat (big_Uint64 (f_stack fr ! 0) * 8 + 7); mask = push_bit b 1 - 1; num = f_stack fr ! 1
      in if bit num b then or num (not mask) else and num mask))
     (fr\<lparr>f_stack := drop 2 (f_stack fr)\<rparr>))"
    using r True unfolding opSignExtend_def
    by (auto simp: ready_def pop_def numeral_eq_Suc Suc_le_length_iff Let_def)
  with r show ?thesis by (intro exec_result [where p = 2]) (simp_all add: ready_def, simp)
next
  case False
  then have "opSignExtend env ev fr = op_done ev (fr\<lparr>f_stack := drop 1 (f_stack fr)\<rparr>)"
    using r unfolding opSignExtend_def by (simp add: ready_def pop1)
  with r show ?thesis
    by (auto simp: ready_def frame_ok_def nonneg_drop intro!: exec_done)
qed

lemma opCallDataLoad_exec [exec_rules]:
  "ready env 1 ev fr \<Longrightarrow> exec_good env n 1 1 0 ev fr (opCallDataLoad env ev fr)"
proof -
  assume r: "ready env 1 ev fr"
  then have "opCallDataLoad env ev fr =
      op_done ev (push (SetBytes (getDataBig (c_Input (f_contract fr)) (f_stack fr ! 0) 32))
        (fr\<lparr>f_stack := drop 1 (f_stack fr)\<rparr>))"
    unfolding opCallDataLoad_def by (simp add: ready_def pop1)
  with r show ?thesis by (intro exec_result [where p = 1]) (simp_all add: ready_def, simp)
qed

section \<open>State and memory\<close>

lemma readyD:
  "ready env p ev fr \<Longrightarrow> ev_ok env ev" "ready env p ev fr \<Longrightarrow> frame_ok fr"
  "ready env p ev fr \<Longrightarrow> p \<le> length (f_stack fr)" "ready env p ev fr \<Longrightarrow> ev_step env ev ev"
  "ready env p ev fr \<Longrightarrow> length (m_store (f_mem fr)) \<le> mem_cap"
  "ready env p ev fr \<Longrightarrow> db_inv (ee_state env) (evm_StateDB ev)"
  by (auto simp: ready_def frame_ok_def ev_ok_def)

lemma frame_ok_drop [simp]: "frame_ok fr \<Longrightarrow> frame_ok (fr\<lparr>f_stack := drop k (f_stack fr)\<rparr>)"
  by (auto simp: frame_ok_def nonneg_drop)

lemma frame_ok_push: "frame_ok fr \<Longrightarrow> 0 \<le> v \<Longrightarrow> frame_ok (push v fr)"
  by (auto simp: frame_ok_def push_def)

lemma push_sel [simp]:
  "f_stack (push v fr) = v # f_stack fr" "f_contract (push v fr) = f_contract fr"
  "f_mem (push v fr) = f_mem fr" "gas_of (push v fr) = gas_of fr"
  by (simp_all add: push_def)

lemma mem_ready2:
  assumes "mem_ready (mem_size2 i j) fr" "ready env p ev fr" "i < p" "j < p"
  shows "calcMemSize (f_stack fr ! i) (f_stack fr ! j) \<le> int (length (m_store (f_mem fr)))"
  using assms readyD(3) [OF assms(2)] by (simp add: mem_ready_def mem_size2_def Back_def)

lemma mem_ready_const:
  assumes "mem_ready (mem_size_const i l) fr" "ready env p ev fr" "i < p"
  shows "calcMemSize (f_stack fr ! i) l \<le> int (length (m_store (f_mem fr)))"
  using assms readyD(3) [OF assms(2)] by (simp add: mem_ready_def mem_size_const_def Back_def)

lemmas mem_funs = memorySha3_def memoryCallDataCopy_def memoryReturnDataCopy_def memoryCodeCopy_def
  memoryExtCodeCopy_def memoryMLoad_def memoryMStore8_def memoryMStore_def memoryCreate_def
  memoryReturn_def memoryRevert_def memoryLog_def

lemma mem_funs_eq:
  "memorySha3 = mem_size2 0 1" "memoryCallDataCopy = mem_size2 0 2" "memoryReturnDataCopy = mem_size2 0 2"
  "memoryCodeCopy = mem_size2 0 2" "memoryExtCodeCopy = mem_size2 1 3"
  "memoryMLoad = mem_size_const 0 32" "memoryMStore8 = mem_size_const 0 1"
  "memoryMStore = mem_size_const 0 32" "memoryCreate = mem_size2 1 2" "memoryReturn = mem_size2 0 1"
  "memoryRevert = mem_size2 0 1" "memoryLog = mem_size2 0 1"
  by (simp_all add: fun_eq_iff mem_funs)

lemma mem_set_exec:
  assumes "frame_ok fr'" "0 \<le> off" "0 \<le> sz"
    "calcMemSize off sz \<le> int (length (m_store (f_mem fr')))" "ev_step env ev ev'"
    "gas_of fr' = gas_of fr" "length (f_stack fr') = length (f_stack fr) - p"
  shows "exec_good env n p 0 0 ev fr (mem_set off sz v ev' fr')"
proof -
  obtain m' where m: "Memory_Set (big_Uint64 off) (big_Uint64 sz) v (f_mem fr') = Ok m'"
    "length (m_store m') = length (m_store (f_mem fr'))"
    using assms Memory_Set_length [of off sz "f_mem fr'" v] by (auto simp: frame_ok_def)
  have "exec_good env n p 0 0 ev fr (op_done ev' (fr'\<lparr>f_mem := m'\<rparr>))"
    using assms m by (intro exec_done) (simp_all add: frame_ok_def)
  with m show ?thesis by (simp add: mem_set_def)
qed

lemma opCallDataCopy_exec [exec_rules]:
  assumes r: "ready env 3 ev fr" and m: "mem_ready memoryCallDataCopy fr"
  shows "exec_good env n 3 0 0 ev fr (opCallDataCopy env ev fr)"
  using r mem_ready2 [OF m [unfolded mem_funs_eq] r] unfolding opCallDataCopy_def
  by (simp add: pop3 readyD) (intro mem_set_exec, simp_all add: readyD ready_nonneg)

lemma opCodeCopy_exec [exec_rules]:
  assumes r: "ready env 3 ev fr" and m: "mem_ready memoryCodeCopy fr"
  shows "exec_good env n 3 0 0 ev fr (opCodeCopy env ev fr)"
  using r mem_ready2 [OF m [unfolded mem_funs_eq] r] unfolding opCodeCopy_def
  by (simp add: pop3 readyD) (intro mem_set_exec, simp_all add: readyD ready_nonneg)

lemma opReturnDataCopy_exec [exec_rules]:
  assumes r: "ready env 3 ev fr" and m: "mem_ready memoryReturnDataCopy fr"
  shows "exec_good env n 3 0 0 ev fr (opReturnDataCopy env ev fr)"
proof -
  let ?d = "f_stack fr ! 1" and ?l = "f_stack fr ! 2"
  have nn: "0 \<le> ?d" "0 \<le> ?l" using r by (simp_all add: ready_nonneg)
  have le: "\<not> big_Uint64 (?d + ?l) < big_Uint64 ?d" if "\<not> BitLen (?d + ?l) > 64"
  proof -
    from that BitLen_gt_64 [of "?d + ?l"] nn have "?d + ?l < 18446744073709551616" by simp
    with nn show ?thesis by (simp add: word_less_nat_alt unat_big_Uint64)
  qed
  show ?thesis
  proof (cases "BitLen (?d + ?l) > 64 \<or> of_nat (length (evm_returnData ev)) < big_Uint64 (?d + ?l)")
    case True
    then show ?thesis using r unfolding opReturnDataCopy_def
      by (simp add: pop3 readyD Let_def exec_good_def)
  next
    case False
    with le have "\<not> big_Uint64 (?d + ?l) < big_Uint64 ?d" by blast
    with False show ?thesis
      using r mem_ready2 [OF m [unfolded mem_funs_eq] r] unfolding opReturnDataCopy_def
      by (simp add: pop3 readyD Let_def) (intro mem_set_exec, simp_all add: readyD ready_nonneg)
  qed
qed

lemma opExtCodeCopy_exec [exec_rules]:
  assumes r: "ready env 4 ev fr" and m: "mem_ready memoryExtCodeCopy fr"
  shows "exec_good env n 4 0 0 ev fr (opExtCodeCopy env ev fr)"
  using r mem_ready2 [OF m [unfolded mem_funs_eq] r] unfolding opExtCodeCopy_def
  by (simp add: pop4 readyD case_prod_unfold Let_def)
     (intro mem_set_exec, simp_all add: readyD ready_nonneg ev_step_db load_step)

lemma opMstore_exec [exec_rules]:
  assumes r: "ready env 2 ev fr" and m: "mem_ready memoryMStore fr"
  shows "exec_good env n 2 0 0 ev fr (opMstore env ev fr)"
  using r mem_ready_const [OF m [unfolded mem_funs_eq] r] unfolding opMstore_def
  by (simp add: pop2 readyD) (intro mem_set_exec, simp_all add: readyD ready_nonneg)

lemma opMload_exec [exec_rules]:
  assumes r: "ready env 1 ev fr" and m: "mem_ready memoryMLoad fr"
  shows "exec_good env n 1 1 0 ev fr (opMload env ev fr)"
proof -
  have 32: "(32 :: u64) = big_Int64 32" by (simp add: big_Int64_def)
  let ?v = "SetBytes (subslice (m_store (f_mem fr)) (nat (f_stack fr ! 0)) (nat (f_stack fr ! 0 + 32)))"
  have "opMload env ev fr = op_done ev (push ?v (fr\<lparr>f_stack := drop 1 (f_stack fr)\<rparr>))"
    using r mem_ready_const [OF m [unfolded mem_funs_eq] r] unfolding opMload_def 32
    by (simp add: pop1 readyD Memory_Get_ok ready_nonneg)
  with r show ?thesis by (intro exec_result [where p = 1 and v = ?v]) (simp_all add: readyD)
qed

lemma opMstore8_exec [exec_rules]:
  assumes r: "ready env 2 ev fr" and m: "mem_ready memoryMStore8 fr"
  shows "exec_good env n 2 0 0 ev fr (opMstore8 env ev fr)"
proof -
  let ?o = "f_stack fr ! 0"
  have o: "0 \<le> ?o" "?o < int (length (m_store (f_mem fr)))"
    using r mem_ready_const [OF m [unfolded mem_funs_eq] r] by (simp_all add: ready_nonneg calcMemSize_def)
  moreover have "sint (big_Int64 ?o) = ?o"
    using o mem_cap_bounds readyD(5) [OF r] by (intro sint_big_Int64) linarith+
  ultimately show ?thesis using r unfolding opMstore8_def
    by (simp add: pop2 readyD Let_def) (intro exec_done, auto simp: ready_def frame_ok_def nonneg_drop)
qed

lemma opSha3_exec [exec_rules]:
  assumes r: "ready env 2 ev fr" and m: "mem_ready memorySha3 fr"
  shows "exec_good env n 2 1 0 ev fr (opSha3 env ev fr)"
proof -
  obtain data where g: "Memory_Get (big_Int64 (f_stack fr ! 0)) (big_Int64 (f_stack fr ! 1)) (f_mem fr) = Ok data"
    using r mem_ready2 [OF m [unfolded mem_funs_eq] r] by (simp add: Memory_Get_ok ready_nonneg readyD)
  let ?h = "keccak256 (ee_state env) data"
  let ?ev = "if ee_EnablePreimageRecording env
    then ev\<lparr>evm_StateDB := AddPreimage ?h data (evm_StateDB ev)\<rparr> else ev"
  have "opSha3 env ev fr = op_done ?ev (push (uint ?h) (fr\<lparr>f_stack := drop 2 (f_stack fr)\<rparr>))"
    using r g unfolding opSha3_def by (simp add: pop2 readyD Let_def)
  moreover have "ev_step env ev ?ev" using r by (simp add: readyD ev_step_db AddPreimage_step)
  ultimately show ?thesis using r by (simp add: exec_done frame_ok_push readyD)
qed

lemma opReturn_exec [exec_rules]:
  assumes r: "ready env 2 ev fr" and m: "mem_ready memoryReturn fr"
  shows "exec_good env n 2 0 0 ev fr (opReturn env ev fr)"
  using r mem_ready2 [OF m [unfolded mem_funs_eq] r] unfolding opReturn_def
  by (simp add: pop2 readyD Memory_GetPtr_ok ready_nonneg exec_good_def)

lemma opRevert_exec [exec_rules]:
  assumes r: "ready env 2 ev fr" and m: "mem_ready memoryRevert fr"
  shows "exec_good env n 2 0 0 ev fr (opRevert env ev fr)"
  using r mem_ready2 [OF m [unfolded mem_funs_eq] r] unfolding opRevert_def
  by (simp add: pop2 readyD Memory_GetPtr_ok ready_nonneg exec_good_def)

lemma opBalance_exec [exec_rules]:
  assumes r: "ready env 1 ev fr" shows "exec_good env n 1 1 0 ev fr (opBalance env ev fr)"
proof -
  let ?b = "GetBalance (ee_state env) (BigToAddress (f_stack fr ! 0)) (evm_StateDB ev)"
  have "opBalance env ev fr = op_done (ev\<lparr>evm_StateDB := snd ?b\<rparr>)
      (push (fst ?b) (fr\<lparr>f_stack := drop 1 (f_stack fr)\<rparr>))"
    using r unfolding opBalance_def by (simp add: pop1 readyD case_prod_unfold Let_def)
  moreover have "0 \<le> fst ?b"
    using GetBalance_reads [of "ee_state env" "BigToAddress (f_stack fr ! 0)"] readyD(1) [OF r]
      bal_ok_balance [of "abs_db (ee_state env) (evm_StateDB ev)"]
    by (simp add: reads_def ev_ok_def abs_balance_of_def)
  ultimately show ?thesis using r
    by (simp add: exec_done frame_ok_push readyD ev_step_db load_step)
qed

lemma opExtCodeSize_exec [exec_rules]:
  assumes r: "ready env 1 ev fr" shows "exec_good env n 1 1 0 ev fr (opExtCodeSize env ev fr)"
  using r unfolding opExtCodeSize_def
  by (simp add: pop1 readyD case_prod_unfold Let_def exec_done frame_ok_push ev_step_db GetCodeSize_step)

lemma opSload_exec [exec_rules]:
  assumes r: "ready env 1 ev fr" shows "exec_good env n 1 1 0 ev fr (opSload env ev fr)"
  using r unfolding opSload_def
  by (simp add: pop1 readyD case_prod_unfold Let_def exec_done frame_ok_push ev_step_db load_step)

lemma opSstore_exec [exec_rules]:
  assumes r: "ready env 2 ev fr" and w: "\<not> evm_readOnly ev"
  shows "exec_good env n 2 0 0 ev fr (opSstore env ev fr)"
  using r w unfolding opSstore_def
  by (simp add: pop2 readyD exec_done ev_step_db SetState_step)

lemma opPop_exec [exec_rules]:
  "ready env 1 ev fr \<Longrightarrow> exec_good env n 1 0 0 ev fr (opPop env ev fr)"
  unfolding opPop_def by (simp add: pop1 readyD exec_done)

lemma opJumpdest_exec [exec_rules]:
  "ready env 0 ev fr \<Longrightarrow> exec_good env n 0 0 0 ev fr (opJumpdest env ev fr)"
  unfolding opJumpdest_def by (simp add: readyD exec_done)

lemma opStop_exec [exec_rules]:
  "ready env 0 ev fr \<Longrightarrow> exec_good env n 0 0 0 ev fr (opStop env ev fr)"
  unfolding opStop_def by (simp add: readyD exec_done)

lemma jump_to_exec:
  assumes "ev_ok env ev" "frame_ok fr'" "gas_of fr' = gas_of fr"
    "length (f_stack fr') = length (f_stack fr) - p"
  shows "exec_good env n p 0 0 ev fr (jump_to pos ev fr')"
proof (cases "destinations_has (evm_jumpdests ev) (c_CodeHash (f_contract fr')) (c_Code (f_contract fr')) pos")
  case (Panic pn)
  then have "pn = JumpdestIndex"
    by (auto simp: destinations_has_def Let_def split: if_splits option.splits)
  with Panic show ?thesis by (simp add: jump_to_def exec_good_def)
next
  case OutOfFuel
  then show ?thesis by (auto simp: destinations_has_def Let_def split: if_splits option.splits)
next
  case (Ok r)
  obtain ok d where r: "r = (ok, d)" by fastforce
  have "frame_ok (fr'\<lparr>f_pc := big_Uint64 pos\<rparr>)" using assms(2) by (simp add: frame_ok_def)
  with Ok r assms show ?thesis
    by (cases ok) (simp_all add: jump_to_def exec_done exec_good_def [of _ _ _ _ _ _ _ "Ok z" for z])
qed

lemma opJump_exec [exec_rules]:
  "ready env 1 ev fr \<Longrightarrow> exec_good env n 1 0 0 ev fr (opJump env ev fr)"
  unfolding opJump_def by (simp add: pop1 readyD jump_to_exec)

lemma opJumpi_exec [exec_rules]:
  assumes r: "ready env 2 ev fr" shows "exec_good env n 2 0 0 ev fr (opJumpi env ev fr)"
proof -
  have "frame_ok (fr\<lparr>f_stack := drop 2 (f_stack fr), f_pc := f_pc fr + 1\<rparr>)"
    using r by (auto simp: ready_def frame_ok_def nonneg_drop)
  with r show ?thesis unfolding opJumpi_def
    by (simp add: pop2 readyD jump_to_exec exec_done)
qed

lemma opSuicide_exec [exec_rules]:
  assumes r: "ready env 1 ev fr" and w: "\<not> evm_readOnly ev"
  shows "exec_good env n 1 0 0 ev fr (opSuicide env ev fr)"
proof -
  let ?E = "ee_state env" and ?self = "c_self (f_contract fr)"
  let ?g = "GetBalance ?E ?self (evm_StateDB ev)"
  have inv: "db_inv ?E (evm_StateDB ev)" and bal: "bal_ok (abs_db ?E (evm_StateDB ev))"
    using readyD(1) [OF r] by (simp_all add: ev_ok_def)
  have g: "fst ?g = abs_balance_of (abs_db ?E (snd ?g)) ?self" "abs_db ?E (snd ?g) = abs_db ?E (evm_StateDB ev)"
    "db_step ?E False (evm_StateDB ev) (snd ?g)"
    using GetBalance_reads [of ?E ?self] inv db_step_reads [OF GetBalance_reads inv]
    by (simp_all add: reads_def abs_balance_of_def)
  then have inv': "db_inv ?E (snd ?g)" using db_step_inv by blast
  from self_destruct_step [OF inv', of ?self "BigToAddress (f_stack fr ! 0)"] bal g
  have "db_step ?E False (evm_StateDB ev)
      (snd (Suicide ?E ?self (AddBalance ?E (BigToAddress (f_stack fr ! 0)) (fst ?g) (snd ?g))))"
    using db_step_trans by metis
  with r w show ?thesis unfolding opSuicide_def
    by (simp add: pop1 readyD case_prod_unfold Let_def exec_done ev_step_db)
qed

section \<open>Logs, pushes, dups and swaps\<close>

lemma pop_topics_ok:
  "k \<le> length (f_stack fr) \<Longrightarrow>
   pop_topics k acc fr h =
     h (acc @ map BigToHash (take k (f_stack fr))) (fr\<lparr>f_stack := drop k (f_stack fr)\<rparr>)"
proof (induction k arbitrary: acc fr)
  case (Suc k)
  then obtain x st where st: "f_stack fr = x # st" by (cases "f_stack fr") auto
  with Suc.IH [of "fr\<lparr>f_stack := st\<rparr>" "acc @ [BigToHash x]"] Suc.prems
  show ?case by (simp add: pop_def)
qed simp

lemma makeLog_exec [exec_rules]:
  assumes r: "ready env (k + 2) ev fr" and m: "mem_ready memoryLog fr" and w: "\<not> evm_readOnly ev"
  shows "exec_good env n (k + 2) 0 0 ev fr (makeLog k env ev fr)"
proof -
  obtain data where g: "Memory_Get (big_Int64 (f_stack fr ! 0)) (big_Int64 (f_stack fr ! 1)) (f_mem fr) = Ok data"
    using r mem_ready2 [OF m [unfolded mem_funs_eq] r] by (simp add: Memory_Get_ok ready_nonneg readyD)
  have len: "2 \<le> length (f_stack fr)" "k \<le> length (drop 2 (f_stack fr))"
    using readyD(3) [OF r] by simp_all
  have fr: "frame_ok (fr\<lparr>f_stack := drop (k + 2) (f_stack fr)\<rparr>)" using r by (simp add: readyD)
  show ?thesis using r w g len fr unfolding makeLog_def
    by (simp add: pop2 pop_topics_ok exec_done ev_step_db AddLog_step readyD)
qed

lemma makePush_exec [exec_rules]:
  "ready env 0 ev fr \<Longrightarrow> exec_good env n 0 1 0 ev fr (makePush sz k env ev fr)"
  unfolding makePush_def Let_def
  by (rule exec_done) (auto simp: ready_def frame_ok_def push_def)

lemma makeDup_exec [exec_rules]:
  assumes r: "ready env (k + 1) ev fr"
  shows "exec_good env n (k + 1) (k + 2) 0 ev fr (makeDup (k + 1) env ev fr)"
proof -
  have "frame_ok (fr\<lparr>f_stack := f_stack fr ! k # f_stack fr\<rparr>)"
    using r by (auto simp: ready_def frame_ok_def)
  with r show ?thesis unfolding makeDup_def
    by (auto simp: stack_dup_def ready_def intro!: exec_done)
qed

lemma makeSwap_exec [exec_rules]:
  assumes r: "ready env (k + 2) ev fr"
  shows "exec_good env n (k + 2) (k + 2) 0 ev fr (makeSwap (k + 1) env ev fr)"
proof -
  let ?st = "f_stack fr"
  have len: "k + 2 \<le> length ?st" using readyD(3) [OF r] .
  have "set (?st[0 := ?st ! (k + 1), k + 1 := ?st ! 0]) \<subseteq> set ?st"
    using len by (intro set_update_subsetI nth_mem) auto
  then have "frame_ok (fr\<lparr>f_stack := ?st[0 := ?st ! (k + 1), k + 1 := ?st ! 0]\<rparr>)"
    using readyD(2) [OF r] by (auto simp: frame_ok_def)
  with r len show ?thesis unfolding makeSwap_def
    by (auto simp: stack_swap_def ready_def intro!: exec_done)
qed

end
