(* ===== verification/Evm_Gas_Spec.thy ===== *)
theory Evm_Gas_Spec
  imports Evm_Ops
begin

text \<open>
  What the gas functions guarantee: they do not panic, leave the account state as it was up to the
  refund counter, bound the memory they were asked for, and return a price that covers the gas
  passed to an inner call and, unless the operation halts, at least one unit more.
\<close>

named_theorems gas_rules \<open>what the gas functions guarantee\<close>

section \<open>Constant prices\<close>

lemma gas_good_const:
  assumes "ready env p ev fr" "k \<le> unat c"
  shows "gas_good env False k (\<lambda>st. 0) ev fr ms (Ok (ev, fr, Inr c))"
  using assms by (simp add: gas_good_def ready_def frame_ok_def)

lemma constGasFunc_good [gas_rules]:
  "ready env p ev fr \<Longrightarrow> k \<le> unat c \<Longrightarrow>
   gas_good env False k (\<lambda>st. 0) ev fr ms (constGasFunc c gt env ev fr ms)"
  unfolding constGasFunc_def by (rule gas_good_const)

lemma table_gas_good [gas_rules]:
  assumes "ready env p ev fr"
  shows "gas_good env False 1 (\<lambda>st. 0) ev fr ms (gasBalance GasTableEIP158 env ev fr ms)"
    "gas_good env False 1 (\<lambda>st. 0) ev fr ms (gasExtCodeSize GasTableEIP158 env ev fr ms)"
    "gas_good env False 1 (\<lambda>st. 0) ev fr ms (gasSLoad GasTableEIP158 env ev fr ms)"
    "gas_good env False 1 (\<lambda>st. 0) ev fr ms (gasPush GasTableEIP158 env ev fr ms)"
    "gas_good env False 1 (\<lambda>st. 0) ev fr ms (gasDup GasTableEIP158 env ev fr ms)"
    "gas_good env False 1 (\<lambda>st. 0) ev fr ms (gasSwap GasTableEIP158 env ev fr ms)"
  unfolding gasBalance_def gasExtCodeSize_def gasSLoad_def gasPush_def gasDup_def gasSwap_def
  by (rule gas_good_const [OF assms], simp add: GasTableEIP158_def)+

lemma Back_ready: "ready env p ev fr \<Longrightarrow> i < p \<Longrightarrow> Back i (f_stack fr) = Ok (f_stack fr ! i)"
  using readyD(3) [of env p ev fr] by (simp add: Back_def)

lemma gas_goodI:
  assumes "ready env p ev fr" "r = Ok (ev1, fr, g)" "ev_step env ev ev1"
    "\<And>cost. g = Inr cost \<Longrightarrow> (mem \<longrightarrow> unat ms \<le> mem_cap) \<and> k \<le> unat cost"
  shows "gas_good env mem k (\<lambda>st. 0) ev fr ms r"
  using assms by (simp add: gas_good_def ready_def frame_ok_def)

lemma gasExp_good [gas_rules]:
  assumes r: "ready env 2 ev fr"
  shows "gas_good env False 1 (\<lambda>st. 0) ev fr ms (gasExp GasTableEIP158 env ev fr ms)"
proof (rule gas_goodI [OF r])
  show "gasExp GasTableEIP158 env ev fr ms = Ok (ev, fr,
      safe_add (of_nat ((BitLen (f_stack fr ! 1) + 7) div 8) * gt_ExpByte GasTableEIP158) GasSlowStep)"
    using Back_ready [OF r, of 1] by (simp add: gasExp_def Let_def)
qed (use r in \<open>auto simp: readyD checked_arith\<close>)

section \<open>Memory prices\<close>

lemma frame_mem_gas_good:
  assumes r: "ready env p ev fr" and m: "frame_mem_gas fr ms = (fr', mg)"
    and g: "\<And>cost. g = Inr cost \<Longrightarrow> (\<exists>fee. mg = Inr fee) \<and> k \<le> unat cost"
  shows "gas_good env True k (\<lambda>st. 0) ev fr ms (Ok (ev, fr', g))"
proof -
  note f = frame_mem_gas_frame [OF m]
  have "unat ms \<le> mem_cap" if "g = Inr cost" for cost using g [OF that] f(5) by blast
  with f g r show ?thesis by (simp add: gas_good_def ready_def frame_ok_def)
qed

lemma gas_per_word_good:
  assumes r: "ready env p ev fr" "i < p" "k \<le> unat base"
  shows "gas_good env True k (\<lambda>st. 0) ev fr ms (gas_per_word i base per ev fr ms)"
proof -
  obtain fr' mg where m: "frame_mem_gas fr ms = (fr', mg)" by fastforce
  show ?thesis unfolding gas_per_word_def m using Back_ready [OF r(1,2)]
    by simp (rule frame_mem_gas_good [OF r(1) m], use r(3) in \<open>auto simp: checked_arith\<close>)
qed

lemma gas_mem_plus_good:
  assumes r: "ready env p ev fr" "k \<le> unat base"
  shows "gas_good env True k (\<lambda>st. 0) ev fr ms (gas_mem_plus base ev fr ms)"
proof -
  obtain fr' mg where m: "frame_mem_gas fr ms = (fr', mg)" by fastforce
  show ?thesis unfolding gas_mem_plus_def m
    by simp (rule frame_mem_gas_good [OF r(1) m], use r(2) in \<open>auto simp: checked_arith\<close>)
qed

lemma copy_gas_good [gas_rules]:
  assumes "ready env p ev fr"
  shows "2 < p \<Longrightarrow> gas_good env True 1 (\<lambda>st. 0) ev fr ms (gasCallDataCopy GasTableEIP158 env ev fr ms)"
    "2 < p \<Longrightarrow> gas_good env True 1 (\<lambda>st. 0) ev fr ms (gasReturnDataCopy GasTableEIP158 env ev fr ms)"
    "2 < p \<Longrightarrow> gas_good env True 1 (\<lambda>st. 0) ev fr ms (gasCodeCopy GasTableEIP158 env ev fr ms)"
    "3 < p \<Longrightarrow> gas_good env True 1 (\<lambda>st. 0) ev fr ms (gasExtCodeCopy GasTableEIP158 env ev fr ms)"
    "1 < p \<Longrightarrow> gas_good env True 1 (\<lambda>st. 0) ev fr ms (gasSha3 GasTableEIP158 env ev fr ms)"
  unfolding gasCallDataCopy_def gasReturnDataCopy_def gasCodeCopy_def gasExtCodeCopy_def gasSha3_def
  by (rule gas_per_word_good [OF assms], simp_all add: GasTableEIP158_def)+

lemma mem_gas_good [gas_rules]:
  assumes "ready env p ev fr"
  shows "gas_good env True 1 (\<lambda>st. 0) ev fr ms (gasMLoad GasTableEIP158 env ev fr ms)"
    "gas_good env True 1 (\<lambda>st. 0) ev fr ms (gasMStore GasTableEIP158 env ev fr ms)"
    "gas_good env True 1 (\<lambda>st. 0) ev fr ms (gasMStore8 GasTableEIP158 env ev fr ms)"
    "gas_good env True 1 (\<lambda>st. 0) ev fr ms (gasCreate GasTableEIP158 env ev fr ms)"
  unfolding gasMLoad_def gasMStore_def gasMStore8_def gasCreate_def
  by (rule gas_mem_plus_good [OF assms], simp)+

lemma return_gas_good [gas_rules]:
  assumes r: "ready env p ev fr"
  shows "gas_good env True 0 (\<lambda>st. 0) ev fr ms (gasReturn GasTableEIP158 env ev fr ms)"
    "gas_good env True 0 (\<lambda>st. 0) ev fr ms (gasRevert GasTableEIP158 env ev fr ms)"
proof -
  obtain fr' mg where m: "frame_mem_gas fr ms = (fr', mg)" by fastforce
  show "gas_good env True 0 (\<lambda>st. 0) ev fr ms (gasReturn GasTableEIP158 env ev fr ms)"
    "gas_good env True 0 (\<lambda>st. 0) ev fr ms (gasRevert GasTableEIP158 env ev fr ms)"
    unfolding gasReturn_def gasRevert_def m
    by (simp, rule frame_mem_gas_good [OF r m], simp)+
qed

lemma makeGasLog_good [gas_rules]:
  assumes r: "ready env (k + 2) ev fr"
  shows "gas_good env True 1 (\<lambda>st. 0) ev fr ms (makeGasLog (of_nat k) GasTableEIP158 env ev fr ms)"
proof (cases "safe_big (f_stack fr ! 1)")
  case (Inl e)
  then have "makeGasLog (of_nat k) GasTableEIP158 env ev fr ms = Ok (ev, fr, Inl e)"
    using Back_ready [OF r, of 1] by (simp add: makeGasLog_def)
  then show ?thesis by (rule gas_goodI [OF r]) (use r in \<open>simp_all add: readyD\<close>)
next
  case (Inr sz)
  obtain fr' mg where m: "frame_mem_gas fr ms = (fr', mg)" by fastforce
  show ?thesis unfolding makeGasLog_def m using Inr Back_ready [OF r, of 1]
    by simp (rule frame_mem_gas_good [OF r m], auto simp: checked_arith)
qed

section \<open>Storage and self-destruction\<close>

lemma gasSStore_good [gas_rules]:
  assumes r: "ready env 2 ev fr" and w: "\<not> evm_readOnly ev"
  shows "gas_good env False 1 (\<lambda>st. 0) ev fr ms (gasSStore GasTableEIP158 env ev fr ms)"
proof -
  let ?E = "ee_state env"
  let ?g = "GetState ?E (c_self (f_contract fr)) (BigToHash (f_stack fr ! 0)) (evm_StateDB ev)"
  have g: "db_step ?E False (evm_StateDB ev) (snd ?g)" using readyD(6) [OF r] by (rule load_step)
  have "db_step ?E False (evm_StateDB ev) (AddRefund 15000 (snd ?g))"
    by (rule db_step_trans [OF g AddRefund_step [OF db_step_inv [OF g]]]) simp
  with g w have steps: "ev_step env ev (ev\<lparr>evm_StateDB := snd ?g\<rparr>)"
    "ev_step env ev (ev\<lparr>evm_StateDB := AddRefund 15000 (snd ?g)\<rparr>)" by (simp_all add: ev_step_db)
  show ?thesis using Back_ready [OF r, of 0] Back_ready [OF r, of 1] steps
    by (auto simp: gasSStore_def case_prod_unfold Let_def intro!: gas_goodI [OF r])
qed

lemma gasSuicide_good [gas_rules]:
  assumes r: "ready env 1 ev fr" and w: "\<not> evm_readOnly ev"
  shows "gas_good env False 0 (\<lambda>st. 0) ev fr ms (gasSuicide GasTableEIP158 env ev fr ms)"
proof -
  let ?E = "ee_state env" and ?self = "c_self (f_contract fr)"
  let ?s = "evm_StateDB ev"
  let ?e = "Empty ?E (BigToAddress (f_stack fr ! 0)) ?s"
  let ?b = "if fst ?e then GetBalance ?E ?self (snd ?e) else (0, snd ?e)"
  let ?h = "HasSuicided ?E ?self (snd ?b)"
  let ?t = "if \<not> fst ?h then AddRefund (uint SuicideRefundGas) (snd ?h) else snd ?h"
  note t = db_step_trans [of ?E False] and i = db_step_inv [of ?E False]
  have e: "db_step ?E False ?s (snd ?e)" using readyD(6) [OF r] by (rule load_step)
  have b: "db_step ?E False ?s (snd ?b)"
    using e load_step(3) [OF i [OF e], of False ?self] t by (auto split: if_splits)
  have h: "db_step ?E False ?s (snd ?h)"
    using b load_step(6) [OF i [OF b], of False ?self] t by blast
  have "db_step ?E False ?s ?t" using h t [OF h AddRefund_step [OF i [OF h]]] by simp
  with w have "ev_step env ev (ev\<lparr>evm_StateDB := ?t\<rparr>)" by (simp add: ev_step_db)
  moreover have "\<exists>g. gasSuicide GasTableEIP158 env ev fr ms = Ok (ev\<lparr>evm_StateDB := ?t\<rparr>, fr, Inr g)"
    using Back_ready [OF r, of 0] by (simp add: gasSuicide_def case_prod_unfold Let_def)
  ultimately show ?thesis using gas_goodI [OF r] by auto
qed

section \<open>Calls\<close>

text \<open>The gas an inner call may start with: what the gas function left on top of the stack and, for
  a call with value, the stipend.\<close>

definition pass_gas :: "stack \<Rightarrow> nat" where
  "pass_gas st = unat (big_Uint64 (st ! 0))"

definition pass_gas_value :: "stack \<Rightarrow> nat" where
  "pass_gas_value st = unat (big_Uint64 (st ! 0)) + (if st ! 2 \<noteq> 0 then 2300 else 0)"

lemma pass_gas_not_zero [simp]: "pass_gas \<noteq> (\<lambda>st. 0)" "pass_gas_value \<noteq> (\<lambda>st. 0)"
proof -
  have "pass_gas [1] = 1" "pass_gas_value [1, 0, 0] = 1"
    by (simp_all add: pass_gas_def pass_gas_value_def unat_big_Uint64)
  then show "pass_gas \<noteq> (\<lambda>st. 0)" "pass_gas_value \<noteq> (\<lambda>st. 0)"
    by (metis zero_neq_one)+
qed

lemma charge_call_spec:
  assumes c: "charge_call gt fr gas req = (fr', r)" and ne: "f_stack fr \<noteq> []"
    and nn: "\<forall>x \<in> set (f_stack fr). 0 \<le> x"
  shows "f_contract fr' = f_contract fr" "f_mem fr' = f_mem fr"
    "\<forall>x \<in> set (f_stack fr'). 0 \<le> x" "length (f_stack fr') = length (f_stack fr)"
    "tl (f_stack fr') = tl (f_stack fr)"
    "r = Inr cost \<Longrightarrow> \<exists>g. gas = Inr g \<and> unat cost = unat g + pass_gas (f_stack fr')"
proof -
  obtain x st where st: "f_stack fr = x # st" using ne by (cases "f_stack fr") auto
  show "f_contract fr' = f_contract fr" "f_mem fr' = f_mem fr"
    "\<forall>x \<in> set (f_stack fr'). 0 \<le> x" "length (f_stack fr') = length (f_stack fr)"
    "tl (f_stack fr') = tl (f_stack fr)"
    "r = Inr cost \<Longrightarrow> \<exists>g. gas = Inr g \<and> unat cost = unat g + pass_gas (f_stack fr')"
    using c nn st
    by (auto simp: charge_call_def checked_arith pass_gas_def split: sum.splits)
qed

text \<open>A call gas function: a base price, memory expansion and the gas passed on.\<close>

lemma call_gas_good:
  assumes r: "ready env p ev fr" "0 < p" and step: "ev_step env ev ev1"
    and m: "frame_mem_gas fr ms = (fr1, mg)"
    and c: "charge_call GasTableEIP158 fr1 gas req = (fr2, res)"
    and gas: "\<And>g. gas = Inr g \<Longrightarrow> (\<exists>fee. mg = Inr fee) \<and> base \<le> unat g"
    and x: "\<And>st. tl st = tl (f_stack fr) \<Longrightarrow> k + xtra st \<le> base + pass_gas st" "xtra \<noteq> (\<lambda>st. 0)"
  shows "gas_good env True k xtra ev fr ms (Ok (ev1, fr2, res))"
proof -
  note f = frame_mem_gas_frame [OF m]
  have ne: "f_stack fr1 \<noteq> []" and nn: "\<forall>x \<in> set (f_stack fr1). 0 \<le> x"
    using r f(2) by (auto simp: ready_def frame_ok_def)
  note s = charge_call_spec [OF c ne nn]
  have "unat ms \<le> mem_cap \<and> k + xtra (f_stack fr2) \<le> unat cost" if "res = Inr cost" for cost
  proof -
    from s(6) [OF that] obtain g where g: "gas = Inr g" "unat cost = unat g + pass_gas (f_stack fr2)" by blast
    have "k + xtra (f_stack fr2) \<le> base + pass_gas (f_stack fr2)" using x(1) s(5) f(2) by simp
    with g gas [OF g(1)] f(5) show ?thesis by fastforce
  qed
  with s f step x(2) show ?thesis by (simp add: gas_good_def)
qed

lemma pass_gas_value_le:
  assumes "tl st = tl st'" "p \<le> length st'" "2 < p"
  shows "pass_gas_value st = pass_gas st + (if st' ! 2 \<noteq> 0 then 2300 else 0)"
proof -
  have "st ! 2 = st' ! 2"
    using assms by (cases st; cases st') (auto simp: numeral_2_eq_2)
  then show ?thesis by (simp add: pass_gas_value_def pass_gas_def)
qed

lemma value_call_gas_good:
  assumes r: "ready env 7 ev fr" and step: "ev_step env ev ev1"
    and base: "700 + (if f_stack fr ! 2 \<noteq> 0 then 9000 else 0) \<le> unat base"
    and m: "frame_mem_gas fr ms = (fr1, mg)"
    and c: "charge_call GasTableEIP158 fr1 (ebind mg (safe_add base)) req = (fr2, res)"
  shows "gas_good env True 1 pass_gas_value ev fr ms (Ok (ev1, fr2, res))"
proof (rule call_gas_good [OF r _ step m c, of "700 + (if f_stack fr ! 2 \<noteq> 0 then 9000 else 0)"])
  fix st assume t: "tl st = tl (f_stack fr)"
  show "1 + pass_gas_value st \<le> 700 + (if f_stack fr ! 2 \<noteq> 0 then 9000 else 0) + pass_gas st"
    using pass_gas_value_le [OF t readyD(3) [OF r]] by simp
next
  fix g assume "ebind mg (safe_add base) = Inr g"
  then show "(\<exists>fee. mg = Inr fee) \<and> 700 + (if f_stack fr ! 2 \<noteq> 0 then 9000 else 0) \<le> unat g"
    using base unfolding checked_arith by (elim exE conjE) (intro conjI exI, assumption, linarith)
qed simp_all

lemma gasCall_good [gas_rules]:
  assumes r: "ready env 7 ev fr"
  shows "gas_good env True 1 pass_gas_value ev fr ms (gasCall GasTableEIP158 env ev fr ms)"
proof -
  let ?v = "f_stack fr ! 2"
  obtain e db where e: "Empty (ee_state env) (BigToAddress (f_stack fr ! 1)) (evm_StateDB ev) = (e, db)"
    by fastforce
  let ?db = "if ?v = 0 then evm_StateDB ev else db"
  let ?base = "if ?v = 0 then 700 else if e then 34700 else (9700 :: u64)"
  obtain fr1 mg where m: "frame_mem_gas fr ms = (fr1, mg)" by fastforce
  obtain fr2 res where c: "charge_call GasTableEIP158 fr1 (ebind mg (safe_add ?base)) (f_stack fr ! 0) = (fr2, res)"
    by fastforce
  have g: "gasCall GasTableEIP158 env ev fr ms = Ok (ev\<lparr>evm_StateDB := ?db\<rparr>, fr2, res)"
    using Back_ready [OF r, of 0] Back_ready [OF r, of 1] Back_ready [OF r, of 2] c e
    by (cases "?v = 0"; cases e) (simp_all add: gasCall_def m GasTableEIP158_def [THEN arg_cong, of gt_Calls])
  have "ev_step env ev (ev\<lparr>evm_StateDB := ?db\<rparr>)"
    using r load_step(2) [OF readyD(6) [OF r], of "evm_readOnly ev" "BigToAddress (f_stack fr ! 1)"] e
    by (simp add: ev_step_db readyD)
  then show ?thesis unfolding g by (rule value_call_gas_good [OF r _ _ m c]) simp
qed

lemma gasCallCode_good [gas_rules]:
  assumes r: "ready env 7 ev fr"
  shows "gas_good env True 1 pass_gas_value ev fr ms (gasCallCode GasTableEIP158 env ev fr ms)"
proof -
  let ?base = "if f_stack fr ! 2 = 0 then 700 else (9700 :: u64)"
  obtain fr1 mg where m: "frame_mem_gas fr ms = (fr1, mg)" by fastforce
  obtain fr2 res where c: "charge_call GasTableEIP158 fr1 (ebind mg (safe_add ?base)) (f_stack fr ! 0) = (fr2, res)"
    by fastforce
  have g: "gasCallCode GasTableEIP158 env ev fr ms = Ok (ev, fr2, res)"
    using Back_ready [OF r, of 0] Back_ready [OF r, of 2] c
    by (cases "f_stack fr ! 2 = 0") (simp_all add: gasCallCode_def m GasTableEIP158_def [THEN arg_cong, of gt_Calls])
  show ?thesis unfolding g by (rule value_call_gas_good [OF r readyD(4) [OF r] _ m c]) simp
qed

lemma delegate_gas_good [gas_rules]:
  assumes r: "ready env 6 ev fr"
  shows "gas_good env True 1 pass_gas ev fr ms (gasDelegateCall GasTableEIP158 env ev fr ms)"
    "gas_good env True 1 pass_gas ev fr ms (gasStaticCall GasTableEIP158 env ev fr ms)"
proof -
  obtain fr1 mg where m: "frame_mem_gas fr ms = (fr1, mg)" by fastforce
  obtain fr2 res where c: "charge_call GasTableEIP158 fr1
      (ebind mg (\<lambda>gas. safe_add gas (gt_Calls GasTableEIP158))) (f_stack fr ! 0) = (fr2, res)" by fastforce
  have "gas_good env True 1 pass_gas ev fr ms (Ok (ev, fr2, res))"
    by (rule call_gas_good [OF r _ readyD(4) [OF r] m c, of 1]) (auto simp: checked_arith GasTableEIP158_def)
  then show "gas_good env True 1 pass_gas ev fr ms (gasDelegateCall GasTableEIP158 env ev fr ms)"
    "gas_good env True 1 pass_gas ev fr ms (gasStaticCall GasTableEIP158 env ev fr ms)"
    using Back_ready [OF r, of 0] c by (simp_all add: gasDelegateCall_def gasStaticCall_def m)
qed

end
