(* ===== verification/Evm_Precompiled_Spec.thy ===== *)
theory Evm_Precompiled_Spec
  imports Evm_Ops
begin

text \<open>
  The precompiled contracts do not panic when their gas was paid: \<open>getData\<close> adds the start and the
  size of a range without a check, and only the price of \<open>bigModExp\<close> keeps the lengths in its input
  small enough for the sum not to wrap.
\<close>

section \<open>getData\<close>

lemma getData_ok:
  assumes "length data + unat sz < 18446744073709551616"
  shows "\<exists>b. getData data start sz = Ok b"
proof -
  let ?len = "of_nat (length data) :: u64"
  let ?s = "if start > ?len then ?len else start"
  have len: "unat ?len = length data" using assms by (intro of_nat_u64_inverse) simp
  have s: "unat ?s \<le> length data" using len by (auto simp: word_less_nat_alt)
  then have "unat (?s + sz) = unat ?s + unat sz" using assms by (intro unat_add_u64) simp
  then have "\<not> (if ?s + sz > ?len then ?len else ?s + sz) < ?s"
    using s len by (auto simp: word_less_nat_alt)
  then show ?thesis by (simp add: getData_def Let_def)
qed

text \<open>The source calls \<open>getData\<close> overflow safe; it is not.\<close>

lemma getData_wraps: "data \<noteq> [] \<Longrightarrow> length data < 18446744073709551616 \<Longrightarrow>
   getData data 1 18446744073709551615 = Panic SliceBounds"
proof -
  assume d: "data \<noteq> []" "length data < 18446744073709551616"
  have len: "unat (of_nat (length data) :: u64) = length data" using d by (intro of_nat_u64_inverse)
  have "\<not> (1 :: u64) > of_nat (length data)" using d len by (cases data) (auto simp: word_less_nat_alt)
  moreover have "(1 + 18446744073709551615 :: u64) = 0" by (subst word_unat_eq_iff) simp
  ultimately show ?thesis by (simp add: getData_def Let_def word_less_nat_alt)
qed

section \<open>bigModExp\<close>

abbreviation input_cap :: nat where
  "input_cap \<equiv> 4611686018427387904"

lemma modexp_len_ok: "length input < input_cap \<Longrightarrow> \<exists>b. modexp_len input off = Ok b \<and> 0 \<le> b"
  using getData_ok [of input 32 off] by (auto simp: modexp_len_def)

lemma length_modexp_input: "length (modexp_input input) \<le> length input"
  by (simp add: modexp_input_def)

lemma mult_complexity_lower:
  assumes "1 \<le> x"
  shows "1 \<le> mult_complexity x" "1099511627776 \<le> x \<Longrightarrow> 92233720368547758080 < mult_complexity x"
proof -
  show "1 \<le> mult_complexity x"
  proof (cases "x \<le> 64")
    case True
    have "1 * 1 \<le> x * x" using assms by (intro mult_mono) simp_all
    with True show ?thesis by (simp add: mult_complexity_def)
  next
    case False
    moreover have "0 \<le> x * x div 4" "0 \<le> x * x div 16"
      by (simp_all add: pos_imp_zdiv_nonneg_iff)
    ultimately show ?thesis by (simp add: mult_complexity_def)
  qed
  assume big: "1099511627776 \<le> x"
  have "1099511627776 * 1099511627776 \<le> x * x" using big by (intro mult_mono) simp_all
  then have "1099511627776 * 1099511627776 div 16 \<le> x * x div 16" by (intro zdiv_mono1) simp_all
  then have "75557863725914323419136 \<le> x * x div 16" by simp
  with big show "92233720368547758080 < mult_complexity x" by (simp add: mult_complexity_def)
qed

lemma modexp_lengths:
  assumes gas: "mult_complexity x * BigMax adj 1 div 20 < 4611686018427387904" and x: "1 \<le> x"
  shows "x < 1099511627776" "adj < 92233720368547758080"
proof -
  let ?m = "mult_complexity x" and ?a = "BigMax adj 1"
  have a: "1 \<le> ?a" "adj \<le> ?a" by (simp_all add: BigMax_def)
  note m = mult_complexity_lower [OF x]
  have prod: "?m * ?a < 92233720368547758080" using gas by linarith
  have "?m * 1 \<le> ?m * ?a" using a m(1) by (intro mult_left_mono) linarith+
  with prod m(2) show "x < 1099511627776" by linarith
  have "1 * ?a \<le> ?m * ?a" using a m(1) by (intro mult_right_mono) linarith+
  with prod a show "adj < 92233720368547758080" by linarith
qed

lemma bigModExp_Run_bounded:
  assumes len: "length input < input_cap"
    and l: "modexp_len input 0 = Ok bl" "0 \<le> bl" "modexp_len input 32 = Ok el" "0 \<le> el"
      "modexp_len input 64 = Ok ml" "0 \<le> ml"
    and b: "bl < 1099511627776" "ml < 1099511627776" "el < 11529215046068469793"
  shows "\<exists>r. bigModExp_Run input = Ok r"
proof -
  let ?in = "modexp_input input"
  have u: "unat (big_Uint64 bl) < 11529215046068469793" "unat (big_Uint64 ml) < 11529215046068469793"
    "unat (big_Uint64 el) < 11529215046068469793"
    using l b by (simp_all add: unat_big_Uint64 nat_less_iff)
  have ok: "\<exists>b. getData ?in s z = Ok b" if "unat z < 11529215046068469793" for s z
    using getData_ok [of ?in z s] length_modexp_input [of input] len that by simp
  obtain x y z where "getData ?in 0 (big_Uint64 bl) = Ok x"
    "getData ?in (big_Uint64 bl) (big_Uint64 el) = Ok y"
    "getData ?in (big_Uint64 bl + big_Uint64 el) (big_Uint64 ml) = Ok z"
    using ok u by meson
  then show ?thesis using l by (simp add: bigModExp_Run_def Let_def)
qed

text \<open>The head of the exponent that the price depends on.\<close>

lemma modexp_head_ok:
  assumes "length inp < input_cap" "0 \<le> el"
  shows "\<exists>e. (if int (length inp) \<le> bl then Ok 0
             else if el > 32
             then obind (getData inp (big_Uint64 bl) 32) (\<lambda>b. Ok (SetBytes b))
             else obind (getData inp (big_Uint64 bl) (big_Uint64 el)) (\<lambda>b. Ok (SetBytes b))) = Ok e"
proof -
  have "unat (big_Uint64 el) \<le> 32" if "\<not> el > 32" using that assms by (simp add: unat_big_Uint64)
  then have "\<not> el > 32 \<Longrightarrow> \<exists>b. getData inp (big_Uint64 bl) (big_Uint64 el) = Ok b"
    using getData_ok [of inp "big_Uint64 el" "big_Uint64 bl"] assms by simp
  moreover have "\<exists>b. getData inp (big_Uint64 bl) 32 = Ok b"
    using getData_ok [of inp 32 "big_Uint64 bl"] assms by simp
  ultimately show ?thesis by (cases "el > 32") auto
qed

lemma bigModExp_ok:
  assumes len: "length input < input_cap"
  obtains g where "bigModExp_RequiredGas input = Ok g"
    "unat g < 4611686018427387904 \<Longrightarrow> \<exists>r. bigModExp_Run input = Ok r"
proof -
  obtain bl el ml where l: "modexp_len input 0 = Ok bl" "0 \<le> bl" "modexp_len input 32 = Ok el" "0 \<le> el"
    "modexp_len input 64 = Ok ml" "0 \<le> ml" using modexp_len_ok [OF len] by metis
  let ?in = "modexp_input input"
  have inl: "length ?in < input_cap" using length_modexp_input [of input] len by simp
  from modexp_head_ok [OF inl l(4), of bl]
  obtain eh where eh: "(if int (length ?in) \<le> bl then Ok 0
             else if el > 32
             then obind (getData ?in (big_Uint64 bl) 32) (\<lambda>b. Ok (SetBytes b))
             else obind (getData ?in (big_Uint64 bl) (big_Uint64 el)) (\<lambda>b. Ok (SetBytes b))) = Ok eh" ..
  define msb where "msb = (if BitLen eh > 0 then int (BitLen eh) - 1 else 0)"
  define adj where "adj = (if el > 32 then 8 * (el - 32) else 0) + msb"
  define gas where "gas = mult_complexity (BigMax ml bl) * BigMax adj 1 div 20"
  let ?g = "if BitLen gas > 64 then MaxUint64 else big_Uint64 gas"
  have rg: "bigModExp_RequiredGas input = Ok ?g"
    unfolding bigModExp_RequiredGas_def l(1,3,5) obind.simps Let_def eh
    unfolding gas_def adj_def msb_def ..
  show ?thesis
  proof (rule that [OF rg])
    assume g: "unat ?g < 4611686018427387904"
    show "\<exists>r. bigModExp_Run input = Ok r"
    proof (cases "1 \<le> BigMax ml bl")
      case False
      then have "bl = 0" "ml = 0" using l by (auto simp: BigMax_def split: if_splits)
      then show ?thesis using l by (simp add: bigModExp_Run_def Let_def)
    next
      case True
      have adj1: "1 \<le> BigMax adj 1" by (simp add: BigMax_def)
      have pos: "0 \<le> gas" unfolding gas_def
        using mult_complexity_lower(1) [OF True] adj1 by (simp add: pos_imp_zdiv_nonneg_iff)
      from g have nb: "\<not> BitLen gas > 64" by (auto split: if_splits)
      with BitLen_gt_64 [of gas] pos have "gas < 18446744073709551616" by simp
      with g nb pos have "gas < 4611686018427387904" by (simp add: unat_big_Uint64)
      from modexp_lengths [OF this [unfolded gas_def] True]
      have b: "BigMax ml bl < 1099511627776" "adj < 92233720368547758080" .
      have "0 \<le> msb" unfolding msb_def by simp
      then have el: "el < 11529215046068469793"
        using b(2) unfolding adj_def by (auto split: if_splits)
      have "bl < 1099511627776" "ml < 1099511627776" using b(1) by (auto simp: BigMax_def split: if_splits)
      with el show ?thesis by (intro bigModExp_Run_bounded [OF len l])
    qed
  qed
qed

section \<open>All precompiled contracts\<close>

lemma Precompiled_ok:
  assumes env: "env_ok env" and len: "length input < input_cap"
  obtains g where "RequiredGas p input = Ok g"
    "unat g < 4611686018427387904 \<Longrightarrow> \<exists>r. Precompiled_Run env p input = Ok r"
proof -
  have d: "\<exists>b. getData input s 64 = Ok b" "\<exists>b. getData input s 32 = Ok b" for s
    using getData_ok [of input _ s] len by simp_all
  have "\<exists>g. RequiredGas p input = Ok g \<and>
    (unat g < 4611686018427387904 \<longrightarrow> (\<exists>r. Precompiled_Run env p input = Ok r))"
  proof (cases p)
    case PcEcrecover
    then show ?thesis using env
      by (auto simp: ecrecover_Run_def Let_def env_ok_def split: option.splits)
  next
    case PcBigModExp
    with bigModExp_ok [OF len] show ?thesis by (metis Precompiled_Run.simps(5) RequiredGas.simps(5))
  next
    case PcBn256Add
    with d(1) [of 0] d(1) [of 64] show ?thesis
      by (auto simp: bn256Add_Run_def split: sum.splits)
  next
    case PcBn256ScalarMul
    with d(1) [of 0] d(2) [of 64] show ?thesis
      by (auto simp: bn256ScalarMul_Run_def split: sum.splits)
  next
    case PcBn256Pairing
    then show ?thesis by (auto simp: bn256Pairing_Run_def split: sum.splits)
  qed (simp_all add: sha256hash_Run_def ripemd160hash_Run_def dataCopy_Run_def)
  with that show ?thesis by blast
qed

lemma UseGas_le: "unat (c_Gas (snd (UseGas g c))) \<le> unat (c_Gas c)"
  by (auto simp: UseGas_def word_less_nat_alt not_less unat_sub_u64 word_le_nat_alt)

lemma UseGas_all: "c_Gas (snd (UseGas (c_Gas c) c)) = 0"
  by (simp add: UseGas_def)

lemma RunPrecompiledContract_ok:
  assumes "env_ok env" "length input < input_cap" "unat (c_Gas c) < 4611686018427387904"
  obtains c' ret err where "RunPrecompiledContract env p input c = Ok (c', ret, err)"
    "unat (c_Gas c') \<le> unat (c_Gas c)"
proof -
  obtain g where g: "RequiredGas p input = Ok g"
    "unat g < 4611686018427387904 \<Longrightarrow> \<exists>r. Precompiled_Run env p input = Ok r"
    using Precompiled_ok [OF assms(1,2), of p] by blast
  show ?thesis
  proof (cases "c_Gas c < g")
    case True
    with g that [of c "[]" "Some ErrOutOfGas"] show ?thesis
      by (simp add: RunPrecompiledContract_def UseGas_def)
  next
    case False
    then have "unat g < 4611686018427387904" using assms(3) by (simp add: word_less_nat_alt)
    with g(2) obtain ret err where r: "Precompiled_Run env p input = Ok (ret, err)" by fastforce
    with False g that [of "c\<lparr>c_Gas := c_Gas c - g\<rparr>" ret err] UseGas_le [of g c] show ?thesis
      by (simp add: RunPrecompiledContract_def UseGas_def)
  qed
qed

end
