(* ===== verification/Evm_Call_Spec.thy ===== *)
theory Evm_Call_Spec
  imports Evm_Gas_Spec Evm_Precompiled_Spec
begin

text \<open>
  What message calls and contract creation guarantee, given an interpreter that guarantees the same
  of the code it runs (\<open>interp_ok\<close>): no panic, an allowed step of the machine, no more gas left than
  was given, and after an error the account state the call started from.
\<close>

section \<open>Predicates\<close>

definition run_good ::
    "evm_env \<Rightarrow> nat \<Rightarrow> evm \<Rightarrow> Contract \<Rightarrow> (evm \<times> Contract \<times> bytes \<times> vm_error option) outcome \<Rightarrow> bool" where
  "run_good env n ev c r \<longleftrightarrow>
     (case r of
        Panic p \<Rightarrow> p = JumpdestIndex
      | OutOfFuel \<Rightarrow> n \<le> unat (c_Gas c)
      | Ok (ev', c', ret, err) \<Rightarrow> ev_step env ev ev' \<and> unat (c_Gas c') \<le> unat (c_Gas c))"

definition interp_ok :: "evm_env \<Rightarrow> nat \<Rightarrow> runner \<Rightarrow> bool" where
  "interp_ok env n interp \<longleftrightarrow>
     (\<forall>ev c input. ev_ok env ev \<and> 0 \<le> c_value c \<and> unat (c_Gas c) < gas_cap \<longrightarrow>
        run_good env n ev c (interp ev c input))"

abbreviation ev_abs :: "evm_env \<Rightarrow> evm \<Rightarrow> abs_state" where
  "ev_abs env ev \<equiv> abs_db (ee_state env) (evm_StateDB ev)"

definition call_good :: "evm_env \<Rightarrow> nat \<Rightarrow> u64 \<Rightarrow> evm \<Rightarrow> callres \<Rightarrow> bool" where
  "call_good env n gas ev r \<longleftrightarrow>
     (case r of
        Panic p \<Rightarrow> p = JumpdestIndex
      | OutOfFuel \<Rightarrow> n \<le> unat gas
      | Ok (ev', ret, left, err) \<Rightarrow>
          ev_step env ev ev' \<and> unat left \<le> unat gas \<and> (err \<noteq> None \<longrightarrow> ev_abs env ev' = ev_abs env ev))"

definition bump_nonce :: "state_env \<Rightarrow> address \<Rightarrow> abs_state \<Rightarrow> abs_state" where
  "bump_nonce E a = a_on E a (\<lambda>ac. ac\<lparr>aa_nonce := aa_nonce ac + 1\<rparr>)"

definition create_good ::
    "evm_env \<Rightarrow> nat \<Rightarrow> u64 \<Rightarrow> address \<Rightarrow> evm \<Rightarrow>
     (evm \<times> bytes \<times> address \<times> u64 \<times> vm_error option) outcome \<Rightarrow> bool" where
  "create_good env n gas self ev r \<longleftrightarrow>
     (case r of
        Panic p \<Rightarrow> p = JumpdestIndex
      | OutOfFuel \<Rightarrow> n \<le> unat gas
      | Ok (ev', ret, addr, left, err) \<Rightarrow>
          ev_step env ev ev' \<and> unat left \<le> unat gas \<and>
          (err \<noteq> None \<longrightarrow> ev_abs env ev' = ev_abs env ev \<or>
             ev_abs env ev' = bump_nonce (ee_state env) self (ev_abs env ev)))"

section \<open>Running a contract\<close>

lemma evm_run_good:
  assumes "interp_ok env n interp" "env_ok env" "ev_ok env ev" "0 \<le> c_value c"
    "unat (c_Gas c) < gas_cap" "length input < input_cap"
  shows "run_good env n ev c (evm_run env interp ev c input)"
proof (cases "Option.bind (c_CodeAddr c) PrecompiledContractsByzantium")
  case None
  then have "evm_run env interp ev c input = interp ev c input"
    by (auto simp: evm_run_def split: option.splits)
  with assms show ?thesis by (simp add: interp_ok_def)
next
  case (Some p)
  obtain c' ret err where r: "RunPrecompiledContract env p input c = Ok (c', ret, err)"
    "unat (c_Gas c') \<le> unat (c_Gas c)"
    using RunPrecompiledContract_ok [OF assms(2,6), of c p] assms(5) by (auto simp: gas_cap_def)
  from Some have "evm_run env interp ev c input = Ok (ev, c', ret, err)"
    by (auto simp: evm_run_def bind_eq_Some_conv r)
  with r assms(3) show ?thesis by (simp add: run_good_def)
qed

text \<open>A call that ends with an error goes back to the snapshot.\<close>

lemma end_call_good:
  assumes run: "run_good env n ev c r" and inv: "db_inv (ee_state env) s"
    and sn: "Snapshot s = (i, s1)" and st: "db_step (ee_state env) (evm_readOnly ev) s1 (evm_StateDB ev)"
  shows "call_good env n (c_Gas c) (ev\<lparr>evm_StateDB := s\<rparr>) (end_call env i r)"
proof (cases r)
  case (Ok x)
  obtain ev' c' ret err where x: "x = (ev', c', ret, err)" by (cases x) auto
  from run Ok x have s: "ev_step env ev ev'" and g: "unat (c_Gas c') \<le> unat (c_Gas c)"
    by (simp_all add: run_good_def)
  let ?E = "ee_state env"
  have t: "db_step ?E (evm_readOnly ev) s1 (evm_StateDB ev')"
    using db_step_trans [OF st] s by (simp add: ev_step_def)
  show ?thesis
  proof (cases err)
    case None
    have "db_step ?E (evm_readOnly ev) s (evm_StateDB ev')"
      using db_step_trans [OF Snapshot_step [OF inv]] sn t by simp
    with None s g Ok x show ?thesis by (simp add: call_good_def end_call_def ev_step_def)
  next
    case (Some e)
    obtain u where u: "RevertToSnapshot ?E i (evm_StateDB ev') = Some u"
      "db_step ?E (evm_readOnly ev) s u" "abs_db ?E u = abs_db ?E s"
      using revert_step [OF inv sn, of "evm_StateDB ev'"] t by (auto simp: db_step_def)
    with Some s g Ok x UseGas_all [of c'] show ?thesis
      by (simp add: call_good_def end_call_def ev_step_def Let_def of_option_def)
  qed
qed (use run in \<open>simp_all add: run_good_def call_good_def end_call_def\<close>)

lemma SetCallCode_sel [simp]:
  "c_Gas (SetCallCode a h code c) = c_Gas c" "c_value (SetCallCode a h code c) = c_value c"
  by (simp_all add: SetCallCode_def)

lemma NewContract_sel [simp]:
  "c_Gas (NewContract caller obj val gas) = gas" "c_value (NewContract caller obj val gas) = val"
  by (simp_all add: NewContract_def)

lemma call_good_frame:
  "call_good env n g (ev\<lparr>evm_StateDB := t, evm_jumpdests := d, evm_StateDB := s\<rparr>) r =
   call_good env n g (ev\<lparr>evm_StateDB := s\<rparr>) r"
  by (simp add: call_good_def ev_step_def split: outcome.splits)

lemma run_code_of_good:
  assumes ok: "interp_ok env n interp" "env_ok env" "ev_ok env ev" "0 \<le> c_value c"
    "unat (c_Gas c) < gas_cap" "length input < input_cap"
    and inv: "db_inv (ee_state env) s"
    and sn: "Snapshot s = (i, s1)" and st: "db_step (ee_state env) (evm_readOnly ev) s1 (evm_StateDB ev)"
  shows "call_good env n (c_Gas c) (ev\<lparr>evm_StateDB := s\<rparr>) (run_code_of env interp i caller c addr input ev)"
proof -
  let ?E = "ee_state env" and ?ro = "evm_readOnly ev"
  obtain h db1 where h: "GetCodeHash ?E addr (evm_StateDB ev) = (h, db1)" by fastforce
  obtain code db2 where c: "GetCode ?E addr db1 = (code, db2)" by fastforce
  let ?d = "NewContract_jumpdests caller (evm_jumpdests ev)"
  let ?ev = "ev\<lparr>evm_StateDB := db2, evm_jumpdests := ?d\<rparr>"
  have "db_step ?E ?ro (evm_StateDB ev) db1"
    using load_step(5) [OF ev_ok_inv [OF ok(3)], of ?ro addr] h by simp
  moreover from this have "db_step ?E ?ro db1 db2"
    using load_step(8) [OF db_step_inv, of ?E ?ro _ db1 ?ro addr] c by simp
  ultimately have s: "db_step ?E ?ro (evm_StateDB ev) db2" by (rule db_step_trans)
  then have "ev_ok env ?ev" using ok(3) db_step_inv db_step_bal by (auto simp: ev_ok_def)
  then have "run_good env n ?ev (SetCallCode addr h code c)
      (evm_run env interp ?ev (SetCallCode addr h code c) input)"
    using ok by (intro evm_run_good) simp_all
  from end_call_good [OF this inv sn] db_step_trans [OF st s]
  have "call_good env n (c_Gas c) (?ev\<lparr>evm_StateDB := s\<rparr>)
      (end_call env i (evm_run env interp ?ev (SetCallCode addr h code c) input))" by simp
  then show ?thesis unfolding call_good_frame by (simp add: run_code_of_def h c)
qed

section \<open>The four calls\<close>

lemma call_good_pre:
  "call_good env n g ev1 r \<Longrightarrow> ev_step env ev ev1 \<Longrightarrow> ev_abs env ev1 = ev_abs env ev \<Longrightarrow>
   call_good env n g ev r"
  unfolding call_good_def using ev_step_trans by (auto split: outcome.splits)

lemma call_good_now:
  "ev_step env ev ev' \<Longrightarrow> ev_abs env ev' = ev_abs env ev \<Longrightarrow>
   call_good env n gas ev (Ok (ev', ret, gas, err))"
  by (simp add: call_good_def)

lemma Snapshot_facts:
  assumes "db_inv E s" "Snapshot s = (i, s1)"
  shows "db_inv E s1" "abs_db E s1 = abs_db E s" "db_step E ro s s1"
  using Snapshot_extends [OF assms(1)] Snapshot_step [OF assms(1), of ro] assms(2)
  by (auto dest: db_step_inv)

lemma Exist_facts:
  assumes "db_inv E s" "Exist E a s = (b, t)"
  shows "b \<longleftrightarrow> as_accounts (abs_db E s) a \<noteq> None" "abs_db E t = abs_db E s" "db_step E ro s t"
  using Exist_reads [of E a] load_step(1) [OF assms(1), of ro a] assms by (auto simp: reads_def)

lemma CanTransfer_facts:
  assumes "db_inv E s" "CanTransfer E a x s = (b, t)"
  shows "b \<longleftrightarrow> x \<le> abs_balance_of (abs_db E s) a" "db_step E ro s t" "abs_db E t = abs_db E s"
  using CanTransfer_spec(1,3) [OF assms(1), of a x] CanTransfer_spec(2) [OF assms(1), of ro a x] assms(2)
  by simp_all

lemma CreateAccount_balance:
  "db_inv E s \<Longrightarrow> abs_balance_of (abs_db E (CreateAccount E a s)) = abs_balance_of (abs_db E s)"
  using CreateAccount_refines [of E a]
  by (auto simp: refines_def a_create_def abs_balance_of_def a_get_def fun_eq_iff split: option.splits)

text \<open>Creating the callee, when it does not exist, and moving the value.\<close>

lemma call_transfer_step:
  assumes inv: "db_inv E s" and val: "0 \<le> val" "val \<le> abs_balance_of (abs_db E s) self" "ro \<longrightarrow> val = 0"
    and b: "b \<longleftrightarrow> as_accounts (abs_db E s) a \<noteq> None"
  shows "db_step E ro s (Transfer E self a val (if b then s else CreateAccount E a s))"
proof (cases b)
  case True
  with inv val show ?thesis by (simp add: Transfer_step)
next
  case False
  let ?t = "CreateAccount E a s"
  have t: "db_step E ro s ?t" using False b inv by (intro CreateAccount_new_step) simp_all
  moreover have "db_step E ro ?t (Transfer E self a val ?t)"
    by (rule Transfer_step [OF db_step_inv [OF t]]) (simp_all add: CreateAccount_balance [OF inv] val)
  ultimately show ?thesis using False db_step_trans by auto
qed

text \<open>What the calls share: the snapshot is taken in state \<open>s\<close>, which differs from the initial one
  only by loaded objects; the contract runs in the state \<open>t\<close>.\<close>

lemma call_body_good:
  assumes ok: "interp_ok env n interp" "env_ok env" "ev_ok env ev" "0 \<le> c_value c"
    "unat (c_Gas c) < gas_cap" "length input < input_cap"
    and s: "db_step (ee_state env) (evm_readOnly ev) (evm_StateDB ev) s"
    "abs_db (ee_state env) s = ev_abs env ev"
    and sn: "Snapshot s = (i, s1)" and ro: "evm_readOnly ev \<longrightarrow> ro"
    and st: "db_step (ee_state env) ro s1 t"
  shows "call_good env n (c_Gas c) (ev\<lparr>evm_readOnly := ro\<rparr>)
    (run_code_of env interp i caller c addr input (ev\<lparr>evm_StateDB := t, evm_readOnly := ro\<rparr>))"
proof (rule call_good_pre)
  let ?E = "ee_state env"
  note inv = db_step_inv [OF s(1)]
  note s1 = Snapshot_facts [OF inv sn]
  have "bal_ok (abs_db ?E s1)" using ok(3) s(2) s1(2) by (simp add: ev_ok_def)
  then have "ev_ok env (ev\<lparr>evm_StateDB := t, evm_readOnly := ro\<rparr>)"
    using db_step_inv [OF st] db_step_bal [OF st] by (simp add: ev_ok_def)
  from run_code_of_good [OF ok(1,2) this ok(4-6) inv sn] st
  show "call_good env n (c_Gas c) (ev\<lparr>evm_readOnly := ro, evm_StateDB := s\<rparr>)
    (run_code_of env interp i caller c addr input (ev\<lparr>evm_StateDB := t, evm_readOnly := ro\<rparr>))" by simp
  have "db_step ?E ro (evm_StateDB ev) s"
    using s by (auto simp: db_step_def)
  then show "ev_step env (ev\<lparr>evm_readOnly := ro\<rparr>) (ev\<lparr>evm_readOnly := ro, evm_StateDB := s\<rparr>)"
    by (simp add: ev_step_def)
qed (use s in simp)

lemma call_run_good:
  assumes "interp_ok env n interp" "env_ok env" "ev_ok env ev" "0 \<le> val" "unat gas < gas_cap"
    "length input < input_cap" "c_Gas c = gas" "c_value c = val"
    and "db_step (ee_state env) (evm_readOnly ev) (evm_StateDB ev) s"
    "abs_db (ee_state env) s = ev_abs env ev" "Snapshot s = (i, s1)"
    "db_step (ee_state env) (evm_readOnly ev) s1 t"
  shows "call_good env n gas ev
    (run_code_of env interp i caller c addr input (ev\<lparr>evm_StateDB := t\<rparr>))"
  using call_body_good [of env n interp ev c input s i s1 "evm_readOnly ev" t caller addr] assms
  by (cases ev) simp

lemma Call_good:
  assumes ok: "interp_ok env n interp" "env_ok env" "ev_ok env ev" "0 \<le> val"
    "unat gas < gas_cap" "length input < input_cap" and ro: "evm_readOnly ev \<longrightarrow> val = 0"
  shows "call_good env n gas ev (Call env interp caller addr input gas val ev)"
proof -
  let ?E = "ee_state env" and ?self = "ref_Address caller" and ?ro = "evm_readOnly ev"
  obtain can s where can: "CanTransfer ?E ?self val (evm_StateDB ev) = (can, s)" by fastforce
  obtain i s1 where sn: "Snapshot s = (i, s1)" by fastforce
  obtain b s2 where b: "Exist ?E addr s1 = (b, s2)" by fastforce
  note c = CanTransfer_facts [OF ev_ok_inv [OF ok(3)] can]
  note s1 = Snapshot_facts [OF db_step_inv [OF c(2)] sn]
  note s2 = Exist_facts [OF s1(1) b]
  have s: "db_step ?E ?ro (evm_StateDB ev) s2"
    using db_step_trans [OF db_step_trans [OF c(2) s1(3)] s2(3)] .
  let ?t = "Transfer ?E ?self addr val (if b then s2 else CreateAccount ?E addr s2)"
  have now: "call_good env n gas ev (Ok (ev\<lparr>evm_StateDB := u\<rparr>, ret, gas, err))"
    if "db_step ?E ?ro (evm_StateDB ev) u" "abs_db ?E u = ev_abs env ev" for u ret err
    using that by (intro call_good_now) (simp_all add: ev_step_db)
  have t: "db_step ?E ?ro s1 ?t" if can
  proof (rule db_step_trans [OF s2(3)])
    show "db_step ?E ?ro s2 ?t"
      using that c s1(2) s2 ok(4) ro by (intro call_transfer_step) (auto intro: db_step_inv)
  qed
  have run: "call_good env n gas ev (run_code_of env interp i caller (NewContract caller addr val gas)
      addr input (ev\<lparr>evm_StateDB := ?t\<rparr>))" if can
    by (rule call_run_good [OF ok _ _ c(2,3) sn t [OF that]]) simp_all
  show ?thesis
    using now [OF c(2,3)] now [OF s] run c(3) s1(2) s2(2) call_good_now [of env ev ev] ok(3)
    by (auto simp: Call_def Let_def can sn b)
qed

lemma CallCode_good:
  assumes ok: "interp_ok env n interp" "env_ok env" "ev_ok env ev" "0 \<le> val"
    "unat gas < gas_cap" "length input < input_cap"
  shows "call_good env n gas ev (CallCode env interp caller addr input gas val ev)"
proof -
  let ?E = "ee_state env" and ?self = "ref_Address caller" and ?ro = "evm_readOnly ev"
  obtain can s where can: "CanTransfer ?E ?self val (evm_StateDB ev) = (can, s)" by fastforce
  obtain i s1 where sn: "Snapshot s = (i, s1)" by fastforce
  note c = CanTransfer_facts [OF ev_ok_inv [OF ok(3)] can]
  note s1 = Snapshot_facts [OF db_step_inv [OF c(2)] sn]
  have "call_good env n gas ev (Ok (ev\<lparr>evm_StateDB := s\<rparr>, ret, gas, err))" for ret err
    using c by (intro call_good_now) (simp_all add: ev_step_db)
  moreover have "call_good env n gas ev (run_code_of env interp i caller (NewContract caller ?self val gas)
      addr input (ev\<lparr>evm_StateDB := s1\<rparr>))"
    by (rule call_run_good [OF ok _ _ c(2,3) sn db_step_refl [OF s1(1)]]) simp_all
  ultimately show ?thesis
    using call_good_now [of env ev ev] ok(3) by (auto simp: CallCode_def Let_def can sn)
qed

lemma AsDelegate_ok:
  "\<exists>d. AsDelegate (ContractOf p) c = Ok d \<and> c_Gas d = c_Gas c \<and> c_value d = c_value p"
  by (simp add: AsDelegate_def)

lemma DelegateCall_good:
  assumes ok: "interp_ok env n interp" "env_ok env" "ev_ok env ev" "0 \<le> c_value p"
    "unat gas < gas_cap" "length input < input_cap"
  shows "call_good env n gas ev (DelegateCall env interp (ContractOf p) addr input gas ev)"
proof -
  let ?E = "ee_state env"
  obtain i s1 where sn: "Snapshot (evm_StateDB ev) = (i, s1)" by fastforce
  note inv = ev_ok_inv [OF ok(3)]
  note s1 = Snapshot_facts [OF inv sn]
  obtain d where d: "AsDelegate (ContractOf p) (NewContract (ContractOf p) (c_self p) 0 gas) = Ok d"
    "c_Gas d = gas" "c_value d = c_value p"
    using AsDelegate_ok [of p "NewContract (ContractOf p) (c_self p) 0 gas"] by auto
  have "call_good env n gas ev (run_code_of env interp i (ContractOf p) d addr input (ev\<lparr>evm_StateDB := s1\<rparr>))"
    by (rule call_run_good [OF ok d(2,3) db_step_refl [OF inv] refl sn db_step_refl [OF s1(1)]])
  then show ?thesis
    using call_good_now [of env ev ev] ok(3) by (auto simp: DelegateCall_def sn d(1))
qed

text \<open>A static call runs in read-only mode and gives the mode back.\<close>

lemma static_return:
  assumes "call_good env n gas (ev\<lparr>evm_readOnly := True\<rparr>) r"
  shows "call_good env n gas ev
    (obind r (\<lambda>(ev', ret, left, err).
       Ok (if evm_readOnly ev then ev' else ev'\<lparr>evm_readOnly := False\<rparr>, ret, left, err)))"
  using assms by (cases r) (auto simp: call_good_def ev_step_def db_step_def a_step_weaken)

lemma StaticCall_good:
  assumes ok: "interp_ok env n interp" "env_ok env" "ev_ok env ev"
    "unat gas < gas_cap" "length input < input_cap"
  shows "call_good env n gas ev (StaticCall env interp caller addr input gas ev)"
proof -
  obtain i s1 where sn: "Snapshot (evm_StateDB ev) = (i, s1)" by fastforce
  note inv = ev_ok_inv [OF ok(3)]
  note s1 = Snapshot_facts [OF inv sn]
  have "call_good env n gas (ev\<lparr>evm_readOnly := True\<rparr>)
      (run_code_of env interp i caller (NewContract caller addr 0 gas) addr input
         (ev\<lparr>evm_StateDB := s1, evm_readOnly := True\<rparr>))"
    using call_body_good [OF ok(1-3) _ _ ok(5) db_step_refl [OF inv] refl sn _ db_step_refl [OF s1(1)],
        of "NewContract caller addr 0 gas" True] ok(4) by simp
  from static_return [OF this] show ?thesis
    using call_good_now [of env ev ev] ok(3) by (auto simp: StaticCall_def sn)
qed

lemma StaticCall_read_only:
  assumes ok: "interp_ok env n interp" "env_ok env" "ev_ok env ev"
    "unat gas < gas_cap" "length input < input_cap"
    and r: "StaticCall env interp caller addr input gas ev = Ok (ev', ret, left, err)"
  shows "ro_rel (ee_state env) (ev_abs env ev) (ev_abs env ev')"
proof -
  obtain i s1 where sn: "Snapshot (evm_StateDB ev) = (i, s1)" by fastforce
  note inv = ev_ok_inv [OF ok(3)]
  note s1 = Snapshot_facts [OF inv sn]
  let ?r = "run_code_of env interp i caller (NewContract caller addr 0 gas) addr input
         (ev\<lparr>evm_StateDB := s1, evm_readOnly := True\<rparr>)"
  have "call_good env n gas (ev\<lparr>evm_readOnly := True\<rparr>) ?r"
    using call_body_good [OF ok(1-3) _ _ ok(5) db_step_refl [OF inv] refl sn _ db_step_refl [OF s1(1)],
        of "NewContract caller addr 0 gas" True] ok(4) by simp
  then show ?thesis using r
    by (cases ?r) (auto simp: StaticCall_def sn call_good_def ev_step_def db_step_def a_step_def split: if_splits)
qed

section \<open>Contract creation\<close>

lemma UseGas_cases:
  "UseGas g c = (if c_Gas c < g then (False, c) else (True, c\<lparr>c_Gas := c_Gas c - g\<rparr>))"
  by (simp add: UseGas_def)

text \<open>The part of \<open>create_good\<close> that follows the snapshot.\<close>

definition create_from ::
    "evm_env \<Rightarrow> nat \<Rightarrow> u64 \<Rightarrow> evm \<Rightarrow> (evm \<times> bytes \<times> address \<times> u64 \<times> vm_error option) outcome \<Rightarrow> bool" where
  "create_from env n gas ev r \<longleftrightarrow>
     (case r of
        Panic p \<Rightarrow> p = JumpdestIndex
      | OutOfFuel \<Rightarrow> n \<le> unat gas
      | Ok (ev', ret, addr, left, err) \<Rightarrow>
          ev_step env ev ev' \<and> unat left \<le> unat gas \<and> (err \<noteq> None \<longrightarrow> ev_abs env ev' = ev_abs env ev))"

lemma create_from_frame:
  "create_from env n g (ev\<lparr>evm_jumpdests := d, evm_StateDB := s\<rparr>) r =
   create_from env n g (ev\<lparr>evm_StateDB := s\<rparr>) r"
  by (simp add: create_from_def ev_step_def split: outcome.splits)

lemma create_good_from:
  "create_from env n gas ev1 r \<Longrightarrow> ev_step env ev ev1 \<Longrightarrow>
   ev_abs env ev1 = bump_nonce (ee_state env) self (ev_abs env ev) \<Longrightarrow> create_good env n gas self ev r"
  unfolding create_from_def create_good_def using ev_step_trans by (auto split: outcome.splits)

lemma end_create_good:
  assumes run: "run_good env n ev c r" and inv: "db_inv (ee_state env) s" and ro: "\<not> evm_readOnly ev"
    and sn: "Snapshot s = (i, s1)" and st: "db_step (ee_state env) False s1 (evm_StateDB ev)"
  shows "create_from env n (c_Gas c) (ev\<lparr>evm_StateDB := s\<rparr>) (end_create env i addr r)"
proof (cases r)
  case (Ok x)
  obtain ev' c' ret err where x: "x = (ev', c', ret, err)" by (cases x) auto
  from run Ok x have s: "ev_step env ev ev'" and g: "unat (c_Gas c') \<le> unat (c_Gas c)"
    by (simp_all add: run_good_def)
  let ?E = "ee_state env" and ?cost = "of_nat (length ret) * CreateDataGas"
  let ?db = "SetCode ?E addr ret (evm_StateDB ev')"
  have t: "db_step ?E False s1 (evm_StateDB ev')"
    using db_step_trans [OF st] s ro by (simp add: ev_step_def)
  have d: "db_step ?E False s ?db"
    using db_step_trans [OF Snapshot_step [OF inv]] sn
      db_step_trans [OF t SetCode_step [OF db_step_inv [OF t]]] by auto
  obtain u where u: "RevertToSnapshot ?E i (evm_StateDB ev') = Some u"
      "db_step ?E False s u" "abs_db ?E u = abs_db ?E s"
    using revert_step [OF inv sn, of "evm_StateDB ev'"] t by (auto simp: db_step_def)
  have p: "\<not> c_Gas c' < ?cost \<Longrightarrow> unat (c_Gas c' - ?cost) \<le> unat (c_Gas c)"
    using UseGas_le [of ?cost c'] g by (simp add: UseGas_cases)
  from s have e: "evm_depth ev' = evm_depth ev" "evm_readOnly ev' = evm_readOnly ev"
    by (simp_all add: ev_step_def)
  consider "length ret > MaxCodeSize" | "length ret \<le> MaxCodeSize" "err \<noteq> None"
    | "length ret \<le> MaxCodeSize" "err = None" "c_Gas c' < ?cost"
    | "length ret \<le> MaxCodeSize" "err = None" "\<not> c_Gas c' < ?cost" by linarith
  then show ?thesis
    by cases (use u g e ro d p Ok x UseGas_all [of c'] in
      \<open>simp_all add: create_from_def end_create_def Let_def of_option_def ev_step_def UseGas_cases [of ?cost]\<close>)
qed (use run in \<open>simp_all add: run_good_def create_from_def end_create_def\<close>)

lemma SetNonce_balance:
  "db_inv E s \<Longrightarrow> abs_balance_of (abs_db E (SetNonce E a k s)) = abs_balance_of (abs_db E s)"
  using SetNonce_refines [of E a k]
  by (auto simp: refines_def a_on_alt abs_balance_of_def a_get_def account_or_new_def fun_eq_iff
      split: option.splits)

lemma bump_nonce_get:
  "a_on E a (\<lambda>ac. ac\<lparr>aa_nonce := a_get a aa_nonce 0 A + 1\<rparr>) A = bump_nonce E a A"
  by (simp add: bump_nonce_def a_on_eq a_get_def fresh_account_def zeroAccount_def newObject_def abs_obj_def
      split: option.splits)

lemma SetNonce_bump:
  assumes inv: "db_inv E s" and g: "GetNonce E a s = (k, t)"
  shows "abs_db E (SetNonce E a (k + 1) t) = bump_nonce E a (abs_db E s)"
    "db_step E False s (SetNonce E a (k + 1) t)"
    "abs_balance_of (abs_db E (SetNonce E a (k + 1) t)) = abs_balance_of (abs_db E s)"
proof -
  have t: "db_step E False s t" "abs_db E t = abs_db E s" "k = a_get a aa_nonce 0 (abs_db E s)"
    using GetNonce_reads [of E a] load_step(4) [OF inv, of False a] g inv by (auto simp: reads_def)
  note inv' = db_step_inv [OF t(1)]
  show "abs_db E (SetNonce E a (k + 1) t) = bump_nonce E a (abs_db E s)"
    using SetNonce_refines [of E a "k + 1"] inv' t(2) unfolding t(3) refines_def
    by (simp only: bump_nonce_get)
  show "db_step E False s (SetNonce E a (k + 1) t)"
    using db_step_trans [OF t(1) SetNonce_step [OF inv']] .
  show "abs_balance_of (abs_db E (SetNonce E a (k + 1) t)) = abs_balance_of (abs_db E s)"
    using SetNonce_balance [OF inv'] t(2) by simp
qed

lemma Create_good:
  assumes ok: "interp_ok env n interp" "env_ok env" "ev_ok env ev" "0 \<le> val" "unat gas < gas_cap"
    and ro: "\<not> evm_readOnly ev"
  shows "create_good env n gas (ref_Address caller) ev (Create env interp caller code gas val ev)"
proof -
  let ?E = "ee_state env" and ?self = "ref_Address caller"
  note tr = db_step_trans [of ?E False] and iv = db_step_inv [of ?E False]
  obtain can s where can: "CanTransfer ?E ?self val (evm_StateDB ev) = (can, s)" by fastforce
  note c = CanTransfer_facts [OF ev_ok_inv [OF ok(3)] can]
  obtain k s2 where k: "GetNonce ?E ?self s = (k, s2)" by fastforce
  note b = SetNonce_bump [OF iv [OF c(2)] k]
  let ?s3 = "SetNonce ?E ?self (k + 1) s2" and ?a = "CreateAddress (keccak256 ?E) ?self k"
  obtain h s4 where h: "GetCodeHash ?E ?a ?s3 = (h, s4)" by fastforce
  obtain k' s5 where k': "GetNonce ?E ?a s4 = (k', s5)" by fastforce
  obtain i s6 where sn: "Snapshot s5 = (i, s6)" by fastforce
  let ?s8 = "SetNonce ?E ?a 1 (CreateAccount ?E ?a s6)"
  let ?s9 = "Transfer ?E ?self ?a val ?s8"
  have s4: "db_step ?E False ?s3 s4" "abs_db ?E s4 = abs_db ?E ?s3"
    using load_step(5) [OF iv [OF b(2)], of False ?a] GetCodeHash_reads [of ?E ?a] iv [OF b(2)] h
    by (auto simp: reads_def)
  have s5: "db_step ?E False s4 s5" "abs_db ?E s5 = abs_db ?E s4"
    using load_step(4) [OF iv [OF s4(1)], of False ?a] GetNonce_reads [of ?E ?a] iv [OF s4(1)] k'
    by (auto simp: reads_def)
  have p5: "db_step ?E False (evm_StateDB ev) s5"
    using tr [OF tr [OF tr [OF c(2) b(2)] s4(1)] s5(1)] .
  note s6 = Snapshot_facts [OF iv [OF s5(1)] sn]
  note s7 = CreateAccount_step [OF s6(1), of ?a]
  note s8 = tr [OF s7 SetNonce_step [OF iv [OF s7], of ?a 1]]
  have bal: "abs_balance_of (abs_db ?E ?s8) = abs_balance_of (ev_abs env ev)"
    using SetNonce_balance [OF iv [OF s7]] CreateAccount_balance [OF s6(1)] s6(2) s5(2) s4(2) b(3) c(3) by simp
  have s9: "db_step ?E False s6 ?s9" if can
    using tr [OF s8 Transfer_step [OF iv [OF s8]]] ok(4) bal c(1) that by simp
  let ?d = "NewContract_jumpdests caller (evm_jumpdests ev)"
  let ?c = "SetCallCode ?a (keccak256 ?E code) code (NewContract caller ?a val gas)"
  let ?ev = "ev\<lparr>evm_StateDB := ?s9, evm_jumpdests := ?d\<rparr>"
  have run: "create_good env n gas ?self ev (end_create env i ?a (evm_run env interp ?ev ?c []))" if can
  proof -
    have "db_step ?E False (evm_StateDB ev) ?s9" using tr [OF tr [OF p5 s6(3)] s9 [OF that]] .
    then have "ev_ok env ?ev" using ok(3) db_step_inv db_step_bal by (auto simp: ev_ok_def)
    then have "run_good env n ?ev ?c (evm_run env interp ?ev ?c [])"
      using ok by (intro evm_run_good) simp_all
    from end_create_good [OF this iv [OF s5(1)] _ sn, of ?a] s9 [OF that] ro
    have "create_from env n gas (ev\<lparr>evm_StateDB := s5\<rparr>)
        (end_create env i ?a (evm_run env interp ?ev ?c []))"
      by (simp add: create_from_frame)
    then show ?thesis
      by (rule create_good_from) (use p5 ro s5(2) s4(2) b(1) c(3) in \<open>simp_all add: ev_step_db\<close>)
  qed
  show ?thesis
    using run c p5 s9 tr [OF tr [OF p5 s6(3)]] ro b(1) s4(2) s5(2)
      db_step_refl [OF ev_ok_inv [OF ok(3)], of False]
    by (auto simp: Create_def Let_def can k h k' sn create_good_def ev_step_def)
qed

end
