(* ===== verification/Evm_Call_Ops.thy ===== *)
theory Evm_Call_Ops
  imports Evm_Call_Spec
begin

text \<open>
  The instructions that start message calls: what they guarantee, from what the calls of
  \<open>Evm_Call_Spec\<close> guarantee.  The gas an inner call starts with was charged before, so the gas it
  gives back never exceeds what was paid.
\<close>

section \<open>Operands\<close>

lemma pop6:
  "6 \<le> length (f_stack fr) \<Longrightarrow>
   pop fr (\<lambda>a fr. pop fr (\<lambda>b fr. pop fr (\<lambda>c fr. pop fr (\<lambda>d fr. pop fr (\<lambda>e fr. pop fr (k a b c d e)))))) =
     k (f_stack fr ! 0) (f_stack fr ! 1) (f_stack fr ! 2) (f_stack fr ! 3) (f_stack fr ! 4) (f_stack fr ! 5)
       (fr\<lparr>f_stack := drop 6 (f_stack fr)\<rparr>)"
  by (auto simp: pop_def numeral_eq_Suc Suc_le_length_iff)

lemma pop7:
  "7 \<le> length (f_stack fr) \<Longrightarrow>
   pop fr (\<lambda>a fr. pop fr (\<lambda>b fr. pop fr (\<lambda>c fr. pop fr (\<lambda>d fr. pop fr (\<lambda>e fr. pop fr (\<lambda>f fr.
     pop fr (k a b c d e f))))))) =
     k (f_stack fr ! 0) (f_stack fr ! 1) (f_stack fr ! 2) (f_stack fr ! 3) (f_stack fr ! 4) (f_stack fr ! 5)
       (f_stack fr ! 6) (fr\<lparr>f_stack := drop 7 (f_stack fr)\<rparr>)"
  by (auto simp: pop_def numeral_eq_Suc Suc_le_length_iff)

lemma mem_ready_max:
  assumes "mem_ready (\<lambda>st. mem_size_max (mem_size2 i j st) (mem_size2 k l st)) fr" "ready env p ev fr"
    "i < p" "j < p" "k < p" "l < p"
  shows "calcMemSize (f_stack fr ! i) (f_stack fr ! j) \<le> int (length (m_store (f_mem fr)))"
    "calcMemSize (f_stack fr ! k) (f_stack fr ! l) \<le> int (length (m_store (f_mem fr)))"
  using assms readyD(3) [OF assms(2)]
  by (auto simp: mem_ready_def mem_size_max_def mem_size2_def Back_def BigMax_def split: if_splits)

lemma call_mem_funs:
  "memoryCall = (\<lambda>st. mem_size_max (mem_size2 5 6 st) (mem_size2 3 4 st))"
  "memoryCallCode = (\<lambda>st. mem_size_max (mem_size2 5 6 st) (mem_size2 3 4 st))"
  "memoryDelegateCall = (\<lambda>st. mem_size_max (mem_size2 4 5 st) (mem_size2 2 3 st))"
  "memoryStaticCall = (\<lambda>st. mem_size_max (mem_size2 4 5 st) (mem_size2 2 3 st))"
  by (simp_all add: fun_eq_iff memoryCall_def memoryCallCode_def memoryDelegateCall_def memoryStaticCall_def)

lemma mem_input_short:
  assumes "0 \<le> off" "0 \<le> sz" "calcMemSize off sz \<le> int (length (m_store m))" "length (m_store m) \<le> mem_cap"
  obtains args where "Memory_Get (big_Int64 off) (big_Int64 sz) m = Ok args" "length args < input_cap"
proof -
  have "length (if sz = 0 then [] else subslice (m_store m) (nat off) (nat (off + sz))) \<le> length (m_store m)"
    by (simp add: subslice_def min.coboundedI1)
  also have "\<dots> < input_cap" using assms(4) by (simp add: mem_cap_def)
  finally show ?thesis using that Memory_Get_ok [OF assms] by blast
qed

lemma unat_add_le: "unat (a + b :: u64) \<le> unat a + unat b"
  by (simp add: unat_word_ariths)

section \<open>The end of a call\<close>

lemma gas_of_add_gas:
  "gas_of fr + unat g < gas_cap \<Longrightarrow> gas_of (add_gas g fr) = gas_of fr + unat g"
  by (simp add: gas_of_def add_gas_def gas_cap_def unat_add_u64)

lemma add_gas_frame [simp]:
  "f_stack (add_gas g fr) = f_stack fr" "frame_ok (add_gas g fr) = frame_ok fr"
  "f_mem (add_gas g fr) = f_mem fr"
  by (simp_all add: add_gas_def frame_ok_def)

lemma end_call_op_exec:
  assumes call: "call_good env n gas ev r" and fr: "frame_ok fr'" "gas_of fr' = gas_of fr"
    "length (f_stack fr') = length (f_stack fr) - p"
    and x: "unat gas \<le> x" "gas_of fr + x < gas_cap"
    and mem: "0 \<le> off" "0 \<le> sz" "calcMemSize off sz \<le> int (length (m_store (f_mem fr')))"
  shows "exec_good env n p 1 x ev fr (end_call_op off sz fr' r)"
proof (cases r)
  case (Ok y)
  obtain ev' ret left err where y: "y = (ev', ret, left, err)" by (cases y) auto
  from call Ok y have s: "ev_step env ev ev'" and l: "unat left \<le> unat gas"
    by (simp_all add: call_good_def)
  obtain m' where m': "Memory_Set (big_Uint64 off) (big_Uint64 sz) ret (f_mem fr') = Ok m'"
    "length (m_store m') = length (m_store (f_mem fr'))"
    using fr(1) Memory_Set_length [OF mem, of ret] by (auto simp: frame_ok_def)
  let ?fr = "push (if err \<noteq> None then 0 else 1) fr'"
  let ?m = "if err = None \<or> err = Some ErrExecutionReverted then m' else f_mem fr'"
  have r: "end_call_op off sz fr' r = Ok (ev', add_gas left (?fr\<lparr>f_mem := ?m\<rparr>), ret, None)"
    using m' by (simp add: end_call_op_def Ok y Let_def)
  have "gas_of (add_gas left (?fr\<lparr>f_mem := ?m\<rparr>)) = gas_of fr + unat left"
    using x l fr(2) by (subst gas_of_add_gas) simp_all
  moreover have "frame_ok (?fr\<lparr>f_mem := ?m\<rparr>)"
    using fr(1) m'(2) by (auto simp: frame_ok_def push_def)
  moreover have "length (f_stack ?fr) = length (f_stack fr) - p + 1" using fr(3) by (simp add: push_def)
  ultimately show ?thesis using s l x unfolding r by (simp add: exec_good_def)
qed (use call x in \<open>simp_all add: call_good_def end_call_op_def exec_good_def\<close>)

section \<open>The instructions\<close>

lemma ready_frame_drop: "ready env p ev fr \<Longrightarrow> frame_ok (fr\<lparr>f_stack := drop k (f_stack fr)\<rparr>)"
  by (auto simp: ready_def frame_ok_def dest: in_set_dropD)

lemma ready_env: "ready env p ev fr \<Longrightarrow> env_ok env"
  by (simp add: ready_def)

lemma ready_contract: "ready env p ev fr \<Longrightarrow> 0 \<le> c_value (f_contract fr)"
  by (simp add: ready_def frame_ok_def)

lemma call_gas_le:
  "unat (big_Uint64 (st ! 0) + (if U256 (st ! 2) \<noteq> 0 then CallStipend else 0)) \<le> pass_gas_value st"
  using unat_add_le [of "big_Uint64 (st ! 0)" CallStipend]
  by (auto simp: pass_gas_value_def U256_def)

lemma U256_zero: "U256 0 = 0"
  by (simp add: U256_def)

lemma opCall_exec:
  assumes r: "ready env 7 ev fr" and i: "interp_ok env n interp" and m: "mem_ready memoryCall fr"
    and g: "gas_of fr + pass_gas_value (f_stack fr) < gas_cap"
    and ro: "evm_readOnly ev \<longrightarrow> f_stack fr ! 2 = 0"
  shows "exec_good env n 7 1 (pass_gas_value (f_stack fr)) ev fr (opCall interp env ev fr)"
proof -
  let ?st = "f_stack fr" and ?fr = "fr\<lparr>f_stack := drop 7 (f_stack fr)\<rparr>"
  let ?gas = "big_Uint64 (?st ! 0) + (if U256 (?st ! 2) \<noteq> 0 then CallStipend else 0)"
  note nn = ready_nonneg [OF r] and mr = mem_ready_max [OF m [unfolded call_mem_funs] r]
  obtain args where a: "Memory_Get (big_Int64 (?st ! 3)) (big_Int64 (?st ! 4)) (f_mem fr) = Ok args"
    "length args < input_cap"
    using mem_input_short [of "?st ! 3" "?st ! 4" "f_mem fr"] nn mr r by (auto simp: ready_def frame_ok_def)
  let ?r = "Call env interp (ContractOf (f_contract fr)) (BigToAddress (?st ! 1)) args ?gas (U256 (?st ! 2)) ev"
  have "call_good env n ?gas ev ?r"
    using r i g ro a(2) call_gas_le [of ?st] by (intro Call_good) (auto simp: readyD ready_env [OF r] U256_zero)
  then have "exec_good env n 7 1 (pass_gas_value ?st) ev fr (end_call_op (?st ! 5) (?st ! 6) ?fr ?r)"
    by (rule end_call_op_exec)
       (use g call_gas_le [of ?st] nn mr ready_frame_drop [OF r] in simp_all)
  then show ?thesis using a(1) r by (simp add: opCall_def pop7 readyD Let_def)
qed

lemma opCallCode_exec:
  assumes r: "ready env 7 ev fr" and i: "interp_ok env n interp" and m: "mem_ready memoryCall fr"
    and g: "gas_of fr + pass_gas_value (f_stack fr) < gas_cap"
  shows "exec_good env n 7 1 (pass_gas_value (f_stack fr)) ev fr (opCallCode interp env ev fr)"
proof -
  let ?st = "f_stack fr" and ?fr = "fr\<lparr>f_stack := drop 7 (f_stack fr)\<rparr>"
  let ?gas = "big_Uint64 (?st ! 0) + (if U256 (?st ! 2) \<noteq> 0 then CallStipend else 0)"
  note nn = ready_nonneg [OF r] and mr = mem_ready_max [OF m [unfolded call_mem_funs] r]
  obtain args where a: "Memory_Get (big_Int64 (?st ! 3)) (big_Int64 (?st ! 4)) (f_mem fr) = Ok args"
    "length args < input_cap"
    using mem_input_short [of "?st ! 3" "?st ! 4" "f_mem fr"] nn mr r by (auto simp: ready_def frame_ok_def)
  let ?r = "CallCode env interp (ContractOf (f_contract fr)) (BigToAddress (?st ! 1)) args ?gas (U256 (?st ! 2)) ev"
  have "call_good env n ?gas ev ?r"
    using r i g a(2) call_gas_le [of ?st] by (intro CallCode_good) (auto simp: readyD ready_env [OF r] U256_zero)
  then have "exec_good env n 7 1 (pass_gas_value ?st) ev fr (end_call_op (?st ! 5) (?st ! 6) ?fr ?r)"
    by (rule end_call_op_exec)
       (use g call_gas_le [of ?st] nn mr ready_frame_drop [OF r] in simp_all)
  then show ?thesis using a(1) r by (simp add: opCallCode_def pop7 readyD Let_def)
qed

lemma opDelegateCall_exec:
  assumes r: "ready env 6 ev fr" and i: "interp_ok env n interp" and m: "mem_ready memoryDelegateCall fr"
    and g: "gas_of fr + pass_gas (f_stack fr) < gas_cap"
  shows "exec_good env n 6 1 (pass_gas (f_stack fr)) ev fr (opDelegateCall interp env ev fr)"
proof -
  let ?st = "f_stack fr" and ?fr = "fr\<lparr>f_stack := drop 6 (f_stack fr)\<rparr>"
  let ?gas = "big_Uint64 (?st ! 0)"
  note nn = ready_nonneg [OF r] and mr = mem_ready_max [OF m [unfolded call_mem_funs] r]
  obtain args where a: "Memory_Get (big_Int64 (?st ! 2)) (big_Int64 (?st ! 3)) (f_mem fr) = Ok args"
    "length args < input_cap"
    using mem_input_short [of "?st ! 2" "?st ! 3" "f_mem fr"] nn mr r by (auto simp: ready_def frame_ok_def)
  let ?r = "DelegateCall env interp (ContractOf (f_contract fr)) (BigToAddress (?st ! 1)) args ?gas ev"
  have "call_good env n ?gas ev ?r"
    using r i g a(2) ready_contract [OF r] by (intro DelegateCall_good) (auto simp: readyD ready_env [OF r] pass_gas_def)
  then have "exec_good env n 6 1 (pass_gas ?st) ev fr (end_call_op (?st ! 4) (?st ! 5) ?fr ?r)"
    by (rule end_call_op_exec)
       (use g nn mr ready_frame_drop [OF r] in \<open>simp_all add: pass_gas_def\<close>)
  then show ?thesis using a(1) r by (simp add: opDelegateCall_def pop6 readyD Let_def)
qed

lemma opStaticCall_exec:
  assumes r: "ready env 6 ev fr" and i: "interp_ok env n interp" and m: "mem_ready memoryStaticCall fr"
    and g: "gas_of fr + pass_gas (f_stack fr) < gas_cap"
  shows "exec_good env n 6 1 (pass_gas (f_stack fr)) ev fr (opStaticCall interp env ev fr)"
proof -
  let ?st = "f_stack fr" and ?fr = "fr\<lparr>f_stack := drop 6 (f_stack fr)\<rparr>"
  let ?gas = "big_Uint64 (?st ! 0)"
  note nn = ready_nonneg [OF r] and mr = mem_ready_max [OF m [unfolded call_mem_funs] r]
  obtain args where a: "Memory_Get (big_Int64 (?st ! 2)) (big_Int64 (?st ! 3)) (f_mem fr) = Ok args"
    "length args < input_cap"
    using mem_input_short [of "?st ! 2" "?st ! 3" "f_mem fr"] nn mr r by (auto simp: ready_def frame_ok_def)
  let ?r = "StaticCall env interp (ContractOf (f_contract fr)) (BigToAddress (?st ! 1)) args ?gas ev"
  have "call_good env n ?gas ev ?r"
    using r i g a(2) by (intro StaticCall_good) (auto simp: readyD ready_env [OF r] pass_gas_def)
  then have "exec_good env n 6 1 (pass_gas ?st) ev fr (end_call_op (?st ! 4) (?st ! 5) ?fr ?r)"
    by (rule end_call_op_exec)
       (use g nn mr ready_frame_drop [OF r] in \<open>simp_all add: pass_gas_def\<close>)
  then show ?thesis using a(1) r by (simp add: opStaticCall_def pop6 readyD Let_def)
qed

lemma opCreate_exec:
  assumes r: "ready env 3 ev fr" and i: "interp_ok env n interp" and m: "mem_ready memoryCreate fr"
    and g: "gas_of fr < gas_cap" and ro: "\<not> evm_readOnly ev"
  shows "exec_good env n 3 1 0 ev fr (opCreate interp env ev fr)"
proof -
  let ?st = "f_stack fr" and ?fr = "fr\<lparr>f_stack := drop 3 (f_stack fr)\<rparr>"
  let ?g0 = "c_Gas (f_contract fr)"
  let ?gas = "?g0 - ?g0 div 64"
  let ?fr1 = "use_gas ?gas ?fr"
  note nn = ready_nonneg [OF r] and mr = mem_ready2 [OF m [unfolded mem_funs_eq] r]
  obtain args where a: "Memory_Get (big_Int64 (?st ! 1)) (big_Int64 (?st ! 2)) (f_mem fr) = Ok args"
    using mem_input_short [of "?st ! 1" "?st ! 2" "f_mem fr"] nn mr r by (auto simp: ready_def frame_ok_def)
  have d: "unat (?g0 div 64) = unat ?g0 div 64" by (simp add: unat_div)
  then have u: "unat ?gas = unat ?g0 - unat ?g0 div 64" by (simp add: unat_sub_u64 word_le_nat_alt)
  then have le: "unat ?gas \<le> unat ?g0" "\<not> ?g0 < ?gas" by (simp_all add: word_less_nat_alt)
  have fr1: "gas_of ?fr1 + unat ?gas = gas_of fr" "frame_ok ?fr1" "f_stack ?fr1 = drop 3 ?st"
    using le u d ready_frame_drop [OF r, of 3]
    by (simp_all add: gas_of_def use_gas_def UseGas_def frame_ok_def unat_sub_u64 word_le_nat_alt word_less_nat_alt)
  let ?r = "Create env interp (ContractOf (f_contract ?fr1)) args ?gas (?st ! 0) ev"
  have cg: "create_good env n ?gas (ref_Address (ContractOf (f_contract ?fr1))) ev ?r"
    using r i g ro le nn by (intro Create_good) (auto simp: readyD ready_env [OF r] gas_of_def)
  have eq: "opCreate interp env ev fr = obind ?r (\<lambda>(ev', res, addr, returnGas, suberr).
      Ok (ev', add_gas returnGas (push (if suberr \<noteq> None then 0 else Address_Big addr) ?fr1),
          if suberr = Some ErrExecutionReverted then res else [], None))"
    using a r by (simp add: opCreate_def pop3 readyD Let_def)
  have fin: "exec_good env n 3 1 0 ev fr (Ok (ev', add_gas left (push v ?fr1), res, None))"
    if "ev_step env ev ev'" "unat left \<le> unat ?gas" "0 \<le> v" for ev' left v res
    using that fr1 g readyD(3) [OF r] gas_of_add_gas [of "push v ?fr1" left]
    by (simp add: exec_good_def frame_ok_push)
  show ?thesis unfolding eq
  proof (cases ?r)
    case (Ok y)
    then show "exec_good env n 3 1 0 ev fr (obind ?r (\<lambda>(ev', res, addr, returnGas, suberr).
      Ok (ev', add_gas returnGas (push (if suberr \<noteq> None then 0 else Address_Big addr) ?fr1),
          if suberr = Some ErrExecutionReverted then res else [], None)))"
      using cg fin by (cases y) (simp add: create_good_def)
  qed (use cg fr1(1) in \<open>simp_all add: create_good_def exec_good_def\<close>)
qed

end
