(* ===== verification/Evm_Safety.thy ===== *)
theory Evm_Safety
  imports Evm_Call_Ops
begin

text \<open>
  Safety of the interpreter: every row of the jump table keeps what it declares (\<open>row_ok\<close>), so one
  pass of the loop keeps the invariant of the frame and pays at least one unit of gas unless it
  stops, and by induction on the fuel the loop does not panic, terminates when the fuel exceeds the
  gas, and never gains gas.
\<close>

section \<open>Rows of the jump table\<close>

text \<open>What \<open>enforceRestrictions\<close> leaves: in read-only mode no writing operation and no call with
  value.\<close>

definition may_run :: "byte \<Rightarrow> operation \<Rightarrow> evm \<Rightarrow> stack \<Rightarrow> bool" where
  "may_run op o1 ev st \<longleftrightarrow> (evm_readOnly ev \<longrightarrow> \<not> op_writes o1 \<and> (op = OP_CALL \<longrightarrow> st ! 2 = 0))"

definition row_spec ::
    "evm_env \<Rightarrow> nat \<Rightarrow> runner \<Rightarrow> byte \<Rightarrow> operation \<Rightarrow> nat \<Rightarrow> nat \<Rightarrow> nat \<Rightarrow> (stack \<Rightarrow> nat) \<Rightarrow> bool" where
  "row_spec env n interp op o1 p q k xtra \<longleftrightarrow>
     op_validateStack o1 = makeStackFunc p q \<and>
     (k = 0 \<longrightarrow> op_halts o1 \<or> op_reverts o1) \<and>
     (\<forall>f. op_memorySize o1 = Some f \<longrightarrow> mem_total p f \<and>
        (xtra \<noteq> (\<lambda>st. 0) \<longrightarrow> (\<forall>st st'. tl st' = tl st \<and> length st' = length st \<and> p \<le> length st \<longrightarrow> f st' = f st))) \<and>
     (\<forall>ev fr ms. ready env p ev fr \<and> may_run op o1 ev (f_stack fr) \<longrightarrow>
        gas_good env (op_memorySize o1 \<noteq> None) k xtra ev fr ms
          (op_gasCost o1 GasTableEIP158 env ev fr ms)) \<and>
     (\<forall>ev fr. ready env p ev fr \<and> may_run op o1 ev (f_stack fr) \<and>
          (\<forall>f. op_memorySize o1 = Some f \<longrightarrow> mem_ready f fr) \<and>
          gas_of fr + xtra (f_stack fr) < gas_cap \<longrightarrow>
        exec_good env (if k = 0 then Suc n else n) p q (xtra (f_stack fr)) ev fr
          (op_execute o1 interp env ev fr))"

lemma row_specD:
  assumes "row_spec env n interp op o1 p q k xtra"
  shows "op_validateStack o1 = makeStackFunc p q" "k = 0 \<Longrightarrow> op_halts o1 \<or> op_reverts o1"
    "op_memorySize o1 = Some f \<Longrightarrow> mem_total p f"
    "op_memorySize o1 = Some f \<Longrightarrow> xtra \<noteq> (\<lambda>st. 0) \<Longrightarrow> tl st' = tl st \<Longrightarrow> length st' = length st \<Longrightarrow>
       p \<le> length st \<Longrightarrow> f st' = f st"
    "ready env p ev fr \<Longrightarrow> may_run op o1 ev (f_stack fr) \<Longrightarrow>
       gas_good env (op_memorySize o1 \<noteq> None) k xtra ev fr ms (op_gasCost o1 GasTableEIP158 env ev fr ms)"
    "ready env p ev fr \<Longrightarrow> may_run op o1 ev (f_stack fr) \<Longrightarrow>
       (\<And>f. op_memorySize o1 = Some f \<Longrightarrow> mem_ready f fr) \<Longrightarrow> gas_of fr + xtra (f_stack fr) < gas_cap \<Longrightarrow>
       exec_good env (if k = 0 then Suc n else n) p q (xtra (f_stack fr)) ev fr (op_execute o1 interp env ev fr)"
  using assms unfolding row_spec_def by blast+

definition row_ok :: "evm_env \<Rightarrow> nat \<Rightarrow> runner \<Rightarrow> byte \<Rightarrow> operation \<Rightarrow> bool" where
  "row_ok env n interp op o1 \<longleftrightarrow> (\<exists>p q k xtra. row_spec env n interp op o1 p q k xtra)"

lemma op_sel [simp]:
  "op_execute (mk_op ex gas vs) = ex" "op_gasCost (mk_op ex gas vs) = gas"
  "op_validateStack (mk_op ex gas vs) = vs" "op_memorySize (mk_op ex gas vs) = None"
  "\<not> op_writes (mk_op ex gas vs)" "\<not> op_halts (mk_op ex gas vs)" "\<not> op_reverts (mk_op ex gas vs)"
  "op_valid (mk_op ex gas vs)"
  by (simp_all add: mk_op_def)

text \<open>Rows that call no other contract, without and with memory.\<close>

lemma plain_row:
  assumes "\<And>m ev fr. ready env p ev fr \<Longrightarrow> exec_good env m p q 0 ev fr (ex env ev fr)"
    and "\<And>ev fr ms. ready env p ev fr \<Longrightarrow> gas_good env False 1 (\<lambda>st. 0) ev fr ms (gas GasTableEIP158 env ev fr ms)"
  shows "row_ok env n interp op (plain ex gas (makeStackFunc p q))"
    "row_ok env n interp op ((plain ex gas (makeStackFunc p q))\<lparr>op_jumps := True\<rparr>)"
  unfolding row_ok_def
  by (rule exI [of _ p], rule exI [of _ q], rule exI [of _ 1], rule exI [of _ "\<lambda>st. 0"],
      use assms in \<open>simp add: row_spec_def plain_def\<close>)+

lemma write_row:
  assumes "\<And>m ev fr. ready env p ev fr \<Longrightarrow> \<not> evm_readOnly ev \<Longrightarrow> exec_good env m p q 0 ev fr (ex env ev fr)"
    and "\<And>ev fr ms. ready env p ev fr \<Longrightarrow> \<not> evm_readOnly ev \<Longrightarrow>
      gas_good env False k (\<lambda>st. 0) ev fr ms (gas GasTableEIP158 env ev fr ms)"
  shows "0 < k \<Longrightarrow> row_ok env n interp op ((plain ex gas (makeStackFunc p q))\<lparr>op_writes := True\<rparr>)"
    "row_ok env n interp op ((plain ex gas (makeStackFunc p q))\<lparr>op_halts := True, op_writes := True\<rparr>)"
  unfolding row_ok_def
  by (rule exI [of _ p], rule exI [of _ q], rule exI [of _ k], rule exI [of _ "\<lambda>st. 0"],
      use assms in \<open>simp add: row_spec_def plain_def may_run_def\<close>)+

lemma mem_row:
  assumes "\<And>m ev fr. ready env p ev fr \<Longrightarrow> mem_ready f fr \<Longrightarrow> exec_good env m p q 0 ev fr (ex env ev fr)"
    and "\<And>ev fr ms. ready env p ev fr \<Longrightarrow> gas_good env True 1 (\<lambda>st. 0) ev fr ms (gas GasTableEIP158 env ev fr ms)"
    and "mem_total p f"
  shows "row_ok env n interp op (with_mem f (plain ex gas (makeStackFunc p q)))"
  unfolding row_ok_def
  by (rule exI [of _ p], rule exI [of _ q], rule exI [of _ 1], rule exI [of _ "\<lambda>st. 0"],
      use assms in \<open>simp add: row_spec_def plain_def with_mem_def\<close>)

lemma mem_end_row:
  assumes "\<And>m ev fr. ready env p ev fr \<Longrightarrow> mem_ready f fr \<Longrightarrow> exec_good env m p q 0 ev fr (ex env ev fr)"
    and "\<And>ev fr ms. ready env p ev fr \<Longrightarrow> gas_good env True 0 (\<lambda>st. 0) ev fr ms (gas GasTableEIP158 env ev fr ms)"
    and "mem_total p f"
  shows "row_ok env n interp op ((with_mem f (plain ex gas (makeStackFunc p q)))\<lparr>op_halts := True\<rparr>)"
    "row_ok env n interp op ((with_mem f (plain ex gas (makeStackFunc p q)))\<lparr>op_reverts := True, op_returns := True\<rparr>)"
  unfolding row_ok_def
  by (rule exI [of _ p], rule exI [of _ q], rule exI [of _ 0], rule exI [of _ "\<lambda>st. 0"],
      use assms in \<open>simp add: row_spec_def plain_def with_mem_def\<close>)+

lemma stop_row: "row_ok env n interp op ((plain opStop (constGasFunc 0) (makeStackFunc 0 0))\<lparr>op_halts := True\<rparr>)"
  unfolding row_ok_def
  by (rule exI [of _ 0], rule exI [of _ 0], rule exI [of _ 0], rule exI [of _ "\<lambda>st. 0"])
     (auto simp: row_spec_def plain_def opStop_exec intro: constGasFunc_good)


section \<open>Memory size functions\<close>

lemma mem_total2: "i < p \<Longrightarrow> j < p \<Longrightarrow> mem_total p (mem_size2 i j)"
  by (auto simp: mem_total_def mem_size2_def Back_def calcMemSize_def)

lemma mem_total_const: "i < p \<Longrightarrow> 0 \<le> l \<Longrightarrow> mem_total p (mem_size_const i l)"
  by (auto simp: mem_total_def mem_size_const_def Back_def calcMemSize_def)

lemma mem_total_max:
  "i < p \<Longrightarrow> j < p \<Longrightarrow> k < p \<Longrightarrow> l < p \<Longrightarrow>
   mem_total p (\<lambda>st. mem_size_max (mem_size2 i j st) (mem_size2 k l st))"
  by (auto simp: mem_total_def mem_size_max_def mem_size2_def Back_def calcMemSize_def BigMax_def)

lemma list_all_rows: "list_all P xs \<Longrightarrow> map_of xs k = Some v \<Longrightarrow> P (k, v)"
  by (auto simp: list_all_iff dest: map_of_SomeD)

section \<open>The table\<close>

lemma log_row:
  "row_ok env n interp op ((with_mem memoryLog (plain (makeLog k) (makeGasLog (of_nat k)) (makeStackFunc (k + 2) 0)))
     \<lparr>op_writes := True\<rparr>)"
proof -
  have "mem_total (k + 2) memoryLog" by (simp add: mem_funs_eq mem_total2)
  then have "row_spec env n interp op ((with_mem memoryLog (plain (makeLog k) (makeGasLog (of_nat k))
      (makeStackFunc (k + 2) 0)))\<lparr>op_writes := True\<rparr>) (k + 2) 0 1 (\<lambda>st. 0)"
    using makeLog_exec [of env k] makeGasLog_good [of env k]
    by (simp add: row_spec_def plain_def with_mem_def may_run_def)
  then show ?thesis unfolding row_ok_def by blast
qed

lemma sstore_row:
  "row_ok env n interp op ((plain opSstore gasSStore (makeStackFunc 2 0))\<lparr>op_writes := True\<rparr>)"
  by (rule write_row(1) [where k = 1], erule (1) opSstore_exec, erule (1) gasSStore_good, simp)

lemma suicide_row:
  "row_ok env n interp op ((plain opSuicide gasSuicide (makeStackFunc 1 0))\<lparr>op_halts := True, op_writes := True\<rparr>)"
  by (rule write_row(2) [where k = 0], erule (1) opSuicide_exec, erule (1) gasSuicide_good)

lemma end_rows:
  "row_ok env n interp op ((with_mem memoryReturn (plain opReturn gasReturn (makeStackFunc 2 0)))\<lparr>op_halts := True\<rparr>)"
  "row_ok env n interp op
     ((with_mem memoryRevert (plain opRevert gasRevert (makeStackFunc 2 0)))\<lparr>op_reverts := True, op_returns := True\<rparr>)"
  by (rule mem_end_row, erule (1) exec_rules, erule gas_rules, simp add: mem_funs_eq mem_total2)+

lemma const_gas_good:
  "ready env p ev fr \<Longrightarrow> 1 \<le> unat c \<Longrightarrow> gas_good env False 1 (\<lambda>st. 0) ev fr ms (constGasFunc c gt env ev fr ms)"
  by (rule constGasFunc_good)

lemma frontier_arith_ok: "list_all (\<lambda>(op, o1). row_ok env n interp op o1) frontier_arith"
  unfolding frontier_arith_def list.pred_inject(2) prod.case
  by (intro conjI stop_row sstore_row list.pred_inject(1);
      rule plain_row mem_row;
      (erule exec_rules | erule (1) exec_rules | (erule gas_rules; simp) | erule (1) gas_rules |
       (rule const_gas_good, assumption, simp) | (simp add: mem_funs_eq mem_total2 mem_total_const)))

lemma frontier_context_ok: "list_all (\<lambda>(op, o1). row_ok env n interp op o1) frontier_context"
  unfolding frontier_context_def list.pred_inject(2) prod.case
  by (intro conjI stop_row sstore_row list.pred_inject(1);
      rule plain_row mem_row;
      (erule exec_rules | erule (1) exec_rules | (erule gas_rules; simp) | erule (1) gas_rules |
       (rule const_gas_good, assumption, simp) | (simp add: mem_funs_eq mem_total2 mem_total_const)))

lemma frontier_storage_ok: "list_all (\<lambda>(op, o1). row_ok env n interp op o1) frontier_storage"
  unfolding frontier_storage_def list.pred_inject(2) prod.case
  by (intro conjI stop_row sstore_row list.pred_inject(1);
      rule plain_row mem_row;
      (erule exec_rules | erule (1) exec_rules | (erule gas_rules; simp) | erule (1) gas_rules |
       (rule const_gas_good, assumption, simp) | (simp add: mem_funs_eq mem_total2 mem_total_const)))


lemma stack_rows:
  "row_ok env n interp op (plain (makePush sz k) gasPush (makeStackFunc 0 1))"
  "row_ok env n interp op (plain (makeDup (k + 1)) gasDup (makeDupStackFunc (k + 1)))"
  "row_ok env n interp op (plain (makeSwap (k + 1)) gasSwap (makeSwapStackFunc (k + 2)))"
proof -
  have e: "k + 1 + 1 = k + 2" by simp
  show "row_ok env n interp op (plain (makePush sz k) gasPush (makeStackFunc 0 1))"
    by (rule plain_row, erule exec_rules, erule gas_rules)
  show "row_ok env n interp op (plain (makeDup (k + 1)) gasDup (makeDupStackFunc (k + 1)))"
    unfolding makeDupStackFunc_def e by (rule plain_row, erule exec_rules, erule gas_rules)
  show "row_ok env n interp op (plain (makeSwap (k + 1)) gasSwap (makeSwapStackFunc (k + 2)))"
    unfolding makeSwapStackFunc_def by (rule plain_row, erule exec_rules, erule gas_rules)
qed

lemma frontier_stack_ok:
  "list_all (\<lambda>(op, o1). row_ok env n interp op o1) frontier_push"
  "list_all (\<lambda>(op, o1). row_ok env n interp op o1) frontier_dup"
  "list_all (\<lambda>(op, o1). row_ok env n interp op o1) frontier_swap"
  "list_all (\<lambda>(op, o1). row_ok env n interp op o1) frontier_log"
  unfolding frontier_push_def frontier_dup_def frontier_swap_def frontier_log_def
    list.pred_map o_def prod.case
  unfolding list_all_iff by (intro ballI stack_rows log_row)+

text \<open>The rows that start other contracts.\<close>

lemma call_row:
  assumes "\<And>ev fr. ready env p ev fr \<Longrightarrow> may_run op o1 ev (f_stack fr) \<Longrightarrow> mem_ready f fr \<Longrightarrow>
      gas_of fr + xtra (f_stack fr) < gas_cap \<Longrightarrow>
      exec_good env n p q (xtra (f_stack fr)) ev fr (ex interp env ev fr)"
    and "\<And>ev fr ms. ready env p ev fr \<Longrightarrow> gas_good env True 1 xtra ev fr ms (gas GasTableEIP158 env ev fr ms)"
    and "mem_total p f"
    and "xtra \<noteq> (\<lambda>st. 0) \<Longrightarrow>
      \<forall>st st'. tl st' = tl st \<and> length st' = length st \<and> p \<le> length st \<longrightarrow> f st' = f st"
    and "op_execute o1 = ex" "op_gasCost o1 = gas" "op_validateStack o1 = makeStackFunc p q"
      "op_memorySize o1 = Some f"
  shows "row_ok env n interp op o1"
  unfolding row_ok_def
  by (rule exI [of _ p], rule exI [of _ q], rule exI [of _ 1], rule exI [of _ xtra])
     (use assms in \<open>simp add: row_spec_def\<close>)

lemma mem_max_top:
  assumes "0 < i" "0 < j" "0 < k" "0 < l"
  shows "\<forall>st st'. tl st' = tl st \<and> length st' = length st \<and> p \<le> length st \<longrightarrow>
    mem_size_max (mem_size2 i j st') (mem_size2 k l st') = mem_size_max (mem_size2 i j st) (mem_size2 k l st)"
proof (intro allI impI)
  fix st st' :: stack
  assume "tl st' = tl st \<and> length st' = length st \<and> p \<le> length st"
  then have "Back m st' = Back m st" if "0 < m" for m
    using that by (cases st; cases st') (auto simp: Back_def nth_Cons split: nat.splits)
  with assms show "mem_size_max (mem_size2 i j st') (mem_size2 k l st') =
      mem_size_max (mem_size2 i j st) (mem_size2 k l st)"
    by (simp add: mem_size_max_def mem_size2_def)
qed

lemma call_mem_top:
  "\<forall>st st'. tl st' = tl st \<and> length st' = length st \<and> p \<le> length st \<longrightarrow> memoryCall st' = memoryCall st"
  "\<forall>st st'. tl st' = tl st \<and> length st' = length st \<and> p \<le> length st \<longrightarrow> memoryDelegateCall st' = memoryDelegateCall st"
  "\<forall>st st'. tl st' = tl st \<and> length st' = length st \<and> p \<le> length st \<longrightarrow> memoryStaticCall st' = memoryStaticCall st"
  unfolding call_mem_funs by (rule mem_max_top; simp)+

lemma call_rows:
  assumes i: "interp_ok env n interp"
  shows "row_ok env n interp OP_CREATE ((with_mem memoryCreate (mk_op opCreate gasCreate (makeStackFunc 3 1)))
      \<lparr>op_writes := True, op_returns := True\<rparr>)"
    "row_ok env n interp OP_CALL ((with_mem memoryCall (mk_op opCall gasCall (makeStackFunc 7 1)))\<lparr>op_returns := True\<rparr>)"
    "row_ok env n interp op ((with_mem memoryCall (mk_op opCallCode gasCallCode (makeStackFunc 7 1)))\<lparr>op_returns := True\<rparr>)"
    "row_ok env n interp op ((with_mem memoryDelegateCall (mk_op opDelegateCall gasDelegateCall (makeStackFunc 6 1)))
      \<lparr>op_returns := True\<rparr>)"
    "row_ok env n interp op ((with_mem memoryStaticCall (mk_op opStaticCall gasStaticCall (makeStackFunc 6 1)))
      \<lparr>op_returns := True\<rparr>)"
proof -
  show "row_ok env n interp OP_CREATE ((with_mem memoryCreate (mk_op opCreate gasCreate (makeStackFunc 3 1)))
      \<lparr>op_writes := True, op_returns := True\<rparr>)"
    by (rule call_row [where p = 3 and q = 1 and f = memoryCreate and xtra = "\<lambda>st. 0"])
       (rule opCreate_exec [OF _ i] gas_rules | simp add: with_mem_def may_run_def mem_total2 mem_funs_eq)+
  show "row_ok env n interp OP_CALL ((with_mem memoryCall (mk_op opCall gasCall (makeStackFunc 7 1)))\<lparr>op_returns := True\<rparr>)"
    by (rule call_row [where p = 7 and q = 1 and f = memoryCall and xtra = pass_gas_value])
       (rule opCall_exec [OF _ i] call_mem_top gas_rules | assumption |
        simp add: with_mem_def may_run_def mem_total_max call_mem_funs)+
  show "row_ok env n interp op ((with_mem memoryCall (mk_op opCallCode gasCallCode (makeStackFunc 7 1)))\<lparr>op_returns := True\<rparr>)"
    by (rule call_row [where p = 7 and q = 1 and f = memoryCall and xtra = pass_gas_value])
       (rule opCallCode_exec [OF _ i] call_mem_top gas_rules | assumption |
        simp add: with_mem_def may_run_def mem_total_max call_mem_funs)+
  show "row_ok env n interp op ((with_mem memoryDelegateCall (mk_op opDelegateCall gasDelegateCall (makeStackFunc 6 1)))
      \<lparr>op_returns := True\<rparr>)"
    by (rule call_row [where p = 6 and q = 1 and f = memoryDelegateCall and xtra = pass_gas])
       (rule opDelegateCall_exec [OF _ i] call_mem_top gas_rules | assumption |
        simp add: with_mem_def may_run_def mem_total_max call_mem_funs)+
  show "row_ok env n interp op ((with_mem memoryStaticCall (mk_op opStaticCall gasStaticCall (makeStackFunc 6 1)))
      \<lparr>op_returns := True\<rparr>)"
    by (rule call_row [where p = 6 and q = 1 and f = memoryStaticCall and xtra = pass_gas])
       (rule opStaticCall_exec [OF _ i] call_mem_top gas_rules | assumption |
        simp add: with_mem_def may_run_def mem_total_max call_mem_funs)+
qed

lemma frontier_ops_ok:
  "interp_ok env n interp \<Longrightarrow> list_all (\<lambda>(op, o1). row_ok env n interp op o1) frontier_ops"
  unfolding frontier_ops_def list_all_append
  by (intro conjI frontier_arith_ok frontier_context_ok frontier_storage_ok frontier_stack_ok)
     (unfold frontier_system_def list.pred_inject(2) prod.case,
      intro conjI list.pred_inject(1) call_rows end_rows suicide_row)

theorem table_ok:
  assumes i: "interp_ok env n interp" and v: "op_valid (NewByzantiumInstructionSet op)"
  shows "row_ok env n interp op (NewByzantiumInstructionSet op)"
proof -
  have f: "row_ok env n interp op (NewFrontierInstructionSet op)" if "op_valid (NewFrontierInstructionSet op)"
  proof (cases "map_of frontier_ops op")
    case None
    with that show ?thesis by (simp add: NewFrontierInstructionSet_def invalid_op_def plain_def mk_op_def)
  next
    case (Some o1)
    with list_all_rows [OF frontier_ops_ok [OF i] Some] show ?thesis
      by (simp add: NewFrontierInstructionSet_def)
  qed
  have other: "NewByzantiumInstructionSet op = NewFrontierInstructionSet op"
    if "op \<noteq> OP_STATICCALL" "op \<noteq> OP_RETURNDATASIZE" "op \<noteq> OP_RETURNDATACOPY" "op \<noteq> OP_REVERT"
      "op \<noteq> OP_DELEGATECALL"
    using that by (simp add: NewByzantiumInstructionSet_def NewHomesteadInstructionSet_def)
  consider "op = OP_STATICCALL" | "op = OP_RETURNDATASIZE" | "op = OP_RETURNDATACOPY" | "op = OP_REVERT"
    | "op = OP_DELEGATECALL"
    | "NewByzantiumInstructionSet op = NewFrontierInstructionSet op"
    using other by blast
  then show ?thesis
  proof cases
    case 1
    then show ?thesis using call_rows(5) [OF i] by (simp add: NewByzantiumInstructionSet_def)
  next
    case 2
    have "row_ok env n interp op (plain opReturnDataSize (constGasFunc GasQuickStep) (makeStackFunc 0 1))"
      by (rule plain_row, erule exec_rules, rule const_gas_good, assumption, simp)
    with 2 show ?thesis by (simp add: NewByzantiumInstructionSet_def)
  next
    case 3
    have "row_ok env n interp op
        (with_mem memoryReturnDataCopy (plain opReturnDataCopy gasReturnDataCopy (makeStackFunc 3 0)))"
      by (rule mem_row, erule (1) exec_rules, erule gas_rules, simp, simp add: mem_funs_eq mem_total2)
    with 3 show ?thesis by (simp add: NewByzantiumInstructionSet_def)
  next
    case 4
    then show ?thesis using end_rows(2) by (simp add: NewByzantiumInstructionSet_def)
  next
    case 5
    then show ?thesis using call_rows(4) [OF i]
      by (simp add: NewByzantiumInstructionSet_def NewHomesteadInstructionSet_def)
  next
    case 6
    then show ?thesis using f v by simp
  qed
qed

end
