(* ===== verification/Evm_Loop.thy ===== *)
theory Evm_Loop
  imports Evm_Safety
begin

text \<open>
  The loop of the interpreter.  One pass keeps the invariant of the frame, by what the rows of the
  jump table guarantee; the induction on the fuel then covers nested calls, because an inner call
  starts with gas that was charged before.
\<close>

section \<open>Predicates\<close>

definition loop_good :: "evm_env \<Rightarrow> nat \<Rightarrow> evm \<Rightarrow> frame \<Rightarrow> opres \<Rightarrow> bool" where
  "loop_good env n ev fr r \<longleftrightarrow>
     (case r of
        Panic p \<Rightarrow> p = JumpdestIndex
      | OutOfFuel \<Rightarrow> n \<le> gas_of fr
      | Ok (ev', fr', ret, err) \<Rightarrow> ev_step env ev ev' \<and> gas_of fr' \<le> gas_of fr)"

definition loop_inv :: "evm_env \<Rightarrow> evm \<Rightarrow> frame \<Rightarrow> bool" where
  "loop_inv env ev fr \<longleftrightarrow>
     ev_ok env ev \<and> frame_ok fr \<and> length (f_stack fr) \<le> StackLimit \<and> gas_of fr < gas_cap"

definition looper_ok :: "evm_env \<Rightarrow> nat \<Rightarrow> looper \<Rightarrow> bool" where
  "looper_ok env n L \<longleftrightarrow> (\<forall>ev fr. loop_inv env ev fr \<longrightarrow> loop_good env n ev fr (L ev fr))"

lemma loop_good_stop: "ev_step env ev ev' \<Longrightarrow> gas_of fr' \<le> gas_of fr \<Longrightarrow> loop_good env n ev fr (Ok (ev', fr', ret, err))"
  by (simp add: loop_good_def)

lemma loop_good_next:
  "loop_good env n ev1 fr1 r \<Longrightarrow> ev_step env ev ev1 \<Longrightarrow> gas_of fr1 < gas_of fr \<Longrightarrow>
   loop_good env (Suc n) ev fr r"
  unfolding loop_good_def using ev_step_trans by (fastforce split: outcome.splits)

section \<open>Before the execution\<close>

lemma byz_call:
  "NewByzantiumInstructionSet OP_CALL =
     (with_mem memoryCall (mk_op opCall gasCall (makeStackFunc 7 1)))\<lparr>op_returns := True\<rparr>"
  by (simp add: NewByzantiumInstructionSet_def NewHomesteadInstructionSet_def NewFrontierInstructionSet_def
      frontier_ops_def frontier_arith_def frontier_context_def frontier_storage_def frontier_push_def
      frontier_dup_def frontier_swap_def frontier_log_def frontier_system_def upt_rec map_of_append)

lemma makeStackFunc_None:
  "makeStackFunc p q st = None \<longleftrightarrow> p \<le> length st \<and> length st - p + q \<le> StackLimit"
  by (auto simp: makeStackFunc_def stack_require_def)

lemma restrictions_spec:
  assumes v: "op_validateStack (NewByzantiumInstructionSet op) st = None"
  obtains (refused) e where
      "enforceRestrictions (evm_readOnly ev) op (NewByzantiumInstructionSet op) st = Ok (Some e)"
  | (allowed) "enforceRestrictions (evm_readOnly ev) op (NewByzantiumInstructionSet op) st = Ok None"
      "may_run op (NewByzantiumInstructionSet op) ev st"
proof -
  have "7 \<le> length st" if "op = OP_CALL"
    using v makeStackFunc_None [of 7 1 st] unfolding that byz_call by (simp add: with_mem_def)
  then have "Back 2 st = Ok (st ! 2)" if "op = OP_CALL" using that by (simp add: Back_def)
  then show ?thesis using that
    by (cases "evm_readOnly ev"; cases "op_writes (NewByzantiumInstructionSet op)"; cases "op = OP_CALL";
        cases "st ! 2 = 0") (simp_all add: enforceRestrictions_def may_run_def BitLen_pos_iff)
qed

lemma required_memory_spec:
  assumes f: "\<And>f. op_memorySize o1 = Some f \<Longrightarrow> mem_total p f"
    and st: "p \<le> length st" "\<forall>x \<in> set st. 0 \<le> x"
  obtains (error) e where "required_memory o1 st = Ok (Inl e)"
  | (size) ms where "required_memory o1 st = Ok (Inr ms)"
      "\<And>f. op_memorySize o1 = Some f \<Longrightarrow> \<exists>sz. f st = Ok sz \<and> sz \<le> int (unat ms)"
      "op_memorySize o1 = None \<Longrightarrow> ms = 0"
proof (cases "op_memorySize o1")
  case None
  then show ?thesis using that(2) [of 0] by (simp add: required_memory_def)
next
  case (Some f)
  with f st obtain sz where sz: "f st = Ok sz" "0 \<le> sz" unfolding mem_total_def by blast
  let ?r = "ebind (safe_big sz) (\<lambda>memSize. safe_mul (toWordSize memSize) 32)"
  have r: "required_memory o1 st = Ok ?r" by (simp add: required_memory_def Some sz)
  show ?thesis
  proof (cases ?r)
    case (Inr ms)
    then obtain s where "s = big_Uint64 sz" "\<bar>sz\<bar> < 18446744073709551616" "safe_mul (toWordSize s) 32 = Inr ms"
      by (auto simp: ebind_Inr safe_big_Inr)
    then have "sz \<le> int (unat ms)"
      using toWordSize_mul_32(2) [of s ms] sz(2) by (simp add: unat_big_Uint64 nat_le_iff)
    with Inr r sz Some that(2) show ?thesis by simp
  qed (use that(1) r in simp)
qed

lemma charge_spec:
  assumes env: "env_ok env"
    and g: "gas_good env mem k xtra ev fr ms (op_gasCost o1 GasTableEIP158 env ev fr ms)"
  obtains (unpaid) ev1 fr1 where "charge env o1 ev fr ms = Ok (ev1, fr1, False)"
      "ev_step env ev ev1" "gas_of fr1 = gas_of fr"
  | (paid) ev1 fr1 where "charge env o1 ev fr ms = Ok (ev1, fr1, True)" "ev_step env ev ev1"
      "gas_of fr1 + k + xtra (f_stack fr1) \<le> gas_of fr" "mem \<Longrightarrow> unat ms \<le> mem_cap"
      "c_value (f_contract fr1) = c_value (f_contract fr)" "m_store (f_mem fr1) = m_store (f_mem fr)"
      "\<forall>x \<in> set (f_stack fr1). 0 \<le> x" "length (f_stack fr1) = length (f_stack fr)"
      "tl (f_stack fr1) = tl (f_stack fr)" "xtra = (\<lambda>st. 0) \<Longrightarrow> f_stack fr1 = f_stack fr"
proof -
  from g obtain ev1 fr1 r where r: "op_gasCost o1 GasTableEIP158 env ev fr ms = Ok (ev1, fr1, r)"
    and s: "ev_step env ev ev1" and c: "f_contract fr1 = f_contract fr" "m_store (f_mem fr1) = m_store (f_mem fr)"
    "\<forall>x \<in> set (f_stack fr1). 0 \<le> x" "length (f_stack fr1) = length (f_stack fr)"
    "tl (f_stack fr1) = tl (f_stack fr)" "xtra = (\<lambda>st. 0) \<longrightarrow> f_stack fr1 = f_stack fr"
    and cost: "\<And>cost. r = Inr cost \<Longrightarrow> (mem \<longrightarrow> unat ms \<le> mem_cap) \<and> k + xtra (f_stack fr1) \<le> unat cost"
    unfolding gas_good_def by blast
  have m: "\<not> ee_DisableGasMetering env" using env by (simp add: env_ok_def)
  show ?thesis
  proof (cases r)
    case (Inl e)
    then show ?thesis using unpaid [of ev1 fr1] r s c m by (simp add: charge_def gas_of_def)
  next
    case (Inr cost)
    show ?thesis
    proof (cases "c_Gas (f_contract fr) < cost")
      case True
      then show ?thesis using unpaid [of ev1 fr1] r s c m Inr
        by (simp add: charge_def gas_of_def UseGas_def)
    next
      case False
      let ?fr = "fr1\<lparr>f_contract := (f_contract fr)\<lparr>c_Gas := c_Gas (f_contract fr) - cost\<rparr>\<rparr>"
      have "charge env o1 ev fr ms = Ok (ev1, ?fr, True)"
        using r c m Inr False by (simp add: charge_def UseGas_def)
      moreover have "gas_of ?fr + unat cost = gas_of fr"
        using False by (simp add: gas_of_def unat_sub_u64 word_le_nat_alt word_less_nat_alt)
      ultimately show ?thesis using paid [of ev1 ?fr] cost [OF Inr] s c by simp
    qed
  qed
qed

section \<open>One pass\<close>

lemma after_execute_good:
  assumes r: "exec_good env n' p q x ev1 fr2 r" and step: "ev_step env ev ev1" and ok: "ev_ok env ev"
    and gas: "gas_of fr2 + x + k \<le> gas_of fr" "gas_of fr < gas_cap"
    and n': "n' = (if k = 0 then Suc n else n)"
    and st: "length (f_stack fr2) - p + q \<le> StackLimit"
    and L: "looper_ok env n continue" and stops: "k = 0 \<longrightarrow> op_halts o1 \<or> op_reverts o1"
  shows "loop_good env (Suc n) ev fr (obind r (after_execute continue o1))"
proof (cases r)
  case (Ok y)
  obtain ev2 fr3 res err where y: "y = (ev2, fr3, res, err)" by (cases y) auto
  let ?ev = "if op_returns o1 then ev2\<lparr>evm_returnData := res\<rparr> else ev2"
  from r Ok y have s: "ev_step env ev ev2" and g: "gas_of fr3 \<le> gas_of fr2 + x"
    and f: "err = None \<Longrightarrow> frame_ok fr3 \<and> length (f_stack fr3) \<le> StackLimit"
    using step ev_step_trans st by (auto simp: exec_good_def)
  have s': "ev_step env ev ?ev" using s by simp
  have cont: "loop_good env (Suc n) ev fr (continue ?ev (fr3\<lparr>f_pc := pc\<rparr>))" if "err = None" "k \<noteq> 0" for pc
  proof -
    have "loop_inv env ?ev (fr3\<lparr>f_pc := pc\<rparr>)"
      using f [OF that(1)] ev_step_ok [OF s' ok] g gas by (simp add: loop_inv_def frame_ok_def)
    then have "loop_good env n ?ev (fr3\<lparr>f_pc := pc\<rparr>) (continue ?ev (fr3\<lparr>f_pc := pc\<rparr>))"
      using L by (simp add: looper_ok_def)
    then show ?thesis by (rule loop_good_next [OF _ s']) (use g gas(1) that(2) in simp)
  qed
  have "loop_good env (Suc n) ev fr (continue ?ev fr3)" if "err = None" "k \<noteq> 0"
    using cont [OF that, of "f_pc fr3"] by simp
  then show ?thesis using Ok y s g gas(1) cont stops
    by (auto simp: after_execute_def Let_def intro!: loop_good_stop split: option.splits)
qed (use r gas n' in \<open>auto simp: exec_good_def loop_good_def split: if_splits\<close>)

text \<open>The frame an operation starts with, after its gas and memory were charged.\<close>

lemma charged_ready:
  assumes fr: "frame_ok fr" "p \<le> length (f_stack fr)" and env: "env_ok env" and ev: "ev_ok env ev1"
    and fr1: "c_value (f_contract fr1) = c_value (f_contract fr)" "m_store (f_mem fr1) = m_store (f_mem fr)"
      "\<forall>x \<in> set (f_stack fr1). 0 \<le> x" "length (f_stack fr1) = length (f_stack fr)"
    and ms: "unat ms \<le> mem_cap"
    and fr2: "fr2 = (if ms > 0 then fr1\<lparr>f_mem := Memory_Resize (unat ms) (f_mem fr1)\<rparr> else fr1)"
  shows "ready env p ev1 fr2" "gas_of fr2 = gas_of fr1" "f_stack fr2 = f_stack fr1"
    "unat ms \<le> length (m_store (f_mem fr2))"
proof -
  show r: "unat ms \<le> length (m_store (f_mem fr2))"
    by (cases "ms = 0") (simp_all add: fr2 length_Memory_Resize word_gt_0)
  show "ready env p ev1 fr2" "gas_of fr2 = gas_of fr1" "f_stack fr2 = f_stack fr1"
    using fr env ev fr1 ms by (auto simp: fr2 ready_def frame_ok_def length_Memory_Resize)
qed

text \<open>The part of a pass that follows the computation of the memory size.\<close>

definition pay_and_execute ::
    "evm_env \<Rightarrow> runner \<Rightarrow> looper \<Rightarrow> operation \<Rightarrow> u64 \<Rightarrow> looper" where
  "pay_and_execute env interp continue o1 ms ev fr =
     obind (charge env o1 ev fr ms) (\<lambda>(ev1, fr1, paid).
       if \<not> paid then Ok (ev1, fr1, [], Some ErrOutOfGas)
       else
         (let fr2 = (if ms > 0 then fr1\<lparr>f_mem := Memory_Resize (unat ms) (f_mem fr1)\<rparr> else fr1)
          in obind (op_execute o1 interp env ev1 fr2) (after_execute continue o1)))"

lemma pay_and_execute_good:
  assumes env: "env_ok env" and L: "looper_ok env n continue" and i: "interp_ok env n interp"
    and inv: "loop_inv env ev fr" and row: "row_spec env n interp op o1 p q k xtra"
    and st: "p \<le> length (f_stack fr)" "length (f_stack fr) - p + q \<le> StackLimit"
    and run: "may_run op o1 ev (f_stack fr)"
    and mem: "\<And>f. op_memorySize o1 = Some f \<Longrightarrow> \<exists>sz. f (f_stack fr) = Ok sz \<and> sz \<le> int (unat ms)"
      "op_memorySize o1 = None \<Longrightarrow> ms = 0"
  shows "loop_good env (Suc n) ev fr (pay_and_execute env interp continue o1 ms ev fr)"
proof -
  from inv have ev: "ev_ok env ev" and fr: "frame_ok fr" and cap: "gas_of fr < gas_cap"
    by (simp_all add: loop_inv_def)
  have "ready env p ev fr" using env ev fr st by (simp add: ready_def)
  from row_specD(5) [OF row this run] have g: "gas_good env (op_memorySize o1 \<noteq> None) k xtra ev fr ms
      (op_gasCost o1 GasTableEIP158 env ev fr ms)" .
  show ?thesis
  proof (cases rule: charge_spec [OF env g])
    case (1 ev1 fr1)
    then show ?thesis by (simp add: pay_and_execute_def loop_good_stop)
  next
    case (2 ev1 fr1)
    note paid = 2
    define fr2 where "fr2 = (if ms > 0 then fr1\<lparr>f_mem := Memory_Resize (unat ms) (f_mem fr1)\<rparr> else fr1)"
    have "unat ms \<le> mem_cap" using paid(4) mem(2) by (cases "op_memorySize o1") simp_all
    note c = charged_ready [OF fr st(1) env ev_step_ok [OF paid(2) ev] paid(5-8) this fr2_def]
    have same: "f (f_stack fr1) = f (f_stack fr)" if "op_memorySize o1 = Some f" for f
      using row_specD(4) [OF row that _ paid(9,8) st(1)] paid(10) by (cases "xtra = (\<lambda>st. 0)") simp_all
    have mr: "mem_ready f fr2" if "op_memorySize o1 = Some f" for f
    proof -
      have "int (unat ms) \<le> int (length (m_store (f_mem fr2)))" using c(4) by (simp only: of_nat_le_iff)
      with mem(1) [OF that] show ?thesis
        unfolding mem_ready_def c(3) same [OF that] by (blast intro: order_trans)
    qed
    have "f_stack fr1 ! 2 = f_stack fr ! 2"
      using paid(8,9) by (cases "f_stack fr1"; cases "f_stack fr") simp_all
    then have "may_run op o1 ev1 (f_stack fr2)"
      using run paid(2) c(3) by (simp add: may_run_def ev_step_def)
    moreover have "gas_of fr2 + xtra (f_stack fr2) < gas_cap" using c(2,3) paid(3) cap by simp
    ultimately have "exec_good env (if k = 0 then Suc n else n) p q (xtra (f_stack fr2)) ev1 fr2
        (op_execute o1 interp env ev1 fr2)"
      using row_specD(6) [OF row c(1)] mr by blast
    then have "loop_good env (Suc n) ev fr (obind (op_execute o1 interp env ev1 fr2) (after_execute continue o1))"
      by (rule after_execute_good [OF _ paid(2) ev _ cap refl _ L])
         (use c(2,3) paid(3,8) st row_specD(2) [OF row] in auto)
    with paid(1) show ?thesis by (simp add: pay_and_execute_def fr2_def Let_def)
  qed
qed

lemma step_good:
  assumes env: "env_ok env" and L: "looper_ok env n continue" and i: "interp_ok env n interp"
    and inv: "loop_inv env ev fr"
  shows "loop_good env (Suc n) ev fr (step env interp continue ev fr)"
proof -
  let ?op = "GetOp (f_contract fr) (f_pc fr)"
  let ?o = "NewByzantiumInstructionSet ?op" and ?st = "f_stack fr"
  from inv have ev: "ev_ok env ev" and fr: "frame_ok fr" and cap: "gas_of fr < gas_cap"
    by (simp_all add: loop_inv_def)
  have nn: "\<forall>x \<in> set ?st. 0 \<le> x" using fr by (simp add: frame_ok_def)
  note stop = loop_good_stop [OF ev_step_refl [OF ev] order_refl]
  show ?thesis
  proof (cases "op_valid ?o \<and> op_validateStack ?o ?st = None")
    case False
    then show ?thesis by (auto simp: step_def Let_def intro!: stop split: option.splits)
  next
    case True
    then have v: "op_valid ?o" "op_validateStack ?o ?st = None" by simp_all
    from table_ok [OF i v(1)] obtain p q k xtra where row: "row_spec env n interp ?op ?o p q k xtra"
      unfolding row_ok_def by blast
    from v(2) have st: "p \<le> length ?st" "length ?st - p + q \<le> StackLimit"
      unfolding row_specD(1) [OF row] makeStackFunc_None by blast+
    show ?thesis
    proof (cases rule: restrictions_spec [OF v(2), of ev])
      case (1 e)
      with v show ?thesis by (simp add: step_def Let_def stop)
    next
      case 2
      note allowed = 2
      show ?thesis
      proof (rule required_memory_spec [of ?o p ?st])
        show "mem_total p f" if "op_memorySize ?o = Some f" for f
          using row_specD(3) [OF row that] .
        show "p \<le> length ?st" "\<forall>x \<in> set ?st. 0 \<le> x" using st nn by simp_all
        show ?thesis if "required_memory ?o ?st = Ok (Inl e)" for e
          using v allowed that by (simp add: step_def Let_def stop)
        show ?thesis if r: "required_memory ?o ?st = Ok (Inr ms)"
          and m: "\<And>f. op_memorySize ?o = Some f \<Longrightarrow> \<exists>sz. f ?st = Ok sz \<and> sz \<le> int (unat ms)"
            "op_memorySize ?o = None \<Longrightarrow> ms = 0" for ms
        proof -
          have "loop_good env (Suc n) ev fr (pay_and_execute env interp continue ?o ms ev fr)"
            by (rule pay_and_execute_good [OF env L i inv row st allowed(2)]) (use m in blast)+
          with v allowed r show ?thesis by (simp add: step_def Let_def pay_and_execute_def)
        qed
      qed
    qed
  qed
qed

lemma loop_body_good:
  assumes env: "env_ok env" and L: "looper_ok env n continue" and i: "interp_ok env n interp"
  shows "looper_ok env (Suc n) (loop_body env interp continue)"
  unfolding looper_ok_def
proof (intro allI impI)
  fix ev fr assume inv: "loop_inv env ev fr"
  have abort: "loop_inv env (ev\<lparr>evm_abort := b\<rparr>) fr" for b using inv by (simp add: loop_inv_def)
  have keep: "loop_good env m (ev\<lparr>evm_abort := b\<rparr>) fr r = loop_good env m ev fr r" for b m r
    by (simp add: loop_good_def ev_step_def split: outcome.splits)
  have "ev_step env ev ev" using inv by (simp add: loop_inv_def)
  with step_good [OF env L i inv] step_good [OF env L i abort, unfolded keep]
  show "loop_good env (Suc n) ev fr (loop_body env interp continue ev fr)"
    by (simp add: loop_body_def loop_good_stop split: option.splits nat.splits)
qed

section \<open>The loop\<close>

lemma ev_step_depth:
  "ev_step env (ev\<lparr>evm_depth := evm_depth ev + 1, evm_returnData := rd\<rparr>) ev' \<Longrightarrow>
   ev_step env ev (ev'\<lparr>evm_depth := evm_depth ev' - 1\<rparr>)"
  by (simp add: ev_step_def)

lemma Interpreter_Run_good:
  assumes L: "looper_ok env n L"
  shows "interp_ok env n (Interpreter_Run L)"
  unfolding interp_ok_def
proof (intro allI impI)
  fix ev :: evm and c :: Contract and input
  assume a: "ev_ok env ev \<and> 0 \<le> c_value c \<and> unat (c_Gas c) < gas_cap"
  let ?ev = "ev\<lparr>evm_depth := evm_depth ev + 1, evm_returnData := []\<rparr>"
  let ?fr = "new_frame (c\<lparr>c_Input := input\<rparr>)"
  have g: "gas_of ?fr = unat (c_Gas c)" by (simp add: gas_of_def new_frame_def)
  have "loop_inv env ?ev ?fr"
    using a by (simp add: loop_inv_def frame_ok_def gas_of_def new_frame_def NewMemory_def)
  with L have l: "loop_good env n ?ev ?fr (L ?ev ?fr)" by (simp add: looper_ok_def)
  show "run_good env n ev c (Interpreter_Run L ev c input)"
  proof (cases "c_Code c = []")
    case True
    then show ?thesis using a
      by (simp add: Interpreter_Run_def run_good_def Let_def ev_step_def ev_ok_def)
  next
    case False
    with l g ev_step_depth [of env "[]" ev] show ?thesis
      by (cases "L ?ev ?fr") (auto simp: Interpreter_Run_def run_good_def loop_good_def Let_def gas_of_def)
  qed
qed

theorem run_loop_good: "env_ok env \<Longrightarrow> looper_ok env n (run_loop env n)"
proof (induction n)
  case 0
  then show ?case by (simp add: looper_ok_def loop_good_def)
next
  case (Suc n)
  then show ?case using loop_body_good [OF Suc.prems _ Interpreter_Run_good] by (simp add: looper_ok_def)
qed

theorem interpreter_good: "env_ok env \<Longrightarrow> interp_ok env n (interpreter env n)"
  unfolding interpreter_def by (rule Interpreter_Run_good [OF run_loop_good])

end
