(* ===== verification/State_Transition_Spec.thy ===== *)
theory State_Transition_Spec
  imports State_Transition Evm_Loop
begin

text \<open>
  The contract of \<open>ApplyMessage\<close>.  \<open>settles E d s t\<close> says that the database went from \<open>s\<close> to \<open>t\<close> with
  the balances still non-negative and the sum of all balances grown by at most \<open>d\<close>; buying gas settles
  a negative amount, refunds and the fee of the block's author settle positive ones, and over a whole
  message they cancel.  \<open>balances\<close> and \<open>nonces\<close> give the exact result of a native transfer.
\<close>

section \<open>Settling amounts\<close>

definition settles :: "state_env \<Rightarrow> bigint \<Rightarrow> StateDB \<Rightarrow> StateDB \<Rightarrow> bool" where
  "settles E d s t \<longleftrightarrow>
     db_inv E t \<and> (bal_ok (abs_db E s) \<longrightarrow> bal_ok (abs_db E t)) \<and> (0 \<le> sd_refund s \<longrightarrow> 0 \<le> sd_refund t) \<and>
     (finite (dom (as_accounts (abs_db E s))) \<longrightarrow>
        finite (dom (as_accounts (abs_db E t))) \<and> total_supply (abs_db E t) \<le> total_supply (abs_db E s) + d)"

definition balances :: "state_env \<Rightarrow> StateDB \<Rightarrow> address \<Rightarrow> bigint" where
  "balances E db = abs_balance_of (abs_db E db)"

definition nonces :: "state_env \<Rightarrow> StateDB \<Rightarrow> address \<Rightarrow> u64" where
  "nonces E db a = a_get a aa_nonce 0 (abs_db E db)"

definition pay :: "address \<Rightarrow> bigint \<Rightarrow> (address \<Rightarrow> bigint) \<Rightarrow> address \<Rightarrow> bigint" where
  "pay a x f = f(a := f a + x)"

lemma pay_zero [simp]: "pay a 0 f = f"
  by (simp add: pay_def)

lemma pay_pay: "pay a x (pay a y f) = pay a (x + y) f"
  by (simp add: pay_def fun_eq_iff)

lemma pay_commute: "pay a x (pay b y f) = pay b y (pay a x f)"
  by (auto simp: pay_def fun_eq_iff)

lemma pay_same: "pay a x f a = f a + x"
  by (simp add: pay_def)

lemma settles_inv: "settles E d s t \<Longrightarrow> db_inv E t"
  by (simp add: settles_def)

lemma settles_refund: "settles E d s t \<Longrightarrow> 0 \<le> sd_refund s \<Longrightarrow> 0 \<le> sd_refund t"
  by (simp add: settles_def)

lemma settles_trans: "settles E d s t \<Longrightarrow> settles E e t u \<Longrightarrow> settles E (d + e) s u"
  unfolding settles_def by (elim conjE, intro conjI impI; simp)

lemma settles_mono: "settles E d s t \<Longrightarrow> d \<le> e \<Longrightarrow> settles E e s t"
  unfolding settles_def by fastforce

lemma db_step_settles: "db_step E ro s t \<Longrightarrow> settles E 0 s t"
  by (auto simp: settles_def db_step_def a_step_def no_mint_def)

lemma AddBalance_settles:
  assumes "db_inv E s" "0 \<le> x" shows "settles E x s (AddBalance E a x s)"
proof -
  have "db_inv E (AddBalance E a x s)" using AddBalance_abs [OF assms(1)] by auto
  with assms AddBalance_balance [OF assms(1), of a x] show ?thesis
    unfolding settles_def bal_ok_iff by (simp add: refund_same)
qed

lemma SubBalance_settles:
  assumes "db_inv E s" "x \<le> balances E s a" shows "settles E (- x) s (SubBalance E a x s)"
proof -
  have "db_inv E (SubBalance E a x s)" using SubBalance_abs [OF assms(1)] by auto
  with assms SubBalance_balance [OF assms(1), of a x] show ?thesis
    unfolding settles_def bal_ok_iff by (simp add: refund_same balances_def)
qed

lemma refund_frame:
  "abs_db E (s\<lparr>sd_refund := r\<rparr>) = (abs_db E s)\<lparr>as_refund := r\<rparr>"
  "balances E (s\<lparr>sd_refund := r\<rparr>) = balances E s" "nonces E (s\<lparr>sd_refund := r\<rparr>) = nonces E s"
proof -
  show a: "abs_db E (s\<lparr>sd_refund := r\<rparr>) = (abs_db E s)\<lparr>as_refund := r\<rparr>" by (simp add: abs_db_def)
  show "balances E (s\<lparr>sd_refund := r\<rparr>) = balances E s" "nonces E (s\<lparr>sd_refund := r\<rparr>) = nonces E s"
    unfolding balances_def nonces_def a
    by (simp_all add: abs_balance_of_def a_get_def fun_eq_iff del: abs_db_sel(1))
qed

lemma refund_settles:
  assumes "db_inv E s" "0 \<le> r" shows "settles E 0 s (s\<lparr>sd_refund := r\<rparr>)"
  using assms no_mint_frame(1) [of "abs_db E s" r] by (simp add: settles_def refund_frame no_mint_def)

section \<open>Balances and nonces after the database operations\<close>

lemma balances_ops:
  assumes "db_inv E s"
  shows "balances E (AddBalance E a x s) = pay a x (balances E s)"
    "balances E (SubBalance E a x s) = pay a (- x) (balances E s)"
    "balances E (CreateAccount E a s) = balances E s"
  using AddBalance_balance(1) [OF assms, of a x] SubBalance_balance(1) [OF assms, of a x]
    CreateAccount_balance [OF assms, of a] by (simp_all add: balances_def pay_def)

lemma nonces_ops:
  assumes "db_inv E s"
  shows "nonces E (AddBalance E a x s) = nonces E s" "nonces E (SubBalance E a x s) = nonces E s"
proof -
  have n: "nonces E t = nonces E s"
    if "abs_db E t = (abs_db E s)\<lparr>as_accounts := (as_accounts (abs_db E s))(a \<mapsto>
        (account_or_new E a (abs_db E s))\<lparr>aa_balance := y\<rparr>)\<rparr>" for t y
    unfolding nonces_def that
    by (auto simp: a_get_def account_or_new_def fun_eq_iff simp del: abs_db_sel(1) split: option.splits)
  show "nonces E (AddBalance E a x s) = nonces E s" "nonces E (SubBalance E a x s) = nonces E s"
    using n AddBalance_abs [OF assms] SubBalance_abs [OF assms] by blast+
qed

text \<open>A step that changes neither balances nor nonces.\<close>

definition quiet :: "state_env \<Rightarrow> StateDB \<Rightarrow> StateDB \<Rightarrow> bool" where
  "quiet E s t \<longleftrightarrow> db_step E False s t \<and> balances E t = balances E s \<and> nonces E t = nonces E s \<and>
     sd_refund t = sd_refund s"

lemma quiet_trans: "quiet E s t \<Longrightarrow> quiet E t u \<Longrightarrow> quiet E s u"
  unfolding quiet_def using db_step_trans by metis

lemma quiet_inv: "quiet E s t \<Longrightarrow> db_inv E t"
  unfolding quiet_def using db_step_inv by blast

lemma quiet_settles: "quiet E s t \<Longrightarrow> settles E 0 s t"
  unfolding quiet_def using db_step_settles by blast

lemma quiet_same:
  assumes "db_step E False s t" "abs_db E t = abs_db E s" shows "quiet E s t"
proof -
  have "sd_refund t = sd_refund s" using arg_cong [OF assms(2), of as_refund] by simp
  with assms show ?thesis by (simp add: quiet_def balances_def nonces_def fun_eq_iff)
qed

lemma quiet_reads:
  assumes "reads E f F" "db_inv E s" "f s = (x, t)"
  shows "quiet E s t" "x = F (abs_db E s)"
proof -
  from assms have "x = F (abs_db E s)" "abs_db E t = abs_db E s" by (auto simp: reads_def dest!: spec [of _ s])
  then show "quiet E s t" "x = F (abs_db E s)"
    using db_step_reads [OF assms(1,2), of False] assms(3) by (auto intro: quiet_same)
qed

lemma ensure_account_quiet:
  assumes inv: "db_inv E s"
  shows "quiet E s (ensure_account E a s)"
proof -
  obtain b t where e: "Exist E a s = (b, t)" by fastforce
  note x = Exist_facts [OF inv e]
  have q: "quiet E s t" using x by (intro quiet_same)
  have "quiet E t (CreateAccount E a t)" if "\<not> b"
  proof -
    have none: "as_accounts (abs_db E t) a = None" using x that by simp
    have c: "abs_db E (CreateAccount E a t) = a_create E a (abs_db E t)"
      using CreateAccount_refines [of E a] quiet_inv [OF q] by (simp add: refines_def)
    have "nonces E (CreateAccount E a t) = nonces E t"
      using none unfolding nonces_def c
      by (auto simp: a_create_def a_get_def fun_eq_iff simp del: abs_db_sel(1))
    moreover have "sd_refund (CreateAccount E a t) = sd_refund t"
      using arg_cong [OF c, of as_refund] by (simp add: a_create_def)
    ultimately show ?thesis
      using CreateAccount_step balances_ops(3) quiet_inv [OF q] by (simp add: quiet_def)
  qed
  with q quiet_trans show ?thesis unfolding ensure_account_def by (auto simp: e)
qed

section \<open>Buying gas\<close>

lemma st_from_spec:
  assumes "db_inv (cc_state cc) (st_state st)" "st_from cc st = (a, st1)"
  obtains db where "a = m_from (st_msg st)" "st1 = st\<lparr>st_state := db\<rparr>" "quiet (cc_state cc) (st_state st) db"
  using assms ensure_account_quiet [OF assms(1)] by (auto simp: st_from_def)

lemma st_to_spec:
  assumes "db_inv (cc_state cc) (st_state st)" "st_to cc st = (a, st1)"
  obtains db where "a = (case m_to (st_msg st) of None \<Rightarrow> 0 | Some x \<Rightarrow> x)" "st1 = st\<lparr>st_state := db\<rparr>"
    "quiet (cc_state cc) (st_state st) db"
proof -
  have "quiet (cc_state cc) (st_state st) (st_state st)"
    using assms(1) by (intro quiet_same) simp_all
  with that [of "st_state st"] that assms ensure_account_quiet [OF assms(1)] show ?thesis
    by (cases "m_to (st_msg st)") (auto simp: st_to_def)
qed

text \<open>What \<open>buyGas\<close> and \<open>preCheck\<close> leave: on an error nothing is bought; otherwise the sender has paid
  for the whole gas limit, which left the pool.\<close>

definition bought :: "chain_ctx \<Rightarrow> StateTransition \<Rightarrow> StateTransition \<Rightarrow> tx_error option \<Rightarrow> bool" where
  "bought cc st st' err \<longleftrightarrow>
     (let E = cc_state cc; gl = m_gasLimit (st_msg st); cost = gl * st_gasPrice st; a = m_from (st_msg st) in
      case err of
        Some e \<Rightarrow> st_gp st' = st_gp st \<and> quiet E (st_state st) (st_state st')
      | None \<Rightarrow>
          \<exists>db. st' = st\<lparr>st_gp := st_gp st - gl, st_gas := st_gas st + big_Uint64 gl, st_initialGas := gl,
                   st_state := SubBalance E a cost db\<rparr> \<and>
               quiet E (st_state st) db \<and> gl \<le> st_gp st \<and> cost \<le> balances E db a \<and> \<not> BitLen gl > 64)"

lemma buyGas_spec:
  assumes inv: "db_inv (cc_state cc) (st_state st)" and r: "buyGas cc st = (st', err)"
  shows "bought cc st st' err"
proof -
  let ?E = "cc_state cc"
  obtain a st1 where f: "st_from cc st = (a, st1)" by fastforce
  from inv f obtain db where a: "a = m_from (st_msg st)" and st1: "st1 = st\<lparr>st_state := db\<rparr>"
    and q: "quiet ?E (st_state st) db" by (rule st_from_spec)
  obtain bal db1 where g: "GetBalance ?E a db = (bal, db1)" by fastforce
  note b = quiet_reads [OF GetBalance_reads quiet_inv [OF q] g]
  have q1: "quiet ?E (st_state st) db1" by (rule quiet_trans [OF q b(1)])
  have q0: "quiet ?E (st_state st) (st_state st)" using inv by (intro quiet_same) simp_all
  have bal: "bal = balances ?E db1 a" using b by (simp add: quiet_def balances_def abs_balance_of_def)
  show ?thesis using r q0 q1 unfolding buyGas_def bought_def Let_def f
    by (auto simp: st1 g [unfolded a] a bal [unfolded a] SubGas_def [of "m_gasLimit (st_msg st)"] split: if_splits)
qed

lemma buyGas_error:
  assumes inv: "db_inv (cc_state cc) (st_state st)"
  shows "snd (buyGas cc st) =
    (let gl = m_gasLimit (st_msg st); cost = gl * st_gasPrice st in
     if BitLen gl > 64 then Some TxOutOfGas
     else if balances (cc_state cc) (st_state st) (m_from (st_msg st)) < cost then Some InsufficientBalanceForGas
     else if st_gp st < gl then Some GasLimitReached else None)"
proof -
  let ?E = "cc_state cc"
  obtain a st1 where f: "st_from cc st = (a, st1)" by fastforce
  from inv f obtain db where a: "a = m_from (st_msg st)" and st1: "st1 = st\<lparr>st_state := db\<rparr>"
    and q: "quiet ?E (st_state st) db" by (rule st_from_spec)
  obtain bal db1 where g: "GetBalance ?E a db = (bal, db1)" by fastforce
  note b = quiet_reads [OF GetBalance_reads quiet_inv [OF q] g]
  have bal: "bal = balances ?E (st_state st) a"
    using b(2) q by (simp add: quiet_def balances_def abs_balance_of_def fun_eq_iff)
  show ?thesis unfolding buyGas_def Let_def f
    by (simp add: st1 g [unfolded a] a bal [unfolded a] SubGas_def)
qed

lemma bought_quiet:
  assumes "bought cc (st\<lparr>st_state := db\<rparr>) st' err" "quiet (cc_state cc) (st_state st) db"
  shows "bought cc st st' err"
  using assms quiet_trans [OF assms(2)] unfolding bought_def Let_def by (auto split: option.splits)

text \<open>The error of the admission checks, in the order the code makes them; the last one is found after
  the gas was bought.\<close>

definition admission :: "chain_ctx \<Rightarrow> Message \<Rightarrow> bigint \<Rightarrow> StateDB \<Rightarrow> tx_error option" where
  "admission cc msg gp db =
     (let E = cc_state cc; nonce = nonces E db (m_from msg); gl = m_gasLimit msg in
      if m_checkNonce msg \<and> nonce < m_nonce msg then Some NonceTooHigh
      else if m_checkNonce msg \<and> nonce > m_nonce msg then Some NonceTooLow
      else if balances E db (m_from msg) < gl * m_price msg then Some InsufficientBalanceForGas
      else if gp < gl then Some GasLimitReached
      else if gl < IntrinsicGas (m_data msg) (m_to msg = None) then Some TxOutOfGas
      else None)"

lemma preCheck_spec:
  assumes inv: "db_inv (cc_state cc) (st_state st)" and r: "preCheck cc st = (st', err)"
  shows "bought cc st st' err"
    "\<not> BitLen (m_gasLimit (st_msg st)) > 64 \<Longrightarrow> st_gasPrice st = m_price (st_msg st) \<Longrightarrow>
     err \<noteq> None \<Longrightarrow> admission cc (st_msg st) (st_gp st) (st_state st) = err"
    "\<not> BitLen (m_gasLimit (st_msg st)) > 64 \<Longrightarrow> st_gasPrice st = m_price (st_msg st) \<Longrightarrow>
     err = None \<Longrightarrow> admission cc (st_msg st) (st_gp st) (st_state st) =
       (if m_gasLimit (st_msg st) < IntrinsicGas (m_data (st_msg st)) (m_to (st_msg st) = None)
        then Some TxOutOfGas else None)"
    "\<not> BitLen (m_gasLimit (st_msg st)) > 64 \<Longrightarrow> err \<noteq> Some TxOutOfGas"
proof -
  let ?E = "cc_state cc" and ?n = "nonces (cc_state cc) (st_state st) (m_from (st_msg st))" and ?m = "st_msg st"
  obtain a st1 where f: "st_from cc st = (a, st1)" by fastforce
  from inv f obtain db where a: "a = m_from ?m" and st1: "st1 = st\<lparr>st_state := db\<rparr>"
    and q: "quiet ?E (st_state st) db" by (rule st_from_spec)
  obtain nc db1 where g: "GetNonce ?E (m_from ?m) db = (nc, db1)" by fastforce
  note b = quiet_reads [OF GetNonce_reads quiet_inv [OF q] g]
  have q1: "quiet ?E (st_state st) db1" by (rule quiet_trans [OF q b(1)])
  have nc: "nc = ?n" using b q by (simp add: quiet_def nonces_def fun_eq_iff)
  define d where "d = (if m_checkNonce ?m then db1 else db)"
  have q2: "quiet ?E (st_state st) d" using q q1 by (simp add: d_def)
  have buy: "bought cc st st2 e2" if "buyGas cc (st\<lparr>st_state := d\<rparr>) = (st2, e2)" for st2 e2
    using that q2 quiet_inv [OF q2] by (intro bought_quiet [OF buyGas_spec]) simp_all
  have eq: "preCheck cc st =
      (if m_checkNonce ?m \<and> ?n < m_nonce ?m then (st\<lparr>st_state := db1\<rparr>, Some NonceTooHigh)
       else if m_checkNonce ?m \<and> ?n > m_nonce ?m then (st\<lparr>st_state := db1\<rparr>, Some NonceTooLow)
       else buyGas cc (st\<lparr>st_state := d\<rparr>))"
    unfolding preCheck_def Let_def f by (simp add: st1 g a nc d_def)
  show "bought cc st st' err"
    using r [unfolded eq] buy q1 by (auto simp: bought_def [of cc st "st\<lparr>st_state := db1\<rparr>"] split: if_splits)
  have e: "err = (if m_checkNonce ?m \<and> ?n < m_nonce ?m then Some NonceTooHigh
     else if m_checkNonce ?m \<and> ?n > m_nonce ?m then Some NonceTooLow
     else snd (buyGas cc (st\<lparr>st_state := d\<rparr>)))"
    using arg_cong [OF r [unfolded eq], of snd] by (simp only: if_distrib [of snd] snd_conv)
  have s: "snd (buyGas cc (st\<lparr>st_state := d\<rparr>)) =
    (let gl = m_gasLimit ?m; cost = gl * st_gasPrice st in
     if BitLen gl > 64 then Some TxOutOfGas
     else if balances ?E (st_state st) (m_from ?m) < cost then Some InsufficientBalanceForGas
     else if st_gp st < gl then Some GasLimitReached else None)"
    using buyGas_error [of cc "st\<lparr>st_state := d\<rparr>"] q2 quiet_inv [OF q2] by (simp add: quiet_def Let_def)
  show "\<not> BitLen (m_gasLimit ?m) > 64 \<Longrightarrow> st_gasPrice st = m_price ?m \<Longrightarrow>
     err \<noteq> None \<Longrightarrow> admission cc ?m (st_gp st) (st_state st) = err"
    "\<not> BitLen (m_gasLimit ?m) > 64 \<Longrightarrow> st_gasPrice st = m_price ?m \<Longrightarrow>
     err = None \<Longrightarrow> admission cc ?m (st_gp st) (st_state st) =
       (if m_gasLimit ?m < IntrinsicGas (m_data ?m) (m_to ?m = None) then Some TxOutOfGas else None)"
    "\<not> BitLen (m_gasLimit ?m) > 64 \<Longrightarrow> err \<noteq> Some TxOutOfGas"
    unfolding e s admission_def Let_def by (simp_all split: if_splits)
qed

section \<open>Refunding gas\<close>

definition refund_of :: "StateTransition \<Rightarrow> bigint" where
  "refund_of st = min (gasUsed st div 2) (sd_refund (st_state st))"

lemma gasUsed_frame [simp]: "gasUsed (st\<lparr>st_state := db\<rparr>) = gasUsed st"
  by (simp add: gasUsed_def)

lemma refundGas_spec:
  assumes inv: "db_inv (cc_state cc) (st_state st)" and ref: "0 \<le> sd_refund (st_state st)"
    and price: "0 \<le> st_gasPrice st" and gas: "uint (st_gas st) \<le> st_initialGas st"
    "st_initialGas st < 2 ^ 64"
  shows "\<exists>db. refundGas cc st = st\<lparr>st_gas := st_gas st + big_Uint64 (refund_of st), st_state := db,
      st_gp := st_gp st + uint (st_gas st) + refund_of st\<rparr> \<and>
    settles (cc_state cc) ((uint (st_gas st) + refund_of st) * st_gasPrice st) (st_state st) db \<and>
    balances (cc_state cc) db =
      pay (m_from (st_msg st)) ((uint (st_gas st) + refund_of st) * st_gasPrice st) (balances (cc_state cc) (st_state st)) \<and>
    nonces (cc_state cc) db = nonces (cc_state cc) (st_state st)"
    "uint (st_gas st + big_Uint64 (refund_of st)) = uint (st_gas st) + refund_of st"
    "0 \<le> refund_of st" "2 * refund_of st \<le> gasUsed st"
proof -
  let ?E = "cc_state cc" and ?R = "refund_of st" and ?p = "st_gasPrice st"
  show R: "0 \<le> ?R" "2 * ?R \<le> gasUsed st" using ref gas by (simp_all add: refund_of_def gasUsed_def)
  then have lt: "uint (st_gas st) + ?R < 2 ^ 64" using gas R by (simp add: gasUsed_def)
  have u: "uint (big_Uint64 ?R) = ?R"
  proof -
    have "?R < 2 ^ 64" using lt uint_nonnegative [of "st_gas st"] by linarith
    with R(1) show ?thesis by (simp add: big_Uint64_def uint_word_of_int)
  qed
  show gas': "uint (st_gas st + big_Uint64 ?R) = uint (st_gas st) + ?R"
    using lt u by (simp add: uint_plus_if')
  obtain a st1 where f: "st_from cc st = (a, st1)" by fastforce
  from inv f obtain db where a: "a = m_from (st_msg st)" and st1: "st1 = st\<lparr>st_state := db\<rparr>"
    and q: "quiet ?E (st_state st) db" by (rule st_from_spec)
  let ?x = "uint (st_gas st) * ?p"
  let ?db1 = "AddBalance ?E a ?x db"
  let ?y = "?R * ?p"
  let ?db2 = "if gasUsed st div 2 > sd_refund ?db1 then ?db1\<lparr>sd_refund := ?y\<rparr> else ?db1"
  let ?db3 = "AddBalance ?E a ?y ?db2"
  note inv0 = quiet_inv [OF q]
  have x: "0 \<le> ?x" "0 \<le> ?y" using price R(1) by simp_all
  note s1 = AddBalance_settles [OF inv0 x(1), of a]
  note inv1 = settles_inv [OF s1]
  have s2: "settles ?E 0 ?db1 ?db2"
    using refund_settles [OF inv1 x(2)] quiet_settles [OF quiet_same [OF db_step_refl [OF inv1] refl]] by simp
  note inv2 = settles_inv [OF s2]
  note s3 = AddBalance_settles [OF inv2 x(2), of a]
  have rf: "sd_refund ?db1 = sd_refund (st_state st)"
    using q refund_same(1) [OF inv0] by (simp add: quiet_def)
  have R': "BigMin (gasUsed st div 2) (sd_refund (st_state st)) = ?R"
    by (simp add: BigMin_def refund_of_def)
  have eq: "refundGas cc st = st\<lparr>st_gas := st_gas st + big_Uint64 ?R, st_state := ?db3,
      st_gp := st_gp st + uint (st_gas st) + ?R\<rparr>"
    unfolding refundGas_def Let_def f AddGas_def
    by (simp add: st1 gasUsed_frame GetRefund_def rf R' gas')
  have "settles ?E ((uint (st_gas st) + ?R) * ?p) (st_state st) ?db3"
    using settles_trans [OF settles_trans [OF settles_trans [OF quiet_settles [OF q] s1] s2] s3]
    by (simp add: algebra_simps)
  moreover have "balances ?E ?db2 = balances ?E ?db1" "nonces ?E ?db2 = nonces ?E ?db1"
    by (simp_all add: refund_frame)
  then have "balances ?E ?db3 = pay a (?y + ?x) (balances ?E (st_state st))"
    "nonces ?E ?db3 = nonces ?E (st_state st)"
    using q unfolding balances_ops(1) [OF inv2] nonces_ops(1) [OF inv2]
    by (simp_all add: balances_ops(1) [OF inv0] nonces_ops(1) [OF inv0] pay_pay quiet_def)
  moreover have "?y + ?x = (uint (st_gas st) + ?R) * ?p" by (simp add: algebra_simps)
  ultimately show "\<exists>db. refundGas cc st = st\<lparr>st_gas := st_gas st + big_Uint64 ?R, st_state := db,
      st_gp := st_gp st + uint (st_gas st) + ?R\<rparr> \<and>
    settles ?E ((uint (st_gas st) + ?R) * ?p) (st_state st) db \<and>
    balances ?E db = pay (m_from (st_msg st)) ((uint (st_gas st) + ?R) * ?p) (balances ?E (st_state st)) \<and>
    nonces ?E db = nonces ?E (st_state st)"
    using eq unfolding a by metis
qed

lemma refundGas_frame: "st_header (refundGas cc st) = st_header st" "st_author (refundGas cc st) = st_author st"
  by (simp_all add: refundGas_def st_from_def Let_def)

text \<open>Refund and fee together, as both transitions end.\<close>

definition pay_author :: "state_env \<Rightarrow> address \<Rightarrow> StateTransition \<Rightarrow> StateTransition" where
  "pay_author E ben st = st\<lparr>st_state := AddBalance E ben (gasUsed st * st_gasPrice st) (st_state st)\<rparr>"

lemma refund_and_fee:
  assumes inv: "db_inv (cc_state cc) (st_state st)" and ref: "0 \<le> sd_refund (st_state st)"
    and price: "0 \<le> st_gasPrice st" and gas: "uint (st_gas st) \<le> st_initialGas st"
    "st_initialGas st < 2 ^ 64"
    and r: "st' = pay_author (cc_state cc) ben (refundGas cc st)"
  shows "gasUsed st' = gasUsed st - refund_of st" "0 \<le> gasUsed st'" "gasUsed st \<le> 2 * gasUsed st'"
    "st_gp st' + gasUsed st' = st_gp st + st_initialGas st"
    "settles (cc_state cc) (st_initialGas st * st_gasPrice st) (st_state st) (st_state st')"
    "balances (cc_state cc) (st_state st') =
       pay ben (gasUsed st' * st_gasPrice st)
         (pay (m_from (st_msg st)) ((st_initialGas st - gasUsed st') * st_gasPrice st)
           (balances (cc_state cc) (st_state st)))"
    "nonces (cc_state cc) (st_state st') = nonces (cc_state cc) (st_state st)"
proof -
  let ?E = "cc_state cc" and ?R = "refund_of st" and ?p = "st_gasPrice st"
  note g = refundGas_spec [OF inv ref price gas]
  from g(1) obtain db where eq: "refundGas cc st = st\<lparr>st_gas := st_gas st + big_Uint64 ?R, st_state := db,
      st_gp := st_gp st + uint (st_gas st) + ?R\<rparr>"
    and s: "settles ?E ((uint (st_gas st) + ?R) * ?p) (st_state st) db"
    and b: "balances ?E db = pay (m_from (st_msg st)) ((uint (st_gas st) + ?R) * ?p) (balances ?E (st_state st))"
    and n: "nonces ?E db = nonces ?E (st_state st)" by blast
  have st': "st_gas st' = st_gas st + big_Uint64 ?R" "st_initialGas st' = st_initialGas st"
    "st_gp st' = st_gp st + uint (st_gas st) + ?R"
    unfolding r eq by (simp_all add: pay_author_def)
  show used: "gasUsed st' = gasUsed st - ?R" using g(2) st' by (simp add: gasUsed_def)
  then show u0: "0 \<le> gasUsed st'" and "gasUsed st \<le> 2 * gasUsed st'" using g(3,4) by simp_all
  have left: "uint (st_gas st) + ?R = st_initialGas st - gasUsed st'"
    using used by (simp add: gasUsed_def)
  with st' show "st_gp st' + gasUsed st' = st_gp st + st_initialGas st" by simp
  have "gasUsed (st\<lparr>st_gas := st_gas st + big_Uint64 ?R, st_state := db, st_gp := x\<rparr>) = gasUsed st'" for x
    using st' by (simp add: gasUsed_def)
  then have db': "st_state st' = AddBalance ?E ben (gasUsed st' * ?p) db"
    unfolding r eq pay_author_def by simp
  have pos: "0 \<le> gasUsed st' * ?p" using u0 price by simp
  show "settles ?E (st_initialGas st * ?p) (st_state st) (st_state st')"
    using settles_trans [OF s AddBalance_settles [OF settles_inv [OF s] pos, of ben]]
    unfolding db' left by (simp add: algebra_simps)
  show "balances ?E (st_state st') = pay ben (gasUsed st' * ?p)
      (pay (m_from (st_msg st)) ((st_initialGas st - gasUsed st') * ?p) (balances ?E (st_state st)))"
    unfolding db' balances_ops [OF settles_inv [OF s]] b left ..
  show "nonces ?E (st_state st') = nonces ?E (st_state st)"
    unfolding db' using nonces_ops(1) [OF settles_inv [OF s]] n by simp
qed

section \<open>The native transition\<close>

text \<open>The message state both transitions start from: gas was bought and the intrinsic gas paid.\<close>

definition ready_st :: "chain_ctx \<Rightarrow> StateTransition \<Rightarrow> bool" where
  "ready_st cc st \<longleftrightarrow> db_inv (cc_state cc) (st_state st) \<and> 0 \<le> sd_refund (st_state st) \<and> 0 \<le> st_gasPrice st \<and>
     uint (st_gas st) \<le> st_initialGas st \<and> st_initialGas st < 2 ^ 62 \<and>
     bal_ok (abs_db (cc_state cc) (st_state st))"

lemma refund_of_nonneg: "ready_st cc st \<Longrightarrow> 0 \<le> refund_of st"
  by (simp add: ready_st_def refund_of_def gasUsed_def)

lemma gasUsed_le: "gasUsed st \<le> st_initialGas st"
  by (simp add: gasUsed_def)

lemma native_Transfer_eq: "native_Transfer = Transfer"
  by (simp add: native_Transfer_def Transfer_def fun_eq_iff)

lemma native_CanTransfer_eq: "native_CanTransfer = CanTransfer"
  by (simp add: native_CanTransfer_def CanTransfer_def fun_eq_iff)

lemma Transfer_views:
  assumes "db_inv E s"
  shows "balances E (Transfer E a b x s) = pay b x (pay a (- x) (balances E s))"
    "nonces E (Transfer E a b x s) = nonces E s"
proof -
  have inv': "db_inv E (SubBalance E a x s)" using SubBalance_abs [OF assms] by auto
  show "balances E (Transfer E a b x s) = pay b x (pay a (- x) (balances E s))"
    "nonces E (Transfer E a b x s) = nonces E s"
    unfolding Transfer_def
    by (simp_all add: balances_ops [OF inv'] balances_ops [OF assms] nonces_ops [OF inv'] nonces_ops [OF assms])
qed

definition native_result :: "chain_ctx \<Rightarrow> StateTransition \<Rightarrow> transition \<Rightarrow> bool" where
  "native_result cc st r \<longleftrightarrow>
     (let E = cc_state cc; msg = st_msg st; p = st_gasPrice st; st' = fst r;
          dest = (case m_to msg of None \<Rightarrow> 0 | Some x \<Rightarrow> x);
          ben = beneficiary_of cc (st_header st) (st_author st)
      in case snd r of
           Inl e \<Rightarrow> e = TxInsufficientBalance \<and> balances E (st_state st) (m_from msg) < m_amount msg \<and>
             st_gp st' = st_gp st \<and> quiet E (st_state st) (st_state st')
         | Inr (ret, req, used, failed) \<Rightarrow>
             m_amount msg \<le> balances E (st_state st) (m_from msg) \<and>
             ret = [] \<and> \<not> failed \<and> req = gasUsed st \<and> used = gasUsed st - refund_of st \<and> 0 \<le> used \<and>
             gasUsed st \<le> 2 * used \<and> st_gp st' + used = st_gp st + st_initialGas st \<and>
             settles E (st_initialGas st * p) (st_state st) (st_state st') \<and>
             balances E (st_state st') =
               pay ben (used * p) (pay (m_from msg) ((st_initialGas st - used) * p)
                 (pay dest (m_amount msg) (pay (m_from msg) (- m_amount msg) (balances E (st_state st))))) \<and>
             nonces E (st_state st') = nonces E (st_state st))"

lemma TransitionOnNative_spec:
  assumes ready: "ready_st cc st" and val: "0 \<le> m_amount (st_msg st)"
  shows "native_result cc st (TransitionOnNative cc st)"
proof -
  let ?E = "cc_state cc" and ?msg = "st_msg st" and ?p = "st_gasPrice st"
  let ?dest = "case m_to ?msg of None \<Rightarrow> 0 | Some x \<Rightarrow> x" and ?from = "m_from ?msg" and ?amt = "m_amount ?msg"
  have inv: "db_inv ?E (st_state st)" using ready by (simp add: ready_st_def)
  obtain d1 st1 where t1: "st_to cc st = (d1, st1)" by fastforce
  from inv t1 obtain db1 where d1: "d1 = ?dest" and st1: "st1 = st\<lparr>st_state := db1\<rparr>"
    and q1: "quiet ?E (st_state st) db1" by (rule st_to_spec)
  obtain can db2 where can: "CanTransfer ?E ?from ?amt db1 = (can, db2)" by fastforce
  note c = CanTransfer_facts [OF quiet_inv [OF q1] can]
  have q2: "quiet ?E (st_state st) db2" by (rule quiet_trans [OF q1 quiet_same [OF c(2,3)]])
  have bal: "can \<longleftrightarrow> ?amt \<le> balances ?E (st_state st) ?from"
    using c(1) q1 by (simp add: quiet_def balances_def)
  obtain d3 st3 where t3: "st_to cc (st\<lparr>st_state := db2\<rparr>) = (d3, st3)" by fastforce
  have "db_inv ?E (st_state (st\<lparr>st_state := db2\<rparr>))" using quiet_inv [OF q2] by simp
  from this t3 obtain db3 where d3: "d3 = ?dest" and st3: "st3 = st\<lparr>st_state := db3\<rparr>"
    and q3': "quiet ?E db2 db3" by (rule st_to_spec) simp
  let ?db5 = "ensure_account ?E ?dest db3"
  have q5: "quiet ?E (st_state st) ?db5"
    using quiet_trans [OF quiet_trans [OF q2 q3'] ensure_account_quiet [OF quiet_inv [OF q3']]] .
  note inv5 = quiet_inv [OF q5]
  let ?db6 = "Transfer ?E ?from ?dest ?amt ?db5"
  let ?st6 = "st\<lparr>st_state := ?db6\<rparr>"
  let ?ben = "beneficiary_of cc (st_header st) (st_author st)"
  let ?st8 = "pay_author ?E ?ben (refundGas cc ?st6)"
  have eq: "TransitionOnNative cc st =
      (if can then (?st8, Inr ([], gasUsed st, gasUsed ?st8, False))
       else (st\<lparr>st_state := db2\<rparr>, Inl TxInsufficientBalance))"
  proof -
    obtain b db4 where e: "Exist ?E ?dest db3 = (b, db4)" by fastforce
    then have "(if b then db4 else CreateAccount ?E ?dest db4) = ?db5" by (simp add: ensure_account_def)
    then show ?thesis
      by (simp add: TransitionOnNative_def Let_def t1 st1 d1 native_CanTransfer_eq native_Transfer_eq can t3 st3 d3 e
          pay_author_def refundGas_frame)
  qed
  show ?thesis
  proof (cases can)
    case False
    with q2 bal show ?thesis by (simp add: eq native_result_def Let_def)
  next
    case True
    have "db_step ?E False ?db5 ?db6"
      using True bal val q5 by (intro Transfer_step [OF inv5]) (auto simp: quiet_def balances_def)
    then have s6: "settles ?E 0 (st_state st) ?db6"
      using settles_trans [OF quiet_settles [OF q5] db_step_settles] by simp
    have rf: "sd_refund ?db6 = sd_refund (st_state st)"
      using Transfer_refund [OF inv5] q5 by (simp add: quiet_def)
    have "gasUsed ?st6 = gasUsed st" "refund_of ?st6 = refund_of st"
      using rf by (simp_all add: refund_of_def)
    moreover have "balances ?E ?db6 = pay ?dest ?amt (pay ?from (- ?amt) (balances ?E (st_state st)))"
      "nonces ?E ?db6 = nonces ?E (st_state st)"
      using Transfer_views [OF inv5, of ?from ?dest ?amt] q5 by (simp_all add: quiet_def)
    ultimately show ?thesis
      using refund_and_fee [of cc ?st6 ?st8 ?ben] ready settles_inv [OF s6] rf True bal
        settles_trans [OF s6, of "st_initialGas st * ?p" "st_state ?st8"]
      by (simp add: eq native_result_def Let_def ready_st_def)
  qed
qed

section \<open>The transition on the virtual machine\<close>

definition vm_result :: "chain_ctx \<Rightarrow> nat \<Rightarrow> StateTransition \<Rightarrow> (StateTransition \<times> bytes \<times> vm_error option) outcome \<Rightarrow> bool" where
  "vm_result cc n st r \<longleftrightarrow>
     (case r of
        Panic p \<Rightarrow> p = JumpdestIndex
      | OutOfFuel \<Rightarrow> n \<le> unat (st_gas st)
      | Ok (st', ret, err) \<Rightarrow>
          st' = st\<lparr>st_gas := st_gas st', st_state := st_state st'\<rparr> \<and> unat (st_gas st') \<le> unat (st_gas st) \<and>
          db_step (cc_state cc) False (st_state st) (st_state st'))"

lemma NewEVM_frame [simp]: "\<not> evm_readOnly (NewEVM db)" "evm_StateDB (NewEVM db) = db"
  by (simp_all add: NewEVM_def)

lemma unat_less_uint: "uint (x :: u64) < 2 ^ 62 \<Longrightarrow> unat x < gas_cap"
  unfolding gas_cap_def by (metis of_nat_less_numeral_power_cancel_iff of_nat_unat uint_nat unat_eq_nat_uint)

lemma vm_result_create:
  assumes "create_good env n (st_gas st) self (NewEVM db) R" "ee_state env = cc_state cc"
    "db_step (cc_state cc) False (st_state st) db"
  shows "vm_result cc n st (obind R (\<lambda>(ev, ret, addr, left, err).
    Ok (st\<lparr>st_gas := left, st_state := evm_StateDB ev\<rparr>, ret, err)))"
  using assms db_step_trans [OF assms(3)]
  by (cases R) (auto simp: create_good_def vm_result_def ev_step_def)

lemma vm_result_call:
  assumes "call_good env n (st_gas st) (NewEVM db) R" "ee_state env = cc_state cc"
    "db_step (cc_state cc) False (st_state st) db"
  shows "vm_result cc n st (obind R (\<lambda>(ev, ret, left, err).
    Ok (st\<lparr>st_gas := left, st_state := evm_StateDB ev\<rparr>, ret, err)))"
  using assms db_step_trans [OF assms(3)]
  by (cases R) (auto simp: call_good_def vm_result_def ev_step_def)

lemma vm_apply_spec:
  assumes ready: "ready_st cc st" and val: "0 \<le> st_value st" and data: "length (st_data st) < input_cap"
    and env: "env_ok env" "ee_state env = cc_state cc"
  shows "vm_result cc n st (vm_apply cc n env st)"
proof -
  let ?E = "cc_state cc" and ?msg = "st_msg st"
  have inv: "db_inv ?E (st_state st)" and bal: "bal_ok (abs_db ?E (st_state st))"
    and gas: "unat (st_gas st) < gas_cap"
    using ready by (auto simp: ready_st_def intro: unat_less_uint)
  obtain a st1 where f: "st_from cc st = (a, st1)" by fastforce
  from inv f obtain db where a: "a = m_from ?msg" and st1: "st1 = st\<lparr>st_state := db\<rparr>"
    and q: "quiet ?E (st_state st) db" by (rule st_from_spec)
  have ok: "ev_ok env (NewEVM d)" if "db_step ?E False (st_state st) d" for d
    using db_step_inv [OF that] db_step_bal [OF that bal] env by (simp add: ev_ok_def)
  show ?thesis
  proof (cases "m_to ?msg")
    case None
    have s: "db_step ?E False (st_state st) db" using q by (simp add: quiet_def)
    have g: "create_good env n (st_gas st) (ref_Address (AccountRef a)) (NewEVM db)
        (Create env (interpreter env n) (AccountRef a) (st_data st) (st_gas st) (st_value st) (NewEVM db))"
      by (rule Create_good [OF interpreter_good [OF env(1)] env(1) ok [OF s] val gas]) simp
    show ?thesis
      using vm_result_create [OF g env(2) s] by (simp add: vm_apply_def f None st1)
  next
    case (Some x)
    obtain nc db2 where gn: "GetNonce ?E a db = (nc, db2)" by fastforce
    have q2: "quiet ?E (st_state st) db2"
      by (rule quiet_trans [OF q quiet_reads(1) [OF GetNonce_reads quiet_inv [OF q] gn]])
    let ?db3 = "SetNonce ?E a (nc + 1) db2"
    have s3: "db_step ?E False (st_state st) ?db3"
      using db_step_trans [OF _ SetNonce_step] q2 quiet_inv [OF q2] by (auto simp: quiet_def)
    obtain d st4 where t: "st_to cc (st\<lparr>st_state := ?db3\<rparr>) = (d, st4)" by fastforce
    have "db_inv ?E (st_state (st\<lparr>st_state := ?db3\<rparr>))" using db_step_inv [OF s3] by simp
    from this t obtain db4 where st4: "st4 = st\<lparr>st_state := db4\<rparr>" and q4: "quiet ?E ?db3 db4"
      by (rule st_to_spec) simp
    have s: "db_step ?E False (st_state st) db4"
      using db_step_trans [OF s3] q4 by (simp add: quiet_def)
    have g: "call_good env n (st_gas st) (NewEVM db4)
        (Call env (interpreter env n) (AccountRef a) d (st_data st) (st_gas st) (st_value st) (NewEVM db4))"
      by (rule Call_good [OF interpreter_good [OF env(1)] env(1) ok [OF s] val gas data]) simp
    show ?thesis
      using vm_result_call [OF g env(2) s] by (simp add: vm_apply_def f Some st1 gn t st4)
  qed
qed

definition evm_result :: "chain_ctx \<Rightarrow> nat \<Rightarrow> StateTransition \<Rightarrow> transition outcome \<Rightarrow> bool" where
  "evm_result cc n st r \<longleftrightarrow>
     (case r of
        Panic p \<Rightarrow> p = JumpdestIndex
      | OutOfFuel \<Rightarrow> n \<le> unat (st_gas st)
      | Ok (st', Inl e) \<Rightarrow> st_gp st' = st_gp st \<and> settles (cc_state cc) 0 (st_state st) (st_state st')
      | Ok (st', Inr (ret, req, used, failed)) \<Rightarrow>
          0 \<le> used \<and> used \<le> st_initialGas st \<and> gasUsed st \<le> 2 * used \<and>
          st_gp st' + used = st_gp st + st_initialGas st \<and>
          settles (cc_state cc) (st_initialGas st * st_gasPrice st) (st_state st) (st_state st'))"

lemma env_ok_context [simp]:
  "env_ok (cc_vm cc) \<Longrightarrow> 0 \<le> m_price msg \<Longrightarrow> env_ok (NewEVMContext cc msg h author)"
  "ee_state (NewEVMContext cc msg h author) = cc_state cc"
  by (simp_all add: env_ok_def NewEVMContext_def)

lemma TransitionOnEVM_spec:
  assumes ready: "ready_st cc st" and val: "0 \<le> st_value st" and data: "length (st_data st) < input_cap"
    and env: "env_ok (cc_vm cc)" "0 \<le> m_price (st_msg st)"
  shows "evm_result cc n st (TransitionOnEVM cc n st)"
proof -
  let ?E = "cc_state cc" and ?p = "st_gasPrice st"
  let ?env = "NewEVMContext cc (st_msg st) (st_header st) (st_author st)"
  have v: "vm_result cc n st (vm_apply cc n ?env st)"
    by (rule vm_apply_spec [OF ready val data]) (simp_all add: env)
  show ?thesis
  proof (cases "vm_apply cc n ?env st")
    case (Ok x)
    obtain st1 ret err where x: "x = (st1, ret, err)" by (cases x) auto
    define left db where "left = st_gas st1" "db = st_state st1"
    from v Ok x have st1: "st1 = st\<lparr>st_gas := left, st_state := db\<rparr>"
      and left: "unat left \<le> unat (st_gas st)" and s: "db_step ?E False (st_state st) db"
      by (simp_all add: vm_result_def left_db_def)
    have l: "uint left \<le> uint (st_gas st)" using left by (simp only: word_le_nat_alt [symmetric] word_le_def)
    let ?st3 = "pay_author ?E (ee_Coinbase ?env) (refundGas cc st1)"
    have s1: "settles ?E 0 (st_state st) (st_state st1)" using db_step_settles [OF s] by (simp add: st1)
    have used: "gasUsed st \<le> gasUsed st1" "gasUsed st1 \<le> st_initialGas st" "st_initialGas st1 = st_initialGas st"
      "st_gp st1 = st_gp st" "st_gasPrice st1 = ?p"
      using l by (simp_all add: st1 gasUsed_def)
    have "evm_result cc n st (Ok (?st3, Inr (ret, req, gasUsed ?st3, f)))" for req f
    proof -
      have pre: "db_inv ?E (st_state st1)" "0 \<le> sd_refund (st_state st1)" "0 \<le> st_gasPrice st1"
        "uint (st_gas st1) \<le> st_initialGas st1" "st_initialGas st1 < 2 ^ 64"
        using ready settles_inv [OF s1] settles_refund [OF s1] l by (simp_all add: ready_st_def st1)
      note r = refund_and_fee [OF pre refl, of "ee_Coinbase ?env"]
      from r(1) refundGas_spec(3) [OF pre] used have "gasUsed ?st3 \<le> st_initialGas st" by simp
      with r(2,3,4) used settles_trans [OF s1 r(5)] show ?thesis by (simp add: evm_result_def)
    qed
    moreover have "evm_result cc n st (Ok (st1, Inl e))" for e
      using s1 used by (simp add: evm_result_def)
    ultimately show ?thesis
      by (simp add: TransitionOnEVM_def Let_def Ok x pay_author_def [symmetric])
  qed (use v in \<open>simp_all add: vm_result_def evm_result_def TransitionOnEVM_def Let_def\<close>)
qed

section \<open>Applying a message\<close>

definition message_ok :: "chain_ctx \<Rightarrow> Message \<Rightarrow> StateDB \<Rightarrow> bool" where
  "message_ok cc msg db \<longleftrightarrow>
     env_ok (cc_vm cc) \<and> db_inv (cc_state cc) db \<and> bal_ok (abs_db (cc_state cc) db) \<and> 0 \<le> sd_refund db \<and>
     0 \<le> m_price msg \<and> 0 \<le> m_amount msg \<and> 0 \<le> m_gasLimit msg \<and> m_gasLimit msg < 2 ^ 62 \<and>
     length (m_data msg) < input_cap"

text \<open>The state in which the transition starts, when the checks succeed.\<close>

lemma NewStateTransition_spec:
  assumes "db_inv (cc_state cc) db"
  obtains db0 nat0 where "NewStateTransition cc msg gp db header author =
      \<lparr>st_gp = gp, st_msg = msg, st_gas = 0, st_gasPrice = m_price msg, st_initialGas = 0,
       st_value = m_amount msg, st_data = m_data msg, st_state = db0, st_native = nat0, st_header = header,
       st_author = author\<rparr>" "quiet (cc_state cc) db db0"
    "nat0 \<longleftrightarrow> m_to msg \<noteq> None \<and> fst (GetCodeSize (cc_state cc) (m_from msg) db) = 0"
proof -
  let ?g = "GetCodeSize (cc_state cc) (m_from msg) db"
  have "quiet (cc_state cc) db (snd ?g)"
    using GetCodeSize_extends [OF assms] GetCodeSize_step [OF assms] by (auto intro: quiet_same)
  moreover have "quiet (cc_state cc) db db" using assms by (intro quiet_same) simp_all
  ultimately show ?thesis
    using that [of "if m_to msg \<noteq> None then snd ?g else db" "m_to msg \<noteq> None \<and> fst ?g = 0"]
    by (simp add: NewStateTransition_def Let_def case_prod_unfold)
qed

text \<open>The state in which a message is executed, once gas was bought and the intrinsic gas paid.\<close>

definition started :: "chain_ctx \<Rightarrow> Header \<Rightarrow> StateDB \<Rightarrow> address option \<Rightarrow> Message \<Rightarrow> bigint \<Rightarrow> StateTransition \<Rightarrow> bool" where
  "started cc header db author msg gp st \<longleftrightarrow>
     (let E = cc_state cc; gl = m_gasLimit msg; cost = gl * m_price msg in
      ready_st cc st \<and> st_msg st = msg \<and> st_gasPrice st = m_price msg \<and> st_value st = m_amount msg \<and>
      st_data st = m_data msg \<and> st_header st = header \<and> st_author st = author \<and>
      st_gp st = gp - gl \<and> gl \<le> gp \<and> st_initialGas st = gl \<and> unat (st_gas st) \<le> nat gl \<and>
      gasUsed st = IntrinsicGas (m_data msg) (m_to msg = None) \<and>
      cost \<le> balances E db (m_from msg) \<and>
      settles E (- cost) db (st_state st) \<and>
      balances E (st_state st) = pay (m_from msg) (- cost) (balances E db) \<and>
      nonces E (st_state st) = nonces E db \<and> sd_refund (st_state st) = sd_refund db \<and>
      (st_native st \<longleftrightarrow> m_to msg \<noteq> None \<and> fst (GetCodeSize E (m_from msg) db) = 0))"

lemma IntrinsicGas_nonneg: "0 < IntrinsicGas data c"
proof -
  have "length (filter (\<lambda>b. b \<noteq> 0) data) \<le> length data" by (rule length_filter_le)
  then show ?thesis by (simp add: IntrinsicGas_def Let_def)
qed

lemma ApplyMessage_cases:
  assumes ok: "message_ok cc msg db"
  obtains
    (fails) e gp' db' where "admission cc msg gp db = Some e"
      "ApplyMessage cc n header db author msg gp = Ok (gp', db', Inl e)"
      "gp' = (if e = TxOutOfGas then gp - m_gasLimit msg else gp)" "settles (cc_state cc) 0 db db'"
      "balances (cc_state cc) db' =
         (if e = TxOutOfGas then pay (m_from msg) (- (m_gasLimit msg * m_price msg)) (balances (cc_state cc) db)
          else balances (cc_state cc) db)" "nonces (cc_state cc) db' = nonces (cc_state cc) db"
  | (runs) st where "admission cc msg gp db = None" "started cc header db author msg gp st"
      "ApplyMessage cc n header db author msg gp =
         obind (if st_native st then Ok (TransitionOnNative cc st) else TransitionOnEVM cc n st)
           (\<lambda>(st2, r). Ok (st_gp st2, st_state st2,
              case r of Inl e \<Rightarrow> Inl e | Inr (ret, requiredGas, used, failed) \<Rightarrow> Inr (ret, used, failed)))"
proof -
  let ?E = "cc_state cc" and ?gl = "m_gasLimit msg" and ?i = "IntrinsicGas (m_data msg) (m_to msg = None)"
  have inv: "db_inv ?E db" and gl: "0 \<le> ?gl" "?gl < 2 ^ 62" and price: "0 \<le> m_price msg"
    and bal: "bal_ok (abs_db ?E db)" and ref: "0 \<le> sd_refund db"
    using ok by (simp_all add: message_ok_def)
  from inv obtain db0 nat0 where new: "NewStateTransition cc msg gp db header author =
      \<lparr>st_gp = gp, st_msg = msg, st_gas = 0, st_gasPrice = m_price msg, st_initialGas = 0,
       st_value = m_amount msg, st_data = m_data msg, st_state = db0, st_native = nat0, st_header = header,
       st_author = author\<rparr>" (is "_ = ?st0") and q0: "quiet ?E db db0"
    and nat0: "nat0 \<longleftrightarrow> m_to msg \<noteq> None \<and> fst (GetCodeSize ?E (m_from msg) db) = 0"
    by (rule NewStateTransition_spec)
  obtain st err where pre: "preCheck cc ?st0 = (st, err)" by fastforce
  have inv0: "db_inv ?E (st_state ?st0)" using quiet_inv [OF q0] by simp
  note b = preCheck_spec [OF inv0 pre]
  have bits: "\<not> BitLen ?gl > 64" using gl by (simp add: BitLen_gt_64)
  have adm: "admission cc msg gp db0 = admission cc msg gp db"
    using q0 by (simp add: admission_def quiet_def Let_def)
  show ?thesis
  proof (cases err)
    case (Some e)
    with b(1) have st: "st_gp st = gp" "quiet ?E db (st_state st)"
      using quiet_trans [OF q0] by (simp_all add: bought_def)
    have a: "admission cc msg gp db = Some e" using b(2) bits Some adm by simp
    have e: "e \<noteq> TxOutOfGas" using b(4) bits Some by simp
    have "ApplyMessage cc n header db author msg gp = Ok (st_gp st, st_state st, Inl e)"
      by (simp add: ApplyMessage_def new pre Some)
    from fails [OF a this] e st show ?thesis by (simp add: quiet_settles quiet_def [of ?E db])
  next
    case None
    from b(1) None obtain db1 where st: "st = ?st0\<lparr>st_gp := gp - ?gl, st_gas := big_Uint64 ?gl,
        st_initialGas := ?gl, st_state := SubBalance ?E (m_from msg) (?gl * m_price msg) db1\<rparr>"
      and q1: "quiet ?E db0 db1" and c: "?gl \<le> gp" "?gl * m_price msg \<le> balances ?E db1 (m_from msg)"
      by (auto simp: bought_def Let_def)
    let ?db2 = "SubBalance ?E (m_from msg) (?gl * m_price msg) db1"
    have q: "quiet ?E db db1" by (rule quiet_trans [OF q0 q1])
    note s2 = settles_trans [OF quiet_settles [OF q] SubBalance_settles [OF quiet_inv [OF q] c(2)]]
    have gas: "uint (big_Uint64 ?gl) = ?gl"
      using gl by (simp add: big_Uint64_def uint_word_of_int)
    have neg: "settles ?E 0 db (st_state st)"
      using settles_mono [OF s2] gl price by (simp add: st)
    have v: "balances ?E ?db2 = pay (m_from msg) (- (?gl * m_price msg)) (balances ?E db)"
      "nonces ?E ?db2 = nonces ?E db" "sd_refund ?db2 = sd_refund db"
      "balances ?E db1 = balances ?E db" "nonces ?E db0 = nonces ?E db"
      using q q0 balances_ops(2) [OF quiet_inv [OF q]] nonces_ops(2) [OF quiet_inv [OF q]]
        refund_same(2) [OF quiet_inv [OF q]] by (simp_all add: quiet_def)
    note i0 = IntrinsicGas_nonneg [of "m_data msg" "m_to msg = None"]
    have i: "uint (big_Uint64 ?i) = ?i" if "\<not> BitLen ?i > 64"
      using that i0 by (simp add: BitLen_gt_64 big_Uint64_def uint_word_of_int)
    have iff: "BitLen ?i > 64 \<or> st_gas st < big_Uint64 ?i \<longleftrightarrow> ?gl < ?i"
    proof (cases "BitLen ?i > 64")
      case True
      then have "\<bar>?i\<bar> \<ge> 18446744073709551616" using BitLen_gt_64 [of ?i] by linarith
      with True i0 gl show ?thesis by simp
    next
      case False
      with i gas show ?thesis by (simp add: st word_less_def)
    qed
    show ?thesis
    proof (cases "?gl < ?i")
      case True
      then have a: "admission cc msg gp db = Some TxOutOfGas" using b(3) bits None adm by simp
      have "ApplyMessage cc n header db author msg gp = Ok (st_gp st, st_state st, Inl TxOutOfGas)"
        using True [folded iff] None by (auto simp: ApplyMessage_def new pre Let_def useGas_def st)
      from fails [OF a this] neg v show ?thesis by (simp add: st)
    next
      case lt: False
      then have False: "\<not> (BitLen ?i > 64 \<or> st_gas st < big_Uint64 ?i)" using iff by blast
      have adm0: "admission cc msg gp db = None" using b(3) bits None adm lt by simp
      have i: "uint (big_Uint64 ?i) = ?i" using i False by blast
      let ?st1 = "st\<lparr>st_gas := big_Uint64 ?gl - big_Uint64 ?i\<rparr>"
      have le: "?i \<le> ?gl" using False gas i by (simp add: st word_less_def)
      have left: "uint (big_Uint64 ?gl - big_Uint64 ?i) = ?gl - ?i"
        using le gas i by (simp add: uint_sub_if')
      have "ApplyMessage cc n header db author msg gp =
         obind (if st_native ?st1 then Ok (TransitionOnNative cc ?st1) else TransitionOnEVM cc n ?st1)
           (\<lambda>(st2, r). Ok (st_gp st2, st_state st2,
              case r of Inl e \<Rightarrow> Inl e | Inr (ret, requiredGas, used, failed) \<Rightarrow> Inr (ret, used, failed)))"
        using False None by (simp add: ApplyMessage_def new pre useGas_def st)
      moreover have "started cc header db author msg gp ?st1"
      proof -
        have "ready_st cc ?st1"
          using settles_inv [OF s2] ref v s2 bal gl price left i0
          by (simp add: ready_st_def st settles_def)
        moreover have "unat (st_gas ?st1) \<le> nat ?gl"
          using left i0 by (simp add: unat_eq_nat_uint)
        ultimately show ?thesis
          using s2 v c left nat0 by (simp add: started_def Let_def st gasUsed_def)
      qed
      ultimately show ?thesis using runs [OF adm0] by blast
    qed
  qed
qed

end
