(* ===== verification/Evm_Results.thy ===== *)
theory Evm_Results
  imports Evm_Loop
begin

text \<open>
  The guarantees of the virtual machine for its callers, with concrete instances.  The fuel of
  \<open>interpreter env n\<close> is not part of the program: every theorem that needs the call to return has
  \<open>unat gas < n\<close>, so any larger number of passes gives the same guarantee.
\<close>

section \<open>A concrete machine\<close>

text \<open>Account \<open>0x11\<close> has a balance of 9.  The code of account \<open>0x12\<close> stops; that of account
  \<open>0x13\<close> is the unassigned opcode \<open>0xfe\<close>.\<close>

definition vm_code :: "hash \<Rightarrow> bytes" where
  "vm_code h = (if h = 7 then [0] else if h = 8 then [0xfe] else [])"

definition vm_env :: evm_env where
  "vm_env =
     \<lparr>ee_state = \<lparr>keccak256 = (\<lambda>bs. of_nat (length bs)), storage_trie = (\<lambda>_ _ _. 0), storage_root = (\<lambda>_. 0),
        contract_code = (\<lambda>_. vm_code)\<rparr>,
      ee_Origin = 0x11, ee_GasPrice = 1, ee_Coinbase = 3, ee_GasLimit = 100, ee_BlockNumber = 5, ee_Time = 6,
      ee_Difficulty = 1, ee_GetHash = (\<lambda>n. 0), ee_NoRecursion = False, ee_DisableGasMetering = False,
      ee_EnablePreimageRecording = False, ee_sha256 = (\<lambda>b. b), ee_ripemd160 = (\<lambda>b. b),
      ee_Ecrecover = (\<lambda>h s. None), ee_bn_unmarshal1 = (\<lambda>b. None), ee_bn_unmarshal2 = (\<lambda>b. None),
      ee_bn_P = 1, ee_bn_add = (\<lambda>x y. []), ee_bn_mul = (\<lambda>x y. []), ee_bn_pairing = (\<lambda>x y. True)\<rparr>"

definition vm_db :: StateDB where
  "vm_db = new_StateDB
     [0x11 \<mapsto> \<lparr>acc_Nonce = 0, acc_Balance = 9, acc_Root = 0, acc_CodeHash = 0\<rparr>,
      0x12 \<mapsto> \<lparr>acc_Nonce = 1, acc_Balance = 0, acc_Root = 0, acc_CodeHash = 7\<rparr>,
      0x13 \<mapsto> \<lparr>acc_Nonce = 1, acc_Balance = 0, acc_Root = 0, acc_CodeHash = 8\<rparr>]"

lemma vm_env_ok [simp]: "env_ok vm_env"
  by (simp add: env_ok_def vm_env_def)

lemma vm_db_inv [simp]: "db_inv E vm_db"
  by (simp add: vm_db_def)

lemma vm_accounts:
  "as_accounts (abs_db E vm_db) = (\<lambda>a. map_option (\<lambda>acc. abs_obj E (newObject E a acc)) (sd_trie vm_db a))"
  by (simp add: abs_db_def live_def vm_db_def new_StateDB_def fun_eq_iff option.map_comp o_def)

lemma vm_ok [simp]: "ev_ok vm_env (NewEVM vm_db)"
  by (auto simp: ev_ok_def NewEVM_def bal_ok_def vm_accounts)
     (auto simp: vm_db_def new_StateDB_def newObject_def abs_obj_def split: if_splits)

lemma vm_caps [simp]: "(20 :: nat) < gas_cap"
  by (simp add: gas_cap_def)

definition call_result :: "callres \<Rightarrow> (bytes \<times> u64 \<times> vm_error option) option" where
  "call_result r = (case r of Ok (ev, ret, left, err) \<Rightarrow> Some (ret, left, err) | _ \<Rightarrow> None)"

lemma call_resultD: "call_result r = Some (ret, left, err) \<Longrightarrow> \<exists>ev. r = Ok (ev, ret, left, err)"
  by (auto simp: call_result_def split: outcome.splits)

lemma vm_call_returns:
  "call_result (Call vm_env (interpreter vm_env 21) (AccountRef 0x11) 0x12 [] 20 5 (NewEVM vm_db)) =
     Some ([], 20, None)"
  by code_simp

lemma vm_call_fails:
  "call_result (Call vm_env (interpreter vm_env 21) (AccountRef 0x11) 0x13 [] 20 5 (NewEVM vm_db)) =
     Some ([], 0, Some (ErrInvalidOpcode 0xfe))"
  by code_simp

lemma vm_static_call_returns:
  "call_result (StaticCall vm_env (interpreter vm_env 21) (AccountRef 0x11) 0x12 [] 20 (NewEVM vm_db)) =
     Some ([], 20, None)"
  by code_simp

definition create_result ::
    "(evm \<times> bytes \<times> address \<times> u64 \<times> vm_error option) outcome \<Rightarrow> (address \<times> u64 \<times> vm_error option) option" where
  "create_result r = (case r of Ok (ev, ret, addr, left, err) \<Rightarrow> Some (addr, left, err) | _ \<Rightarrow> None)"

lemma create_resultD: "create_result r = Some (addr, left, err) \<Longrightarrow> \<exists>ev ret. r = Ok (ev, ret, addr, left, err)"
  by (auto simp: create_result_def split: outcome.splits)

lemma vm_create_fails:
  "create_result (Create vm_env (interpreter vm_env 21) (AccountRef 0x11) [0xfe] 20 50 (NewEVM vm_db)) =
     Some (0, 20, Some ErrInsufficientBalance)"
  by code_simp

lemma NewEVM_sel [simp]: "\<not> evm_readOnly (NewEVM db)" "evm_StateDB (NewEVM db) = db" "evm_depth (NewEVM db) = 0"
  by (simp_all add: NewEVM_def)

section \<open>Message calls\<close>

text \<open>What \<open>call_good\<close> says of the calls the interpreter makes possible, one lemma for all results.\<close>

lemma Call_interpreter:
  assumes "env_ok env" "ev_ok env ev" "0 \<le> val" "evm_readOnly ev \<longrightarrow> val = 0" "unat gas < gas_cap"
    "length input < input_cap"
  shows "call_good env n gas ev (Call env (interpreter env n) caller addr input gas val ev)"
  using assms by (intro Call_good interpreter_good)



text \<open>C5: a message call gives back at most the gas it was given and leaves the call depth and the
  read-only mode of the machine as they were.\<close>

theorem evm_call_gas_bound:
  assumes "env_ok env" "ev_ok env ev" "0 \<le> val" "evm_readOnly ev \<longrightarrow> val = 0" "unat gas < gas_cap"
    "length input < input_cap"
    and "Call env (interpreter env n) caller addr input gas val ev = Ok (ev', ret, left, err)"
  shows "left \<le> gas \<and> evm_depth ev' = evm_depth ev \<and> evm_readOnly ev' = evm_readOnly ev"
  using Call_interpreter [OF assms(1-6), of n caller addr] assms(7)
  by (simp add: call_good_def ev_step_def word_le_nat_alt)

theorem evm_call_gas_bound_witness:
  "\<exists>ev'. Call vm_env (interpreter vm_env 21) (AccountRef 0x11) 0x12 [] 20 5 (NewEVM vm_db) = Ok (ev', [], 20, None) \<and>
     (20 :: u64) \<le> 20 \<and> evm_depth ev' = 0 \<and> \<not> evm_readOnly ev'"
proof -
  from call_resultD [OF vm_call_returns] obtain ev' where
    e: "Call vm_env (interpreter vm_env 21) (AccountRef 0x11) 0x12 [] 20 5 (NewEVM vm_db) = Ok (ev', [], 20, None)" by blast
  have "(20 :: u64) \<le> 20 \<and> evm_depth ev' = evm_depth (NewEVM vm_db) \<and> evm_readOnly ev' = evm_readOnly (NewEVM vm_db)"
    by (rule evm_call_gas_bound [OF _ _ _ _ _ _ e]) simp_all
  with e show ?thesis by simp
qed

text \<open>C2: a message call that ends with an error, of its own or of the code it ran, leaves every account,
  log, refund and preimage as it was before the call.\<close>

theorem evm_call_error_restores:
  assumes "env_ok env" "ev_ok env ev" "0 \<le> val" "evm_readOnly ev \<longrightarrow> val = 0" "unat gas < gas_cap"
    "length input < input_cap"
    and "Call env (interpreter env n) caller addr input gas val ev = Ok (ev', ret, left, Some e)"
  shows "abs_db (ee_state env) (evm_StateDB ev') = abs_db (ee_state env) (evm_StateDB ev)"
  using Call_interpreter [OF assms(1-6), of n caller addr] assms(7) by (simp add: call_good_def)

theorem evm_call_error_restores_witness:
  "\<exists>ev'. Call vm_env (interpreter vm_env 21) (AccountRef 0x11) 0x13 [] 20 5 (NewEVM vm_db) =
       Ok (ev', [], 0, Some (ErrInvalidOpcode 0xfe)) \<and>
     abs_db (ee_state vm_env) (evm_StateDB ev') = abs_db (ee_state vm_env) vm_db"
proof -
  from call_resultD [OF vm_call_fails] obtain ev' where
    e: "Call vm_env (interpreter vm_env 21) (AccountRef 0x11) 0x13 [] 20 5 (NewEVM vm_db) =
      Ok (ev', [], 0, Some (ErrInvalidOpcode 0xfe))" by blast
  have "abs_db (ee_state vm_env) (evm_StateDB ev') = abs_db (ee_state vm_env) (evm_StateDB (NewEVM vm_db))"
    by (rule evm_call_error_restores [OF _ _ _ _ _ _ e]) simp_all
  with e show ?thesis by simp
qed

text \<open>C3: a message call creates no value: the database stays well formed, no balance becomes negative
  and the sum of all balances does not grow (it shrinks when a contract destroys itself in favour of
  itself).\<close>

theorem evm_call_creates_no_value:
  assumes "env_ok env" "ev_ok env ev" "0 \<le> val" "evm_readOnly ev \<longrightarrow> val = 0" "unat gas < gas_cap"
    "length input < input_cap" "finite (dom (as_accounts (abs_db (ee_state env) (evm_StateDB ev))))"
    and "Call env (interpreter env n) caller addr input gas val ev = Ok (ev', ret, left, err)"
  shows "db_inv (ee_state env) (evm_StateDB ev') \<and> bal_ok (abs_db (ee_state env) (evm_StateDB ev')) \<and>
    total_supply (abs_db (ee_state env) (evm_StateDB ev')) \<le> total_supply (abs_db (ee_state env) (evm_StateDB ev))"
proof -
  have s: "ev_step env ev ev'"
    using Call_interpreter [OF assms(1-6), of n caller addr] assms(8) by (simp add: call_good_def)
  with assms(7) have "total_supply (abs_db (ee_state env) (evm_StateDB ev')) \<le> total_supply (abs_db (ee_state env) (evm_StateDB ev))"
    by (simp add: ev_step_def db_step_def a_step_def no_mint_def)
  with ev_step_ok [OF s assms(2)] show ?thesis by (simp add: ev_ok_def)
qed

lemma vm_finite: "finite (dom (as_accounts (abs_db E vm_db)))"
proof -
  have "dom (as_accounts (abs_db E vm_db)) \<subseteq> {0x11, 0x12, 0x13}"
    unfolding vm_accounts by (auto simp: vm_db_def new_StateDB_def split: if_splits)
  then show ?thesis by (rule finite_subset) simp
qed

theorem evm_call_creates_no_value_witness:
  "\<exists>ev'. Call vm_env (interpreter vm_env 21) (AccountRef 0x11) 0x12 [] 20 5 (NewEVM vm_db) = Ok (ev', [], 20, None) \<and>
     bal_ok (abs_db (ee_state vm_env) (evm_StateDB ev')) \<and>
     total_supply (abs_db (ee_state vm_env) (evm_StateDB ev')) \<le> total_supply (abs_db (ee_state vm_env) vm_db)"
proof -
  from call_resultD [OF vm_call_returns] obtain ev' where
    e: "Call vm_env (interpreter vm_env 21) (AccountRef 0x11) 0x12 [] 20 5 (NewEVM vm_db) = Ok (ev', [], 20, None)" by blast
  from evm_call_creates_no_value [OF vm_env_ok vm_ok _ _ _ _ _ e] e vm_finite show ?thesis by simp
qed

text \<open>C4: a static call changes nothing that can be observed: every account it finds keeps its contents,
  refunds and logs stay, and the only accounts that may appear are empty ones.\<close>

theorem evm_static_call_read_only:
  assumes "env_ok env" "ev_ok env ev" "unat gas < gas_cap" "length input < input_cap"
    and "StaticCall env (interpreter env n) caller addr input gas ev = Ok (ev', ret, left, err)"
  shows "ro_rel (ee_state env) (abs_db (ee_state env) (evm_StateDB ev)) (abs_db (ee_state env) (evm_StateDB ev'))"
  by (rule StaticCall_read_only [OF interpreter_good assms]) (rule assms(1))

theorem evm_static_call_read_only_witness:
  "\<exists>ev'. StaticCall vm_env (interpreter vm_env 21) (AccountRef 0x11) 0x12 [] 20 (NewEVM vm_db) = Ok (ev', [], 20, None) \<and>
     ro_rel (ee_state vm_env) (abs_db (ee_state vm_env) vm_db) (abs_db (ee_state vm_env) (evm_StateDB ev'))"
proof -
  from call_resultD [OF vm_static_call_returns] obtain ev' where
    e: "StaticCall vm_env (interpreter vm_env 21) (AccountRef 0x11) 0x12 [] 20 (NewEVM vm_db) = Ok (ev', [], 20, None)" by blast
  from evm_static_call_read_only [OF vm_env_ok vm_ok _ _ e] e show ?thesis by simp
qed

section \<open>Contract creation\<close>

text \<open>C6: a contract creation that fails leaves the state as it was, except that the nonce of the creator
  has been counted up when the creation got past the balance check; the gas left is at most the gas
  given.\<close>

theorem evm_create_error_restores:
  assumes "env_ok env" "ev_ok env ev" "0 \<le> val" "\<not> evm_readOnly ev" "unat gas < gas_cap"
    and "Create env (interpreter env n) caller code gas val ev = Ok (ev', ret, a, left, Some e)"
  shows "left \<le> gas \<and>
    (abs_db (ee_state env) (evm_StateDB ev') = abs_db (ee_state env) (evm_StateDB ev) \<or>
     abs_db (ee_state env) (evm_StateDB ev') =
       bump_nonce (ee_state env) (ref_Address caller) (abs_db (ee_state env) (evm_StateDB ev)))"
  using Create_good [OF interpreter_good [OF assms(1)] assms(1-3,5,4), of n caller code] assms(6)
  by (simp add: create_good_def word_le_nat_alt)

theorem evm_create_error_restores_witness:
  "\<exists>ev' ret a. Create vm_env (interpreter vm_env 21) (AccountRef 0x11) [0xfe] 20 50 (NewEVM vm_db) =
       Ok (ev', ret, a, 20, Some ErrInsufficientBalance) \<and>
     (abs_db (ee_state vm_env) (evm_StateDB ev') = abs_db (ee_state vm_env) vm_db \<or>
      abs_db (ee_state vm_env) (evm_StateDB ev') = bump_nonce (ee_state vm_env) 0x11 (abs_db (ee_state vm_env) vm_db))"
proof -
  from create_resultD [OF vm_create_fails] obtain ev' ret where
    e: "Create vm_env (interpreter vm_env 21) (AccountRef 0x11) [0xfe] 20 50 (NewEVM vm_db) =
       Ok (ev', ret, 0, 20, Some ErrInsufficientBalance)" by blast
  from evm_create_error_restores [OF vm_env_ok vm_ok _ _ _ e] e show ?thesis by auto
qed

end
