(* ===== verification/Transition_Results.thy ===== *)
theory Transition_Results
  imports State_Transition_Spec Evm_Results
begin

text \<open>
  What \<open>ApplyMessage\<close> guarantees to the block processor: it returns, it accounts for the gas pool and for
  the balances exactly, and a native transfer has the expected effect.  The last theorems describe two
  consequences of how the native path is chosen and executed.
\<close>

section \<open>A concrete message\<close>

text \<open>Account \<open>0x11\<close> owns 100 and sends 5 to account \<open>0x12\<close>, offering 20 units of gas at price 1; the
  author of the block is account \<open>0x20\<close>.\<close>

definition tx_db :: StateDB where
  "tx_db = new_StateDB
     [0x11 \<mapsto> \<lparr>acc_Nonce = 4, acc_Balance = 100, acc_Root = 0, acc_CodeHash = 0\<rparr>,
      0x12 \<mapsto> \<lparr>acc_Nonce = 1, acc_Balance = 0, acc_Root = 0, acc_CodeHash = 7\<rparr>]"

definition tx_chain :: chain_ctx where
  "tx_chain = \<lparr>cc_vm = vm_env, cc_Author = (\<lambda>h. h_Coinbase h), cc_GetHash = (\<lambda>h n. 0)\<rparr>"

definition tx_header :: Header where
  "tx_header = \<lparr>h_ParentHash = 0, h_UncleHash = 0, h_Coinbase = 0x20, h_Root = 0, h_TxHash = 0, h_ReceiptHash = 0,
     h_Bloom = 0, h_Difficulty = 1, h_Number = 5, h_GasLimit = 1000, h_GasUsed = 0, h_Time = 6, h_Extra = []\<rparr>"

definition tx_msg :: Message where
  "tx_msg = \<lparr>m_to = Some 0x12, m_from = 0x11, m_nonce = 4, m_amount = 5, m_price = 1, m_gasLimit = 20,
     m_data = [], m_checkNonce = True\<rparr>"

lemma tx_state [simp]: "cc_state tx_chain = ee_state vm_env" "cc_vm tx_chain = vm_env"
  by (simp_all add: tx_chain_def)

lemma tx_db_inv [simp]: "db_inv E tx_db"
  by (simp add: tx_db_def)

lemma tx_accounts:
  "as_accounts (abs_db E tx_db) = (\<lambda>a. map_option (\<lambda>acc. abs_obj E (newObject E a acc)) (sd_trie tx_db a))"
  by (simp add: abs_db_def live_def tx_db_def new_StateDB_def fun_eq_iff option.map_comp o_def)

lemma tx_views [simp]: "balances E tx_db 0x11 = 100" "nonces E tx_db 0x11 = 4" "balances E tx_db 0x12 = 0"
  by (simp_all add: balances_def nonces_def abs_balance_of_def a_get_def tx_accounts del: abs_db_sel)
     (simp_all add: tx_db_def new_StateDB_def newObject_def abs_obj_def)

lemma tx_finite: "finite (dom (as_accounts (abs_db E tx_db)))"
proof -
  have "dom (as_accounts (abs_db E tx_db)) \<subseteq> {0x11, 0x12}"
    unfolding tx_accounts by (auto simp: tx_db_def new_StateDB_def split: if_splits)
  then show ?thesis by (rule finite_subset) simp
qed

lemma tx_msg_sel [simp]:
  "m_to tx_msg = Some 0x12" "m_from tx_msg = 0x11" "m_nonce tx_msg = 4" "m_amount tx_msg = 5" "m_price tx_msg = 1"
  "m_gasLimit tx_msg = 20" "m_data tx_msg = []" "m_checkNonce tx_msg = True"
  by (simp_all add: tx_msg_def)

lemma tx_ok [simp]: "message_ok tx_chain tx_msg tx_db"
proof -
  have "bal_ok (abs_db E tx_db)" for E
    by (auto simp: bal_ok_def tx_accounts simp del: abs_db_sel)
       (auto simp: tx_db_def new_StateDB_def newObject_def abs_obj_def split: if_splits)
  then show ?thesis by (simp add: message_ok_def) (simp add: tx_db_def new_StateDB_def)
qed

lemma tx_admitted [simp]: "admission tx_chain tx_msg 1000 tx_db = None"
  by (simp add: admission_def Let_def IntrinsicGas_def)

lemma tx_native [simp]: "fst (GetCodeSize (cc_state tx_chain) 0x11 tx_db) = 0"
  by code_simp

section \<open>Every message\<close>

text \<open>What one application of a message gives, whatever its outcome.\<close>

definition message_result ::
    "chain_ctx \<Rightarrow> nat \<Rightarrow> StateDB \<Rightarrow> Message \<Rightarrow> bigint \<Rightarrow>
     (bigint \<times> StateDB \<times> (tx_error + bytes \<times> bigint \<times> bool)) outcome \<Rightarrow> bool" where
  "message_result cc n db msg gp r \<longleftrightarrow>
     (case r of
        Panic p \<Rightarrow> p = JumpdestIndex
      | OutOfFuel \<Rightarrow> int n \<le> m_gasLimit msg
      | Ok (gp', db', Inl e) \<Rightarrow> (gp' = gp \<or> gp' = gp - m_gasLimit msg) \<and> settles (cc_state cc) 0 db db'
      | Ok (gp', db', Inr (ret, used, failed)) \<Rightarrow>
          gp' = gp - used \<and> m_gasLimit msg \<le> gp \<and> 0 \<le> used \<and> used \<le> m_gasLimit msg \<and>
          IntrinsicGas (m_data msg) (m_to msg = None) \<le> 2 * used \<and> settles (cc_state cc) 0 db db')"

lemma ApplyMessage_result:
  assumes ok: "message_ok cc msg db"
  shows "message_result cc n db msg gp (ApplyMessage cc n header db author msg gp)"
  using ok
proof (cases rule: ApplyMessage_cases [where n = n and header = header and author = author and gp = gp])
  case (fails e gp' db')
  then show ?thesis by (simp add: message_result_def)
next
  case (runs st)
  let ?E = "cc_state cc" and ?gl = "m_gasLimit msg"
  have st: "ready_st cc st" "st_msg st = msg" "st_gasPrice st = m_price msg" "st_initialGas st = ?gl"
    "st_gp st = gp - ?gl" "?gl \<le> gp" "unat (st_gas st) \<le> nat ?gl" "st_value st = m_amount msg"
    "st_data st = m_data msg" "gasUsed st = IntrinsicGas (m_data msg) (m_to msg = None)"
    and s: "settles ?E (- (?gl * m_price msg)) db (st_state st)"
    using runs(2) by (simp_all add: started_def Let_def)
  have m: "0 \<le> m_amount msg" "0 \<le> m_price msg" "0 \<le> ?gl" "length (m_data msg) < input_cap" "env_ok (cc_vm cc)"
    using ok by (simp_all add: message_ok_def)
  have tot: "settles ?E 0 db t" if "settles ?E (?gl * m_price msg) (st_state st) t" for t
    using settles_trans [OF s that] by simp
  have err: "settles ?E 0 db t" if "settles ?E 0 (st_state st) t" for t
    using settles_mono [OF settles_trans [OF s that], of 0] m by simp
  show ?thesis
  proof (cases "st_native st")
    case True
    obtain st2 r where r: "TransitionOnNative cc st = (st2, r)" by fastforce
    have "native_result cc st (st2, r)"
      using TransitionOnNative_spec [OF st(1)] st(2) m(1) r by simp
    then show ?thesis
      using runs(3) True r st err [OF quiet_settles] tot m refund_of_nonneg [OF st(1)] gasUsed_le [of st]
      by (auto simp: native_result_def message_result_def Let_def split: sum.splits prod.splits)
  next
    case False
    have "evm_result cc n st (TransitionOnEVM cc n st)"
      by (rule TransitionOnEVM_spec [OF st(1)]) (simp_all add: st m)
    then show ?thesis
      using runs(3) False st err tot m
      by (auto simp: evm_result_def message_result_def split: outcome.splits sum.splits prod.splits)
  qed
qed



section \<open>Native transfers\<close>

text \<open>The outcome of a message the native path handles.\<close>

lemma ApplyMessage_native:
  assumes ok: "message_ok cc msg db" and adm: "admission cc msg gp db = None"
    and nat: "m_to msg = Some dest" "fst (GetCodeSize (cc_state cc) (m_from msg) db) = 0"
    and bal: "m_gasLimit msg * m_price msg + m_amount msg \<le> balances (cc_state cc) db (m_from msg)"
  defines "igas \<equiv> IntrinsicGas (m_data msg) False"
  defines "used \<equiv> igas - min (igas div 2) (sd_refund db)"
  shows "\<exists>db'. ApplyMessage cc n header db author msg gp = Ok (gp - used, db', Inr ([], used, False)) \<and>
    balances (cc_state cc) db' =
      pay (beneficiary_of cc header author) (used * m_price msg)
        (pay dest (m_amount msg) (pay (m_from msg) (- (m_amount msg + used * m_price msg)) (balances (cc_state cc) db))) \<and>
    nonces (cc_state cc) db' = nonces (cc_state cc) db"
  using ok
proof (cases rule: ApplyMessage_cases [where n = n and header = header and author = author and gp = gp])
  case (fails e gp' db')
  with adm show ?thesis by simp
next
  case (runs st)
  let ?E = "cc_state cc" and ?gl = "m_gasLimit msg" and ?p = "m_price msg" and ?amt = "m_amount msg"
  have st: "ready_st cc st" "st_msg st = msg" "st_gasPrice st = ?p" "st_initialGas st = ?gl"
    "st_gp st = gp - ?gl" "gasUsed st = igas" "st_native st" "st_header st = header" "st_author st = author"
    "sd_refund (st_state st) = sd_refund db" "nonces ?E (st_state st) = nonces ?E db"
    "balances ?E (st_state st) = pay (m_from msg) (- (?gl * ?p)) (balances ?E db)"
    using runs(2) nat by (simp_all add: started_def Let_def igas_def)
  obtain st2 r where r: "TransitionOnNative cc st = (st2, r)" by fastforce
  have res: "native_result cc st (st2, r)"
    using TransitionOnNative_spec [OF st(1)] st(2) ok r by (simp add: message_ok_def)
  have used: "gasUsed st - refund_of st = used" using st by (simp add: refund_of_def used_def)
  have enough: "?amt \<le> balances ?E (st_state st) (m_from msg)" using bal unfolding st(12) pay_same by simp
  then obtain y where y: "r = Inr y" using res st(2) by (cases r) (simp_all add: native_result_def Let_def)
  obtain ret req u f where y': "y = (ret, req, u, f)" by (cases y)
  have "pay (m_from msg) ((?gl - used) * ?p) (pay dest ?amt (pay (m_from msg) (- ?amt) (pay (m_from msg) (- (?gl * ?p)) g))) =
      pay dest ?amt (pay (m_from msg) (- (?amt + used * ?p)) g)" for g
    by (simp add: pay_commute [of "m_from msg" _ dest] pay_pay) (simp add: algebra_simps)
  with res y y' runs(3) r st nat used show ?thesis
    by (simp add: native_result_def Let_def)
qed

lemma tx_result:
  "\<exists>db'. ApplyMessage tx_chain n tx_header tx_db None tx_msg 1000 = Ok (990, db', Inr ([], 10, False))"
  using ApplyMessage_native [OF tx_ok tx_admitted, where dest = "0x12" and n = n and header = tx_header and author = None]
  by (auto simp: IntrinsicGas_def tx_native [simplified]) (auto simp: tx_db_def new_StateDB_def)

text \<open>C10: a native transfer that is admitted and covered by the sender's balance succeeds, whatever the
  recipient is: the fee of the used gas goes from the sender to the author of the block, the amount from
  the sender to the recipient, no other balance changes, and the gas pool loses the gas used, which is
  the intrinsic gas less the capped refund counter.\<close>

theorem native_transfer_succeeds:
  assumes "message_ok cc msg db" "admission cc msg gp db = None"
    "m_to msg = Some dest" "fst (GetCodeSize (cc_state cc) (m_from msg) db) = 0"
    "m_gasLimit msg * m_price msg + m_amount msg \<le> balances (cc_state cc) db (m_from msg)"
    "igas = IntrinsicGas (m_data msg) False" "used = igas - min (igas div 2) (sd_refund db)"
  shows "\<exists>db'. ApplyMessage cc n header db author msg gp = Ok (gp - used, db', Inr ([], used, False)) \<and>
    balances (cc_state cc) db' =
      pay (beneficiary_of cc header author) (used * m_price msg)
        (pay dest (m_amount msg)
          (pay (m_from msg) (- (m_amount msg + used * m_price msg)) (balances (cc_state cc) db)))"
  using ApplyMessage_native [OF assms(1-5), where n = n and header = header and author = author] unfolding assms(6,7) by blast

theorem native_transfer_succeeds_witness:
  "\<exists>db'. ApplyMessage tx_chain 0 tx_header tx_db None tx_msg 1000 = Ok (990, db', Inr ([], 10, False)) \<and>
     balances (ee_state vm_env) db' 0x11 = 85 \<and> balances (ee_state vm_env) db' 0x12 = 5"
proof -
  have r: "sd_refund tx_db = 0" by (simp add: tx_db_def new_StateDB_def)
  have b: "beneficiary_of tx_chain tx_header None = 0x20" by (simp add: beneficiary_of_def tx_chain_def tx_header_def)
  show ?thesis
    using native_transfer_succeeds [OF tx_ok tx_admitted, where dest = "0x12" and n = 0 and header = tx_header and author = None
        and igas = 10 and used = 10] tx_native
    by (auto simp: IntrinsicGas_def r b pay_def)
qed

text \<open>C12: a successful native transfer leaves every nonce as it was, the sender's included, so the nonce
  check accepts the same message again.\<close>

theorem native_transfer_keeps_nonce:
  assumes "message_ok cc msg db" "admission cc msg gp db = None"
    "m_to msg = Some dest" "fst (GetCodeSize (cc_state cc) (m_from msg) db) = 0"
    "m_gasLimit msg * m_price msg + m_amount msg \<le> balances (cc_state cc) db (m_from msg)"
  shows "\<exists>gp' db' used. ApplyMessage cc n header db author msg gp = Ok (gp', db', Inr ([], used, False)) \<and>
    nonces (cc_state cc) db' (m_from msg) = nonces (cc_state cc) db (m_from msg) \<and>
    (\<forall>gp2. admission cc msg gp2 db' \<noteq> Some NonceTooLow)"
proof -
  from ApplyMessage_native [OF assms, where n = n and header = header and author = author] obtain gp' db' used where
    r: "ApplyMessage cc n header db author msg gp = Ok (gp', db', Inr ([], used, False))"
      "nonces (cc_state cc) db' = nonces (cc_state cc) db" by blast
  moreover have "admission cc msg gp2 db' \<noteq> Some NonceTooLow" for gp2
    using assms(2) r(2) by (auto simp: admission_def Let_def split: if_splits)
  ultimately show ?thesis by auto
qed

theorem native_transfer_keeps_nonce_witness:
  "\<exists>gp' db' used. ApplyMessage tx_chain 0 tx_header tx_db None tx_msg 1000 = Ok (gp', db', Inr ([], used, False)) \<and>
     nonces (ee_state vm_env) db' 0x11 = 4"
  using native_transfer_keeps_nonce [OF tx_ok tx_admitted, where dest = "0x12" and n = 0 and header = tx_header and author = None] tx_native by auto

section \<open>Accounting\<close>

text \<open>C9: a message that is applied uses at least half its intrinsic gas and at most its gas limit, and the
  gas pool, which held the whole limit, shrinks by exactly the gas used.\<close>

theorem apply_message_gas:
  assumes "message_ok cc msg db"
    "ApplyMessage cc n header db author msg gp = Ok (gp', db', Inr (ret, used, failed))"
  shows "gp' = gp - used \<and> 0 \<le> gp' \<and> used \<le> m_gasLimit msg \<and>
    IntrinsicGas (m_data msg) (m_to msg = None) \<le> 2 * used"
  using ApplyMessage_result [OF assms(1), of n gp header author] unfolding assms(2)
  by (simp add: message_result_def)

theorem apply_message_gas_witness:
  "\<exists>db'. ApplyMessage tx_chain 21 tx_header tx_db None tx_msg 1000 = Ok (990, db', Inr ([], 10, False)) \<and>
     990 = 1000 - (10 :: int) \<and> (10 :: int) \<le> m_gasLimit tx_msg"
proof -
  from tx_result obtain db' where
    e: "ApplyMessage tx_chain 21 tx_header tx_db None tx_msg 1000 = Ok (990, db', Inr ([], 10, False))" by blast
  from apply_message_gas [OF tx_ok e] e show ?thesis by auto
qed

text \<open>C8: applying a message, successfully or not, creates no value: the balances stay non-negative and their
  sum does not grow, although gas is bought, refunded and paid to the author on the way.\<close>

theorem apply_message_creates_no_value:
  assumes "message_ok cc msg db" "finite (dom (as_accounts (abs_db (cc_state cc) db)))"
    "ApplyMessage cc n header db author msg gp = Ok (gp', db', r)"
  shows "db_inv (cc_state cc) db' \<and> bal_ok (abs_db (cc_state cc) db') \<and>
    total_supply (abs_db (cc_state cc) db') \<le> total_supply (abs_db (cc_state cc) db)"
proof -
  have "settles (cc_state cc) 0 db db'"
    using ApplyMessage_result [OF assms(1), of n gp header author] unfolding assms(3)
    by (auto simp: message_result_def split: sum.splits)
  with assms(1,2) show ?thesis by (simp add: settles_def message_ok_def)
qed

theorem apply_message_creates_no_value_witness:
  "\<exists>db'. ApplyMessage tx_chain 21 tx_header tx_db None tx_msg 1000 = Ok (990, db', Inr ([], 10, False)) \<and>
     total_supply (abs_db (ee_state vm_env) db') \<le> total_supply (abs_db (ee_state vm_env) tx_db)"
proof -
  from tx_result obtain db' where
    e: "ApplyMessage tx_chain 21 tx_header tx_db None tx_msg 1000 = Ok (990, db', Inr ([], 10, False))" by blast
  from apply_message_creates_no_value [OF tx_ok tx_finite e] e show ?thesis by auto
qed



end
