(* ===== verification/Rlp_Spec.thy ===== *)
theory Rlp_Spec
  imports Rlp
begin

text \<open>
  The encoder against the recursive definition of the format: \<open>EncodeToBytes\<close>, which keeps list headers
  apart until the end, yields \<open>rlp_enc\<close>; and splitting an encoding gives its content back.
\<close>

section \<open>Integers in big-endian form\<close>

lemma nat_bytes_0 [simp]: "nat_bytes 0 = []"
  by (simp add: nat_bytes.simps)

lemma nat_bytes_small: "0 < n \<Longrightarrow> n < 256 \<Longrightarrow> nat_bytes n = [of_nat n]"
  by (simp add: nat_bytes.simps [of n])

lemma nat_bytes_eq_Nil [simp]: "nat_bytes n = [] \<longleftrightarrow> n = 0"
  by (simp add: nat_bytes.simps [of n])

lemma nat_bytes_hd: "0 < n \<Longrightarrow> hd (nat_bytes n) \<noteq> 0"
proof (induction n rule: nat_bytes.induct)
  case (1 n)
  show ?case
  proof (cases "n < 256")
    case True
    with 1(2) have "of_nat n \<noteq> (0 :: byte)" by (simp add: word_of_nat_eq_0_iff nat_dvd_not_less)
    with True 1(2) show ?thesis by (simp add: nat_bytes_small)
  next
    case False
    then have "0 < n div 256" by simp
    with 1 show ?thesis by (simp add: nat_bytes.simps [of n])
  qed
qed

lemma unat_drop_bit8: "unat (drop_bit 8 (i :: u64)) = unat i div 256"
  by (simp add: drop_bit_eq_div unat_div)

lemma drop_bit_less:
  "drop_bit 8 (i :: u64) < 0x100 \<longleftrightarrow> i < 0x10000" "drop_bit 8 i < 0x10000 \<longleftrightarrow> i < 0x1000000"
  "drop_bit 8 i < 0x1000000 \<longleftrightarrow> i < 0x100000000" "drop_bit 8 i < 0x100000000 \<longleftrightarrow> i < 0x10000000000"
  "drop_bit 8 i < 0x10000000000 \<longleftrightarrow> i < 0x1000000000000"
  "drop_bit 8 i < 0x1000000000000 \<longleftrightarrow> i < 0x100000000000000" "drop_bit 8 i < 0x100000000000000"
proof -
  have "unat i < 18446744073709551616" by (rule unat_u64_less)
  then show "drop_bit 8 (i :: u64) < 0x100 \<longleftrightarrow> i < 0x10000" "drop_bit 8 i < 0x10000 \<longleftrightarrow> i < 0x1000000"
    "drop_bit 8 i < 0x1000000 \<longleftrightarrow> i < 0x100000000" "drop_bit 8 i < 0x100000000 \<longleftrightarrow> i < 0x10000000000"
    "drop_bit 8 i < 0x10000000000 \<longleftrightarrow> i < 0x1000000000000"
    "drop_bit 8 i < 0x1000000000000 \<longleftrightarrow> i < 0x100000000000000" "drop_bit 8 i < 0x100000000000000"
    by (simp_all add: word_less_nat_alt unat_drop_bit8 div_less_iff_less_mult)
qed

lemma putint_rec: "putint i = (if i < 0x100 then [ucast i] else putint (drop_bit 8 i) @ [ucast i])"
  by (simp add: putint_def drop_bit_less)

lemma putint_nat_bytes: "i \<noteq> 0 \<Longrightarrow> putint i = nat_bytes (unat i)"
proof (induction "unat i" arbitrary: i rule: less_induct)
  case less
  have i: "0 < unat i" using less.prems by (simp add: unat_gt_0)
  have b: "ucast i = (of_nat (unat i mod 256) :: byte)"
    by (simp add: word_unat_eq_iff unat_of_nat unsigned_ucast_eq take_bit_eq_mod)
  show ?case
  proof (cases "i < 0x100")
    case True
    then have "unat i < 256" by (simp add: word_less_nat_alt)
    with True i b show ?thesis by (simp add: putint_rec [of i] nat_bytes_small)
  next
    case False
    note d = unat_drop_bit8 [of i]
    from False have "256 \<le> unat i" by (simp add: word_less_nat_alt)
    then have m: "unat (drop_bit 8 i) \<noteq> 0" "unat (drop_bit 8 i) < unat i" using i d by simp_all
    then have n: "drop_bit 8 i \<noteq> 0" by auto
    from less.hyps [OF m(2) n] False i b d show ?thesis
      by (simp add: putint_rec [of i] nat_bytes.simps [of "unat i"])
  qed
qed

lemma intsize_loop_putint: "intsize_loop i sz = sz + length (putint i) - 1"
proof (induction i sz rule: intsize_loop.induct)
  case (1 i sz)
  have pos: "0 < length (putint (drop_bit 8 i))" by (simp add: putint_rec [of "drop_bit 8 i"])
  have z: "drop_bit 8 i = 0 \<longleftrightarrow> i < 0x100"
    using unat_drop_bit8 [of i] by (simp add: word_less_nat_alt unat_eq_zero [symmetric] div_eq_0_iff del: unat_eq_zero)
  show ?case
    using 1 pos z by (simp add: intsize_loop.simps [of i] putint_rec [of i] Let_def)
qed

lemma intsize_putint: "intsize i = length (putint i)"
  using putint_rec [of i] by (simp add: intsize_def intsize_loop_putint)

lemma length_putint: "length (putint i) \<le> 8" "0 < length (putint i)"
  by (simp_all add: putint_def)

lemma unat_of_nat_u64: "n < 2 ^ 64 \<Longrightarrow> unat (of_nat n :: u64) = n"
  by (simp add: unat_of_nat)

lemma putint_of_nat: "0 < n \<Longrightarrow> n < 2 ^ 64 \<Longrightarrow> putint (of_nat n) = nat_bytes n"
  using putint_nat_bytes [of "of_nat n"] unat_of_nat_u64 [of n] by (metis bot_nat_0.not_eq_extremum unat_eq_zero)

section \<open>The format\<close>

definition rlp_head :: "byte \<Rightarrow> byte \<Rightarrow> nat \<Rightarrow> bytes" where
  "rlp_head small large n =
     (if n < 56 then [small + of_nat n] else (large + of_nat (length (nat_bytes n))) # nat_bytes n)"

definition enc_string :: "bytes \<Rightarrow> bytes" where
  "enc_string b = (if length b = 1 \<and> hd b < 0x80 then b else rlp_head 0x80 0xB7 (length b) @ b)"

fun rlp_enc :: "rlp_val \<Rightarrow> bytes" where
  "rlp_enc (RBytes b) = enc_string b"
| "rlp_enc (RUint i) = enc_string (nat_bytes (unat i))"
| "rlp_enc (RBool b) = enc_string (nat_bytes (if b then 1 else 0))"
| "rlp_enc (RBigInt i) = enc_string (nat_bytes (nat i))"
| "rlp_enc (RList vs) = (let c = concat (map rlp_enc vs) in rlp_head 0xC0 0xF7 (length c) @ c)"

text \<open>Values the encoder accepts: no negative integer.\<close>

fun encodable :: "rlp_val \<Rightarrow> bool" where
  "encodable (RBigInt i) = (0 \<le> i)"
| "encodable (RList vs) = list_all encodable vs"
| "encodable _ = True"

lemma puthead_of_nat: "n < 2 ^ 64 \<Longrightarrow> puthead s l (of_nat n) = rlp_head s l n"
proof -
  assume n: "n < 2 ^ 64"
  have "(of_nat n :: u64) < 56 \<longleftrightarrow> n < 56" using unat_of_nat_u64 [OF n] by (simp add: word_less_nat_alt)
  moreover have "ucast (of_nat n :: u64) = (of_nat n :: byte)"
    by (simp add: word_unat_eq_iff unat_of_nat unsigned_ucast_eq take_bit_eq_mod mod_mod_cancel)
  ultimately show ?thesis using putint_of_nat [OF _ n] by (simp add: puthead_def rlp_head_def)
qed

lemma length_rlp_head:
  "n < 2 ^ 64 \<Longrightarrow> length (rlp_head s l n) = (if n < 56 then 1 else 1 + intsize (of_nat n))"
  using putint_of_nat [of n] by (simp add: rlp_head_def intsize_putint)

section \<open>Merging the list headers\<close>

fun merge_heads :: "(nat \<times> nat) list \<Rightarrow> bytes \<Rightarrow> nat \<Rightarrow> bytes" where
  "merge_heads [] str pos = drop pos str"
| "merge_heads ((off, sz) # hs) str pos =
     subslice str pos off @ puthead 0xC0 0xF7 (of_nat sz) @ merge_heads hs str off"

fun heads_from :: "nat \<Rightarrow> nat \<Rightarrow> (nat \<times> nat) list \<Rightarrow> bool" where
  "heads_from lo hi [] \<longleftrightarrow> lo \<le> hi"
| "heads_from lo hi ((off, sz) # hs) \<longleftrightarrow> lo \<le> off \<and> heads_from off hi hs"

abbreviation shift_heads :: "nat \<Rightarrow> (nat \<times> nat) list \<Rightarrow> (nat \<times> nat) list" where
  "shift_heads k \<equiv> map (\<lambda>(off, sz). (off + k, sz))"

lemma heads_from_le: "heads_from lo hi hs \<Longrightarrow> lo \<le> hi"
  by (induction lo hi hs rule: heads_from.induct) auto

lemma heads_from_shift: "heads_from (lo + k) (hi + k) (shift_heads k hs) = heads_from lo hi hs"
  by (induction lo hi hs rule: heads_from.induct) auto

lemma heads_from_append:
  "heads_from lo m hs \<Longrightarrow> heads_from m hi hs' \<Longrightarrow> heads_from lo hi (hs @ hs')"
proof (induction lo m hs rule: heads_from.induct)
  case (1 lo m)
  then show ?case by (cases hs') auto
qed auto

lemma merge_shift: "merge_heads (shift_heads (length str) hs) (str @ s) (pos + length str) = merge_heads hs s pos"
  by (induction hs s pos rule: merge_heads.induct) (auto simp: subslice_def)

lemma merge_append:
  "heads_from pos (length str) hs \<Longrightarrow>
   merge_heads (hs @ shift_heads (length str) hs') (str @ s) pos =
     merge_heads hs str pos @ merge_heads hs' s 0"
proof (induction hs str pos rule: merge_heads.induct)
  case (1 str pos)
  show ?case
  proof (cases hs')
    case (Cons h t)
    obtain off sz where h: "h = (off, sz)" by (cases h)
    have "merge_heads (shift_heads (length str) t) (str @ s) (off + length str) = merge_heads t s off"
      by (rule merge_shift)
    with 1 Cons h show ?thesis by (simp add: subslice_def)
  qed (use 1 in simp)
next
  case (2 off sz hs str pos)
  then have "off \<le> length str" using heads_from_le by auto
  with 2 show ?case by (simp add: subslice_def)
qed

text \<open>What a writer adds to the buffer: string data \<open>s\<close> and heads \<open>hs\<close>, which together are the
  encoding \<open>e\<close>.\<close>

definition wrote :: "bytes \<Rightarrow> encbuf \<Rightarrow> encbuf \<Rightarrow> bool" where
  "wrote e w w' \<longleftrightarrow>
     (\<exists>s hs. w' = w\<lparr>eb_str := eb_str w @ s, eb_lheads := eb_lheads w @ shift_heads (length (eb_str w)) hs,
                  eb_lhsize := eb_lhsize w + (length e - length s)\<rparr> \<and>
             length s \<le> length e \<and> heads_from 0 (length s) hs \<and> merge_heads hs s 0 = e)"

lemma wrote_append: "wrote e w (eb_append e w)"
  unfolding wrote_def eb_append_def by (intro exI [of _ e] exI [of _ "[]"]) (cases w, simp)

lemma wrote_nil: "wrote [] w w"
  unfolding wrote_def by (intro exI [of _ "[]"]) (cases w, simp)

lemma wrote_trans:
  assumes "wrote d u v" "wrote e v w" shows "wrote (d @ e) u w"
proof -
  from assms(1) obtain s hs where v: "v = u\<lparr>eb_str := eb_str u @ s,
      eb_lheads := eb_lheads u @ shift_heads (length (eb_str u)) hs, eb_lhsize := eb_lhsize u + (length d - length s)\<rparr>"
    and s: "length s \<le> length d" "heads_from 0 (length s) hs" "merge_heads hs s 0 = d"
    unfolding wrote_def by blast
  from assms(2) obtain t ht where w: "w = v\<lparr>eb_str := eb_str v @ t,
      eb_lheads := eb_lheads v @ shift_heads (length (eb_str v)) ht, eb_lhsize := eb_lhsize v + (length e - length t)\<rparr>"
    and t: "length t \<le> length e" "heads_from 0 (length t) ht" "merge_heads ht t 0 = e"
    unfolding wrote_def by blast
  let ?hs = "hs @ shift_heads (length s) ht"
  have "merge_heads ?hs (s @ t) 0 = d @ e" using merge_append [OF s(2)] s(3) t(3) by simp
  moreover have "heads_from 0 (length (s @ t)) ?hs"
    using heads_from_append [OF s(2)] heads_from_shift [of 0 "length s" "length t" ht] t(2) by (simp add: add.commute)
  moreover have "w = u\<lparr>eb_str := eb_str u @ s @ t, eb_lheads := eb_lheads u @ shift_heads (length (eb_str u)) ?hs,
      eb_lhsize := eb_lhsize u + (length (d @ e) - length (s @ t))\<rparr>"
    using s(1) t(1) unfolding w v by (simp add: case_prod_unfold comp_def add_ac)
  ultimately show ?thesis
    unfolding wrote_def using s(1) t(1) by (intro exI [of _ "s @ t"] exI [of _ ?hs]) auto
qed

lemma encodeString_wrote: "length b < 2 ^ 64 \<Longrightarrow> wrote (enc_string b) w (encodeString b w)"
proof -
  assume b: "length b < 2 ^ 64"
  have "encodeString b w = eb_append (enc_string b) w"
  proof (cases "length b = 1")
    case True
    then obtain x where "b = [x]" by (cases b) auto
    then show ?thesis
      by (auto simp: encodeString_def enc_string_def eb_append_def encodeStringHeader_def rlp_head_def word_less_nat_alt word_le_nat_alt)
  next
    case False
    have "\<not> length b < 56 \<Longrightarrow> putint (of_nat (length b)) = nat_bytes (length b)"
      using b by (intro putint_of_nat) auto
    with False show ?thesis
      by (simp add: encodeString_def enc_string_def eb_append_def encodeStringHeader_def rlp_head_def Let_def)
  qed
  then show ?thesis using wrote_append by simp
qed

lemma writeUint_wrote: "wrote (enc_string (nat_bytes (unat i))) w (writeUint i w)"
proof -
  have u: "unat i < 18446744073709551616" by (rule unat_u64_less)
  consider "i = 0" | "i \<noteq> 0" "i < 128" | "i \<ge> 128" by fastforce
  then have "writeUint i w = eb_append (enc_string (nat_bytes (unat i))) w"
  proof cases
    case 1
    then show ?thesis by (simp add: writeUint_def enc_string_def rlp_head_def)
  next
    case 2
    then have "0 < unat i" "unat i < 128" by (simp_all add: word_less_nat_alt unat_gt_0)
    moreover have "ucast i = (of_nat (unat i) :: byte)" by simp
    ultimately show ?thesis using 2
      by (simp add: writeUint_def enc_string_def nat_bytes_small word_less_nat_alt unsigned_ucast_eq take_bit_eq_mod)
  next
    case 3
    then have n: "i \<noteq> 0" "128 \<le> unat i" by (auto simp: word_le_nat_alt)
    have "length (nat_bytes (unat i)) < 56" using length_putint(1) [of i] putint_nat_bytes [OF n(1)] by simp
    moreover have "\<not> (length (nat_bytes (unat i)) = 1 \<and> hd (nat_bytes (unat i)) < 0x80)"
    proof
      assume h: "length (nat_bytes (unat i)) = 1 \<and> hd (nat_bytes (unat i)) < 0x80"
      then have "unat i < 256" using length_nat_bytes_le_iff [of "unat i" 1] by simp
      with n h show False by (simp add: nat_bytes_small word_less_nat_alt unsigned_ucast_eq take_bit_eq_mod)
    qed
    ultimately show ?thesis using 3 n putint_nat_bytes [OF n(1)]
      by (auto simp: writeUint_def enc_string_def rlp_head_def Let_def)
  qed
  then show ?thesis using wrote_append by simp
qed

lemma enc_string_length: "length b \<le> length (enc_string b)"
  by (simp add: enc_string_def)

lemma wrote_list:
  assumes c: "wrote c (snd (eb_list w)) w2" "length c < 2 ^ 64" and i: "i = fst (eb_list w)"
  shows "wrote (rlp_head 0xC0 0xF7 (length c) @ c) w (eb_listEnd i w2)"
proof -
  let ?L = "length (eb_str w)"
  let ?h = "rlp_head 0xC0 0xF7 (length c)"
  from c(1) obtain s hs where w2: "w2 = w\<lparr>eb_str := eb_str w @ s,
      eb_lheads := (eb_lheads w @ [(?L, eb_lhsize w)]) @ shift_heads ?L hs,
      eb_lhsize := eb_lhsize w + (length c - length s)\<rparr>"
    and s: "length s \<le> length c" "heads_from 0 (length s) hs" "merge_heads hs s 0 = c"
    unfolding wrote_def eb_list_def by auto
  have "eb_listEnd i w2 = w\<lparr>eb_str := eb_str w @ s,
      eb_lheads := eb_lheads w @ shift_heads ?L ((0, length c) # hs),
      eb_lhsize := eb_lhsize w + (length (?h @ c) - length s)\<rparr>"
    using s(1) unfolding w2 i eb_listEnd_def eb_list_def
    by (simp add: eb_size_def Let_def nth_append length_rlp_head [OF c(2)])
  moreover have "merge_heads ((0, length c) # hs) s 0 = ?h @ c"
    using s(3) by (simp add: puthead_of_nat [OF c(2)] subslice_def)
  ultimately show ?thesis
    unfolding wrote_def using s by (intro exI [of _ s] exI [of _ "(0, length c) # hs"]) auto
qed

lemma encode_wrote:
  "encodable v \<Longrightarrow> length (rlp_enc v) < 2 ^ 64 \<Longrightarrow> \<exists>w'. encode_val v w = Some w' \<and> wrote (rlp_enc v) w w'"
  "list_all encodable vs \<Longrightarrow> length (concat (map rlp_enc vs)) < 2 ^ 64 \<Longrightarrow>
     \<exists>w'. encode_vals vs w = Some w' \<and> wrote (concat (map rlp_enc vs)) w w'"
proof (induction v w and vs w rule: encode_val_encode_vals.induct)
  case (1 b w)
  then show ?case using encodeString_wrote [of b w] enc_string_length [of b] by simp
next
  case (2 i w)
  then show ?case using writeUint_wrote by simp
next
  case (3 b w)
  have "writeBool b w = eb_append (rlp_enc (RBool b)) w"
    by (simp add: writeBool_def enc_string_def rlp_head_def nat_bytes_small)
  then show ?case using wrote_append [of "rlp_enc (RBool b)" w] by simp
next
  case (4 i w)
  have "writeBigInt i w = Some (encodeString (nat_bytes (nat i)) w)"
    using 4 by (auto simp: writeBigInt_def big_Bytes_def encodeString_def encodeStringHeader_def eb_append_def)
  with 4 enc_string_length [of "nat_bytes (nat i)"] encodeString_wrote [of "nat_bytes (nat i)" w]
  show ?case by simp
next
  case (5 vs w)
  let ?c = "concat (map rlp_enc vs)"
  have len: "length ?c < 2 ^ 64" using 5(3) by (simp add: Let_def)
  obtain lh w1 where l: "eb_list w = (lh, w1)" by fastforce
  have "list_all encodable vs" using 5(2) by simp
  with 5(1) [OF l [symmetric]] len obtain w2 where
    w2: "encode_vals vs w1 = Some w2" "wrote ?c w1 w2" by blast
  have "wrote ?c (snd (eb_list w)) w2" "lh = fst (eb_list w)" using w2(2) l by simp_all
  from wrote_list [OF this(1) len this(2)]
  have "wrote (rlp_enc (RList vs)) w (eb_listEnd lh w2)" by (simp only: rlp_enc.simps Let_def)
  moreover have "encode_val (RList vs) w = Some (eb_listEnd lh w2)" using l w2(1) by simp
  ultimately show ?case by blast
next
  case (6 w)
  then show ?case using wrote_nil by simp
next
  case (7 v vs w)
  from 7(1) 7(3,4) obtain w1 where w1: "encode_val v w = Some w1" "wrote (rlp_enc v) w w1" by auto
  from 7(2) [OF w1(1)] 7(3,4) obtain w2 where
    w2: "encode_vals vs w1 = Some w2" "wrote (concat (map rlp_enc vs)) w1 w2" by auto
  from wrote_trans [OF w1(2) w2(2)] w1(1) w2(1) show ?case by simp
qed

lemma toBytes_loop_merge:
  "heads_from strpos (length str) hs \<Longrightarrow> pos + length (merge_heads hs str strpos) = length out \<Longrightarrow>
   toBytes_loop hs str strpos pos out = Some (take pos out @ merge_heads hs str strpos)"
proof (induction hs str strpos pos out rule: toBytes_loop.induct)
  case (1 str strpos pos out)
  then show ?case by (simp add: slice_copy_def)
next
  case (2 off sz hs str strpos pos out)
  let ?piece = "subslice str strpos off" and ?enc = "puthead 0xC0 0xF7 (of_nat sz)"
  have off: "strpos \<le> off" "off \<le> length str" "heads_from off (length str) hs"
    using 2(2) heads_from_le by auto
  have piece: "length ?piece = off - strpos" using off by (simp add: length_subslice)
  have n: "min (length out - pos) (length ?piece) = length ?piece" using 2(3) by auto
  let ?out1 = "slice_copy out pos (length ?piece) ?piece"
  let ?out2 = "slice_copy ?out1 (pos + length ?piece) (length ?enc) ?enc"
  have len: "length ?out2 = length out" using 2(3) by (simp add: length_slice_copy)
  have take: "take (pos + length ?piece + length ?enc) ?out2 = take pos out @ ?piece @ ?enc"
    using 2(3) by (simp add: slice_copy_def)
  have "toBytes_loop hs str (strpos + length ?piece) (pos + length ?piece + length ?enc) ?out2 =
      Some (take (pos + length ?piece + length ?enc) ?out2 @ merge_heads hs str (strpos + length ?piece))"
    using 2(1) [OF refl n [symmetric] refl refl] 2(3) off piece len by simp
  then show ?case using take off piece n 2(3) by (simp add: Let_def)
qed

text \<open>The encoder computes the format; a negative integer anywhere is the only error.\<close>

lemma EncodeToBytes_enc:
  assumes "encodable v" "length (rlp_enc v) < 2 ^ 64"
  shows "EncodeToBytes v = Some (rlp_enc v)"
proof -
  let ?w = "\<lparr>eb_str = [], eb_lheads = [], eb_lhsize = 0\<rparr>"
  from encode_wrote(1) [OF assms, of ?w] obtain w where w: "encode_val v ?w = Some w" "wrote (rlp_enc v) ?w w"
    by blast
  then obtain s hs where e: "w = \<lparr>eb_str = s, eb_lheads = hs, eb_lhsize = length (rlp_enc v) - length s\<rparr>"
    and s: "length s \<le> length (rlp_enc v)" "heads_from 0 (length s) hs" "merge_heads hs s 0 = rlp_enc v"
    unfolding wrote_def by (auto simp: case_prod_unfold)
  have "eb_size w = length (rlp_enc v)" using s(1) by (simp add: e eb_size_def)
  with toBytes_loop_merge [OF s(2), of 0 "replicate (eb_size w) 0"] s(3) w(1)
  show ?thesis by (simp add: EncodeToBytes_def toBytes_def e)
qed

lemma encode_None:
  "encode_val v w = None \<longleftrightarrow> \<not> encodable v" "encode_vals vs w = None \<longleftrightarrow> \<not> list_all encodable vs"
proof (induction v w and vs w rule: encode_val_encode_vals.induct)
  case (5 vs w)
  obtain lh w1 where l: "eb_list w = (lh, w1)" by fastforce
  from 5 [OF l [symmetric]] show ?case by (auto simp: l split: option.splits)
next
  case (7 v vs w)
  show ?case
  proof (cases "encode_val v w")
    case (Some w1)
    with 7(1) 7(2) [OF Some] show ?thesis by auto
  qed (use 7(1) in simp)
qed (auto simp: writeBigInt_def)

lemma EncodeToBytes_None: "\<not> encodable v \<Longrightarrow> EncodeToBytes v = None"
  using encode_None(1) [of v "\<lparr>eb_str = [], eb_lheads = [], eb_lhsize = 0\<rparr>"] by (simp add: EncodeToBytes_def)

section \<open>Splitting an encoding\<close>

lemma length_nat_bytes_u64: "n < 2 ^ 64 \<Longrightarrow> length (nat_bytes n) \<le> 8"
  using length_nat_bytes_le_iff [of n 8] by simp

lemma be_u64_nat_bytes: "be_u64 (nat_bytes n) = of_nat n"
  by (simp add: be_u64_def SetBytes_nat_bytes)

lemma readSize_nat_bytes:
  assumes "56 \<le> n" "n < 2 ^ 64"
  shows "readSize (nat_bytes n @ xs) (of_nat (length (nat_bytes n))) = Inr (of_nat n)"
proof -
  have k: "unat (of_nat (length (nat_bytes n)) :: byte) = length (nat_bytes n)"
    using length_nat_bytes_u64 [OF assms(2)] by (simp add: unat_of_nat)
  have "(nat_bytes n @ xs) ! 0 \<noteq> 0"
    using nat_bytes_hd [of n] assms(1) by (simp add: nth_append hd_conv_nth)
  moreover have "\<not> (of_nat n :: u64) < 56"
    using unat_of_nat_u64 [OF assms(2)] assms(1) by (simp add: word_less_nat_alt)
  ultimately show ?thesis by (simp add: readSize_def k Let_def be_u64_nat_bytes)
qed

lemma large_tag:
  assumes "0 < k" "k \<le> 8"
  shows "0xB8 \<le> 0xB7 + (of_nat k :: byte)" "0xB7 + (of_nat k :: byte) < 0xC0" "0xF8 \<le> 0xF7 + (of_nat k :: byte)"
proof -
  have "k \<in> {1,2,3,4,5,6,7,8}" using assms by auto
  then show "0xB8 \<le> 0xB7 + (of_nat k :: byte)" "0xB7 + (of_nat k :: byte) < 0xC0" "0xF8 \<le> 0xF7 + (of_nat k :: byte)"
    by auto
qed

lemma small_tag:
  assumes "n < 56"
  shows "unat (0x80 + (of_nat n :: byte)) = 128 + n" "unat (0xC0 + (of_nat n :: byte)) = 192 + n"
    "ucast (of_nat n :: byte) = (of_nat n :: u64)"
proof -
  have n: "unat (of_nat n :: byte) = n" using assms by (simp add: unat_of_nat)
  show "unat (0x80 + (of_nat n :: byte)) = 128 + n" "unat (0xC0 + (of_nat n :: byte)) = 192 + n"
    using assms n by (simp_all add: unat_word_ariths)
  show "ucast (of_nat n :: byte) = (of_nat n :: u64)"
    using assms n by (simp add: word_unat_eq_iff unsigned_ucast_eq take_bit_eq_mod unat_of_nat)
qed

text \<open>The common end of \<open>readKind\<close>: the value must fit into the input.\<close>

lemma size_check:
  assumes "t + c \<le> length buf" "length buf < 2 ^ 64"
  shows "\<not> (of_nat c :: u64) > of_nat (length buf) - of_nat t"
proof -
  have "unat (of_nat (length buf) - of_nat t :: u64) = length buf - t"
    using assms by (simp add: unat_sub_if' unat_of_nat)
  moreover have "unat (of_nat c :: u64) = c" using assms by (simp add: unat_of_nat)
  ultimately show ?thesis using assms by (simp add: word_less_nat_alt)
qed

lemma readKind_string:
  assumes c: "length (rlp_head 0x80 0xB7 (length c) @ c @ rest) < 2 ^ 64" and one: "length c = 1 \<Longrightarrow> 0x80 \<le> hd c"
  shows "readKind (rlp_head 0x80 0xB7 (length c) @ c @ rest) =
    ROk (String, of_nat (length (rlp_head 0x80 0xB7 (length c))), of_nat (length c))"
proof -
  let ?n = "length c" and ?buf = "rlp_head 0x80 0xB7 (length c) @ c @ rest"
  have n: "?n < 2 ^ 64" using c by simp
  note chk = size_check [of "length (rlp_head 0x80 0xB7 ?n)" ?n ?buf, OF _ c]
  show ?thesis
  proof (cases "?n < 56")
    case True
    have t: "\<not> 0x80 + of_nat ?n < (0x80 :: byte)" "0x80 + of_nat ?n < (0xB8 :: byte)"
      using small_tag(1) [OF True] True by (simp_all add: word_less_nat_alt)
    have one': "of_nat ?n = (1 :: u64) \<longleftrightarrow> ?n = 1"
      using True by (metis n of_nat_1 unat_1 unat_of_nat_u64)
    have "\<not> (c @ rest) ! 0 < 0x80" if "?n = 1"
      using one [OF that] that by (cases c) auto
    with True t chk one' small_tag(3) [OF True] show ?thesis
      by (cases "?n = 1") (auto simp: readKind_def rlp_head_def Let_def)
  next
    case False
    let ?k = "length (nat_bytes ?n)"
    have k: "0 < ?k" "?k \<le> 8" using False length_nat_bytes_u64 [OF n] by auto
    have t: "\<not> 0xB7 + of_nat ?k < (0x80 :: byte)" "\<not> 0xB7 + of_nat ?k < (0xB8 :: byte)" "0xB7 + of_nat ?k < (0xC0 :: byte)"
      using large_tag [OF k] by (auto simp: not_less intro: order_trans [of _ "0xB8"])
    have "readSize (nat_bytes ?n @ c @ rest) (of_nat ?k) = Inr (of_nat ?n)"
      using False n by (intro readSize_nat_bytes) simp_all
    moreover have "ucast (of_nat ?k :: byte) = (of_nat ?k :: u64)" using small_tag(3) [of ?k] k by simp
    ultimately show ?thesis using False t chk
      by (simp add: readKind_def rlp_head_def Let_def add.commute)
  qed
qed

lemma readKind_list:
  assumes c: "length (rlp_head 0xC0 0xF7 (length c) @ c @ rest) < 2 ^ 64"
  shows "readKind (rlp_head 0xC0 0xF7 (length c) @ c @ rest) =
    ROk (List, of_nat (length (rlp_head 0xC0 0xF7 (length c))), of_nat (length c))"
proof -
  let ?n = "length c" and ?buf = "rlp_head 0xC0 0xF7 (length c) @ c @ rest"
  have n: "?n < 2 ^ 64" using c by simp
  note chk = size_check [of "length (rlp_head 0xC0 0xF7 ?n)" ?n ?buf, OF _ c]
  show ?thesis
  proof (cases "?n < 56")
    case True
    have t: "\<not> 0xC0 + of_nat ?n < (0x80 :: byte)" "\<not> 0xC0 + of_nat ?n < (0xB8 :: byte)"
      "\<not> 0xC0 + of_nat ?n < (0xC0 :: byte)" "0xC0 + of_nat ?n < (0xF8 :: byte)"
      using small_tag(2) [OF True] True by (simp_all add: word_less_nat_alt)
    with True chk small_tag(3) [OF True] show ?thesis
      by (auto simp: readKind_def rlp_head_def Let_def)
  next
    case False
    let ?k = "length (nat_bytes ?n)"
    have k: "0 < ?k" "?k \<le> 8" using False length_nat_bytes_u64 [OF n] by auto
    have t: "\<not> 0xF7 + of_nat ?k < (0x80 :: byte)" "\<not> 0xF7 + of_nat ?k < (0xB8 :: byte)"
      "\<not> 0xF7 + of_nat ?k < (0xC0 :: byte)" "\<not> 0xF7 + of_nat ?k < (0xF8 :: byte)"
      using large_tag(3) [OF k] by (auto simp: not_less intro: order_trans [of _ "0xF8"])
    have "readSize (nat_bytes ?n @ c @ rest) (of_nat ?k) = Inr (of_nat ?n)"
      using False n by (intro readSize_nat_bytes) simp_all
    moreover have "ucast (of_nat ?k :: byte) = (of_nat ?k :: u64)" using small_tag(3) [of ?k] k by simp
    ultimately show ?thesis using False t chk
      by (simp add: readKind_def rlp_head_def Let_def add.commute)
  qed
qed

lemma readKind_byte:
  "b < 0x80 \<Longrightarrow> length (b # rest) < 2 ^ 64 \<Longrightarrow> readKind (b # rest) = ROk (Byte, 0, 1)"
  using size_check [of 0 1 "b # rest"] by (simp add: readKind_def Let_def)

text \<open>What \<open>Split\<close> makes of a head with tag size and content size.\<close>

lemma rlp_Split_head:
  assumes "readKind (h @ c @ rest) = ROk (k, of_nat (length h), of_nat (length c))" "length (h @ c @ rest) < 2 ^ 64"
  shows "rlp_Split (h @ c @ rest) = ROk (k, c, rest)"
proof -
  have u: "unat (of_nat (length h) :: u64) = length h" "unat (of_nat (length h) + of_nat (length c) :: u64) = length h + length c"
    using assms(2) by (simp_all add: unat_word_ariths unat_of_nat)
  show ?thesis by (simp add: rlp_Split_def assms(1) u subslice_def)
qed

lemma Split_string:
  assumes "length (enc_string b @ rest) < 2 ^ 64"
  shows "\<exists>k. rlp_Split (enc_string b @ rest) = ROk (k, b, rest) \<and> k \<noteq> List"
proof (cases "length b = 1 \<and> hd b < 0x80")
  case True
  then obtain x where x: "b = [x]" "x < 0x80" by (cases b) auto
  then show ?thesis using assms readKind_byte [OF x(2), of rest] rlp_Split_head [of "[]" "[x]" rest Byte]
    by (simp add: enc_string_def)
next
  case False
  have "length b = 1 \<Longrightarrow> 0x80 \<le> hd b" using False by auto
  from readKind_string [OF _ this, of rest] rlp_Split_head [of "rlp_head 0x80 0xB7 (length b)" b rest String] False assms
  show ?thesis by (auto simp: enc_string_def)
qed

lemma Split_list:
  assumes "length (rlp_enc (RList vs) @ rest) < 2 ^ 64"
  shows "rlp_Split (rlp_enc (RList vs) @ rest) = ROk (List, concat (map rlp_enc vs), rest)"
  using readKind_list [of "concat (map rlp_enc vs)" rest]
    rlp_Split_head [of "rlp_head 0xC0 0xF7 (length (concat (map rlp_enc vs)))" "concat (map rlp_enc vs)" rest List] assms
  by (simp only: rlp_enc.simps Let_def append_assoc)

lemma readKind_enc:
  assumes "length (rlp_enc v @ rest) < 2 ^ 64"
  shows "\<exists>k t c. readKind (rlp_enc v @ rest) = ROk (k, t, c) \<and> unat (t + c) = length (rlp_enc v)"
proof -
  have str: "\<exists>k t c. readKind (enc_string b @ rest) = ROk (k, t, c) \<and> unat (t + c) = length (enc_string b)"
    if l: "length (enc_string b @ rest) < 2 ^ 64" for b
  proof (cases "length b = 1 \<and> hd b < 0x80")
    case True
    then obtain x where x: "b = [x]" "x < 0x80" by (cases b) auto
    then show ?thesis using l readKind_byte [OF x(2), of rest] by (simp add: enc_string_def)
  next
    case False
    have "length b = 1 \<Longrightarrow> 0x80 \<le> hd b" using False by auto
    from readKind_string [OF _ this, of rest] False l show ?thesis
      by (auto simp: enc_string_def unat_word_ariths unat_of_nat)
  qed
  show ?thesis
  proof (cases v)
    case (RList vs)
    with readKind_list [of "concat (map rlp_enc vs)" rest] assms show ?thesis
      by (auto simp: Let_def unat_word_ariths unat_of_nat simp del: length_concat)
  qed (use str assms in auto)
qed

lemma enc_string_nonempty [simp]: "enc_string b \<noteq> []"
  by (cases b) (auto simp: enc_string_def rlp_head_def)

lemma rlp_enc_nonempty: "rlp_enc v \<noteq> []"
  by (cases v) (auto simp: rlp_head_def Let_def)

lemma CountValues_loop_enc:
  "length (concat (map rlp_enc vs)) \<le> n \<Longrightarrow> length (concat (map rlp_enc vs)) < 2 ^ 64 \<Longrightarrow>
   CountValues_loop n (concat (map rlp_enc vs)) i = ROk (i + length vs)"
proof (induction vs arbitrary: n i)
  case Nil
  then show ?case by (simp add: CountValues_loop.simps)
next
  case (Cons v vs)
  let ?r = "concat (map rlp_enc vs)"
  have pos: "0 < length (rlp_enc v)" using rlp_enc_nonempty by simp
  have len: "length (concat (map rlp_enc (v # vs))) = length (rlp_enc v) + length ?r" by simp
  then have "0 < n" using Cons.prems(1) pos by linarith
  then obtain m where n0: "n = Suc m" using gr0_conv_Suc by blast
  then have "length ?r \<le> m" using Cons.prems(1) pos len by linarith
  note n = n0 this
  from readKind_enc [of v ?r] Cons.prems(2) obtain k t c where
    r: "readKind (rlp_enc v @ ?r) = ROk (k, t, c)" "unat (t + c) = length (rlp_enc v)" by auto
  have "CountValues_loop m ?r (i + 1) = ROk (i + 1 + length vs)"
    using Cons.IH [OF n(2)] Cons.prems(2) by simp
  with r n(1) rlp_enc_nonempty [of v] show ?case
    by (simp add: CountValues_loop.simps [of "Suc m"])
qed

end
