(* ===== verification/Rlp_Stream.thy ===== *)
theory Rlp_Stream
  imports Rlp_Spec
begin

text \<open>
  The streaming decoder of \<open>common/rlp/decode.go\<close> over an in-memory reader, and the decoders it builds
  for Go types.  An operation takes the stream and returns the changed stream with an error or a value,
  since errors leave the stream in a state that later calls see.  The stack of open lists has the
  innermost list first.  The type information that the code finds by reflection is the datatype
  \<open>rlp_type\<close>.
\<close>

section \<open>The stream\<close>

record Stream =
  s_input :: bytes                       \<comment> \<open>what the reader has not delivered yet\<close>
  s_remaining :: u64
  s_limited :: bool
  s_kind :: "Kind option"                \<comment> \<open>\<open>None\<close> is \<open>-1\<close>\<close>
  s_size :: u64
  s_byteval :: byte
  s_kinderr :: "rlp_error option"
  s_stack :: "(u64 \<times> u64) list"         \<comment> \<open>listpos: pos, size\<close>

type_synonym 'a dec = "Stream \<Rightarrow> Stream \<times> (rlp_error + 'a)"

definition sbind :: "'a dec \<Rightarrow> ('a \<Rightarrow> 'b dec) \<Rightarrow> 'b dec" where
  "sbind m f s = (case m s of (s1, Inl e) \<Rightarrow> (s1, Inl e) | (s1, Inr x) \<Rightarrow> f x s1)"

definition NewStream :: "bytes \<Rightarrow> u64 \<Rightarrow> Stream" where
  "NewStream r inputLimit =
     \<lparr>s_input = r, s_remaining = (if inputLimit > 0 then inputLimit else of_nat (length r)), s_limited = True,
      s_kind = None, s_size = 0, s_byteval = 0, s_kinderr = None, s_stack = []\<rparr>"

definition willRead :: "u64 \<Rightarrow> unit dec" where
  "willRead n s0 =
     (let s = s0\<lparr>s_kind := None\<rparr>;
          limit = (\<lambda>s1. if s_limited s1
                    then (if n > s_remaining s1 then (s1, Inl ErrValueTooLarge)
                          else (s1\<lparr>s_remaining := s_remaining s1 - n\<rparr>, Inr ()))
                    else (s1, Inr ()))
      in case s_stack s of
           [] \<Rightarrow> limit s
         | (pos, sz) # st \<Rightarrow>
             if n > sz - pos then (s, Inl ErrElemTooLarge)
             else limit (s\<lparr>s_stack := (pos + n, sz) # st\<rparr>))"

definition readFull :: "nat \<Rightarrow> bytes dec" where
  "readFull n = sbind (willRead (of_nat n)) (\<lambda>_ s.
     if n \<le> length (s_input s) then (s\<lparr>s_input := drop n (s_input s)\<rparr>, Inr (take n (s_input s)))
     else (s\<lparr>s_input := []\<rparr>, Inl ErrUnexpectedEOF))"

definition readByte :: "byte dec" where
  "readByte = sbind (willRead 1) (\<lambda>_ s.
     case s_input s of [] \<Rightarrow> (s, Inl ErrUnexpectedEOF) | b # bs \<Rightarrow> (s\<lparr>s_input := bs\<rparr>, Inr b))"

definition readUint :: "byte \<Rightarrow> u64 dec" where
  "readUint sz s =
     (if sz = 0 then (s\<lparr>s_kind := None\<rparr>, Inr 0)
      else if sz = 1 then sbind readByte (\<lambda>b s. (s, Inr (ucast b))) s
      else sbind (readFull (unat sz)) (\<lambda>b s.
             if b ! 0 = 0 then (s, Inl ErrCanonSize) else (s, Inr (be_u64 b))) s)"

text \<open>\<open>readKind\<close> returns kind and size also together with an error, and \<open>Kind\<close> stores all three.\<close>

definition readKind_large :: "Kind \<Rightarrow> byte \<Rightarrow> Stream \<Rightarrow> Stream \<times> Kind \<times> u64 \<times> rlp_error option" where
  "readKind_large k slen s =
     (case readUint slen s of
        (s1, Inl e) \<Rightarrow> (s1, k, 0, Some e)
      | (s1, Inr sz) \<Rightarrow> (s1, k, sz, if sz < 56 then Some ErrCanonSize else None))"

definition s_readKind :: "Stream \<Rightarrow> Stream \<times> Kind \<times> u64 \<times> rlp_error option" where
  "s_readKind s =
     (case readByte s of
        (s1, Inl e) \<Rightarrow>
          (s1, Byte, 0, Some (if s_stack s1 = [] \<and> (e = ErrUnexpectedEOF \<or> e = ErrValueTooLarge) then IoEOF else e))
      | (s1, Inr b) \<Rightarrow>
          (let s2 = s1\<lparr>s_byteval := 0\<rparr> in
           if b < 0x80 then (s2\<lparr>s_byteval := b\<rparr>, Byte, 0, None)
           else if b < 0xB8 then (s2, String, ucast (b - 0x80), None)
           else if b < 0xC0 then readKind_large String (b - 0xB7) s2
           else if b < 0xF8 then (s2, List, ucast (b - 0xC0), None)
           else readKind_large List (b - 0xF7) s2))"

definition s_Kind :: "(Kind \<times> u64) dec" where
  "s_Kind s =
     (case s_kind s of
        Some k \<Rightarrow> (s, case s_kinderr s of None \<Rightarrow> Inr (k, s_size s) | Some e \<Rightarrow> Inl e)
      | None \<Rightarrow>
          (let s0 = s\<lparr>s_kinderr := None\<rparr> in
           if (case s_stack s of [] \<Rightarrow> False | (pos, sz) # _ \<Rightarrow> pos = sz) then (s0, Inl EOL)
           else
             (let (s1, k, size, err) = s_readKind s0;
                  err' = (if err \<noteq> None then err
                          else case s_stack s1 of
                              [] \<Rightarrow> if s_limited s1 \<and> size > s_remaining s1 then Some ErrValueTooLarge else None
                            | (pos, sz) # _ \<Rightarrow> if size > sz - pos then Some ErrElemTooLarge else None)
              in (s1\<lparr>s_kind := Some k, s_size := size, s_kinderr := err'\<rparr>,
                  case err' of None \<Rightarrow> Inr (k, size) | Some e \<Rightarrow> Inl e))))"

definition s_Bytes :: "bytes dec" where
  "s_Bytes = sbind s_Kind (\<lambda>(kind, size) s.
     case kind of
       Byte \<Rightarrow> (s\<lparr>s_kind := None\<rparr>, Inr [s_byteval s])
     | String \<Rightarrow> sbind (readFull (unat size)) (\<lambda>b s.
         if size = 1 \<and> b ! 0 < 128 then (s, Inl ErrCanonSize) else (s, Inr b)) s
     | List \<Rightarrow> (s, Inl ErrExpectedString))"

definition s_Raw :: "bytes dec" where
  "s_Raw = sbind s_Kind (\<lambda>(kind, size) s.
     if kind = Byte then (s\<lparr>s_kind := None\<rparr>, Inr [s_byteval s])
     else sbind (readFull (unat size)) (\<lambda>b s.
       (s, Inr ((if kind = String then puthead 0x80 0xB7 size else puthead 0xC0 0xF7 size) @ b))) s)"

definition s_uint :: "nat \<Rightarrow> u64 dec" where
  "s_uint maxbits = sbind s_Kind (\<lambda>(kind, size) s.
     case kind of
       Byte \<Rightarrow> if s_byteval s = 0 then (s, Inl ErrCanonInt)
               else (s\<lparr>s_kind := None\<rparr>, Inr (ucast (s_byteval s)))
     | String \<Rightarrow>
         if size > of_nat (maxbits div 8) then (s, Inl ErrUintOverflow)
         else (case readUint (ucast size) s of
                 (s1, Inl e) \<Rightarrow> (s1, Inl (if e = ErrCanonSize then ErrCanonInt else e))
               | (s1, Inr v) \<Rightarrow> if size > 0 \<and> v < 128 then (s1, Inl ErrCanonSize) else (s1, Inr v))
     | List \<Rightarrow> (s, Inl ErrExpectedString))"

definition s_Uint :: "u64 dec" where
  "s_Uint = s_uint 64"

definition s_Bool :: "bool dec" where
  "s_Bool = sbind (s_uint 8) (\<lambda>num s.
     if num = 0 then (s, Inr False) else if num = 1 then (s, Inr True) else (s, Inl (ErrInvalidBool num)))"

definition s_List :: "u64 dec" where
  "s_List = sbind s_Kind (\<lambda>(kind, size) s.
     if kind \<noteq> List then (s, Inl ErrExpectedList)
     else (s\<lparr>s_stack := (0, size) # s_stack s, s_kind := None, s_size := 0\<rparr>, Inr size))"

definition s_ListEnd :: "unit dec" where
  "s_ListEnd s =
     (case s_stack s of
        [] \<Rightarrow> (s, Inl ErrNotInList)
      | (pos, sz) # st \<Rightarrow>
          if pos \<noteq> sz then (s, Inl ErrNotAtEOL)
          else (s\<lparr>s_stack := (case st of [] \<Rightarrow> [] | (pos', sz') # st' \<Rightarrow> (pos' + sz, sz') # st'),
                  s_kind := None, s_size := 0\<rparr>, Inr ()))"

section \<open>Decoders of types\<close>

datatype rlp_type =
    TBytes                      \<comment> \<open>byte slices and strings\<close>
  | TByteArray nat
  | TUint nat                   \<comment> \<open>width in bits\<close>
  | TBool
  | TBigInt
  | TSlice rlp_type
  | TArray nat rlp_type
  | TStruct "rlp_type list"

definition wrapStreamError :: "rlp_error \<Rightarrow> rlp_error" where
  "wrapStreamError err =
     (case err of
        ErrCanonInt \<Rightarrow> DecodeErr ''non-canonical integer (leading zero bytes)''
      | ErrCanonSize \<Rightarrow> DecodeErr ''non-canonical size information''
      | ErrExpectedList \<Rightarrow> DecodeErr ''expected input list''
      | ErrExpectedString \<Rightarrow> DecodeErr ''expected input string or byte''
      | ErrUintOverflow \<Rightarrow> DecodeErr ''input string too long''
      | ErrNotAtEOL \<Rightarrow> DecodeErr ''input list has too many elements''
      | _ \<Rightarrow> err)"

definition wrap :: "'a dec \<Rightarrow> 'a dec" where
  "wrap m s = (case m s of (s1, Inl e) \<Rightarrow> (s1, Inl (wrapStreamError e)) | (s1, Inr x) \<Rightarrow> (s1, Inr x))"

definition decodeUint :: "nat \<Rightarrow> rlp_val dec" where
  "decodeUint bits = sbind (wrap (s_uint bits)) (\<lambda>num s. (s, Inr (RUint num)))"

definition decodeBool :: "rlp_val dec" where
  "decodeBool = sbind (wrap s_Bool) (\<lambda>b s. (s, Inr (RBool b)))"

definition decodeByteSlice :: "rlp_val dec" where
  "decodeByteSlice = sbind (wrap s_Bytes) (\<lambda>b s. (s, Inr (RBytes b)))"

definition decodeBigInt :: "rlp_val dec" where
  "decodeBigInt = sbind (wrap s_Bytes) (\<lambda>b s.
     if length b > 0 \<and> b ! 0 = 0 then (s, Inl (wrapStreamError ErrCanonInt))
     else (s, Inr (RBigInt (SetBytes b))))"

text \<open>In the \<open>Byte\<close> case the error of \<open>s.Uint()\<close> is ignored.\<close>

definition decodeByteArray :: "nat \<Rightarrow> rlp_val dec" where
  "decodeByteArray vlen = sbind s_Kind (\<lambda>(kind, size) s.
     case kind of
       Byte \<Rightarrow>
         if vlen = 0 then (s, Inl (DecodeErr ''input string too long''))
         else if vlen > 1 then (s, Inl (DecodeErr ''input string too short''))
         else (case s_Uint s of
                 (s1, Inl e) \<Rightarrow> (s1, Inr (RBytes [0]))
               | (s1, Inr bv) \<Rightarrow> (s1, Inr (RBytes [ucast bv])))
     | String \<Rightarrow>
         if of_nat vlen < size then (s, Inl (DecodeErr ''input string too long''))
         else if of_nat vlen > size then (s, Inl (DecodeErr ''input string too short''))
         else sbind (readFull vlen) (\<lambda>b s.
           if size = 1 \<and> b ! 0 < 128 then (s, Inl (wrapStreamError ErrCanonSize)) else (s, Inr (RBytes b))) s
     | List \<Rightarrow> (s, Inl (wrapStreamError ErrExpectedString)))"

text \<open>The loops of the list decoders; \<open>decodeSliceElems\<close> runs until an element reports \<open>EOL\<close>, and \<open>n\<close> bounds
  the number of its passes.\<close>

definition on_EOL :: "'a dec \<Rightarrow> rlp_error \<Rightarrow> 'a dec" where
  "on_EOL m e' s = (case m s of (s1, Inl e) \<Rightarrow> (s1, Inl (if e = EOL then e' else e)) | r \<Rightarrow> r)"

fun decodeSliceElems :: "nat \<Rightarrow> rlp_val dec \<Rightarrow> rlp_val list dec" where
  "decodeSliceElems 0 elemdec s = (s, Inl DecFuel)"
| "decodeSliceElems (Suc n) elemdec s =
     (case elemdec s of
        (s1, Inl e) \<Rightarrow> if e = EOL then (s1, Inr []) else (s1, Inl e)
      | (s1, Inr v) \<Rightarrow> sbind (decodeSliceElems n elemdec) (\<lambda>vs s. (s, Inr (v # vs))) s1)"

definition decodeListSlice :: "nat \<Rightarrow> rlp_val dec \<Rightarrow> rlp_val dec" where
  "decodeListSlice n elemdec = sbind (wrap s_List) (\<lambda>size.
     if size = 0 then sbind s_ListEnd (\<lambda>_ s. (s, Inr (RList [])))
     else sbind (decodeSliceElems n elemdec) (\<lambda>vs. sbind s_ListEnd (\<lambda>_ s. (s, Inr (RList vs)))))"

fun decodeArrayElems :: "nat \<Rightarrow> rlp_val dec \<Rightarrow> rlp_val list dec" where
  "decodeArrayElems 0 elemdec s = (s, Inr [])"
| "decodeArrayElems (Suc n) elemdec s =
     sbind (on_EOL elemdec (DecodeErr ''input list has too few elements''))
       (\<lambda>v. sbind (decodeArrayElems n elemdec) (\<lambda>vs s. (s, Inr (v # vs)))) s"

definition decodeListArray :: "nat \<Rightarrow> rlp_val dec \<Rightarrow> rlp_val dec" where
  "decodeListArray vlen elemdec = sbind (wrap s_List) (\<lambda>_.
     sbind (decodeArrayElems vlen elemdec) (\<lambda>vs. sbind (wrap s_ListEnd) (\<lambda>_ s. (s, Inr (RList vs)))))"

fun makeDecoder :: "nat \<Rightarrow> rlp_type \<Rightarrow> rlp_val dec"
and struct_fields :: "nat \<Rightarrow> rlp_type list \<Rightarrow> rlp_val list dec" where
  "makeDecoder n TBytes = decodeByteSlice"
| "makeDecoder n (TByteArray k) = decodeByteArray k"
| "makeDecoder n (TUint bits) = decodeUint bits"
| "makeDecoder n TBool = decodeBool"
| "makeDecoder n TBigInt = decodeBigInt"
| "makeDecoder n (TSlice t) = decodeListSlice n (makeDecoder n t)"
| "makeDecoder n (TArray k t) = decodeListArray k (makeDecoder n t)"
| "makeDecoder n (TStruct ts) = sbind (wrap s_List) (\<lambda>_.
     sbind (struct_fields n ts) (\<lambda>vs. sbind (wrap s_ListEnd) (\<lambda>_ s. (s, Inr (RList vs)))))"
| "struct_fields n [] = (\<lambda>s. (s, Inr []))"
| "struct_fields n (t # ts) = sbind (on_EOL (makeDecoder n t) (DecodeErr ''too few elements''))
     (\<lambda>v. sbind (struct_fields n ts) (\<lambda>vs s. (s, Inr (v # vs))))"

definition DecodeBytes :: "rlp_type \<Rightarrow> bytes \<Rightarrow> rlp_error + rlp_val" where
  "DecodeBytes t b =
     (case makeDecoder (length b + 1) t (NewStream b (of_nat (length b))) of
        (s, Inl e) \<Rightarrow> Inl e
      | (s, Inr v) \<Rightarrow> if s_input s \<noteq> [] then Inl ErrMoreThanOneValue else Inr v)"

end
