(* ===== verification/Rlp_Roundtrip.thy ===== *)
theory Rlp_Roundtrip
  imports Rlp_Stream
begin

text \<open>
  Decoding what was encoded: for every value of a type, the decoder of the type reads the encoding of the
  value back and stops right behind it.  The proof follows how much of the input, of the innermost list
  and of the input limit each operation consumes.
\<close>

section \<open>Room and progress\<close>

definition fits :: "nat \<Rightarrow> Stream \<Rightarrow> bool" where
  "fits k s \<longleftrightarrow> k < 2 ^ 64 \<and> k \<le> length (s_input s) \<and> (s_limited s \<longrightarrow> k \<le> unat (s_remaining s)) \<and>
     (case s_stack s of [] \<Rightarrow> True | (pos, sz) # st \<Rightarrow> unat pos + k \<le> unat sz)"

definition eaten :: "nat \<Rightarrow> Stream \<Rightarrow> Stream \<Rightarrow> bool" where
  "eaten k s t \<longleftrightarrow> s_input t = drop k (s_input s) \<and> s_limited t = s_limited s \<and>
     s_remaining t = (if s_limited s then s_remaining s - of_nat k else s_remaining s) \<and>
     s_stack t = (case s_stack s of [] \<Rightarrow> [] | (pos, sz) # st \<Rightarrow> (pos + of_nat k, sz) # st)"

definition consumed :: "nat \<Rightarrow> Stream \<Rightarrow> Stream \<Rightarrow> bool" where
  "consumed k s t \<longleftrightarrow> eaten k s t \<and> s_kind t = None"

lemma eaten_0 [simp]: "eaten 0 s s"
  by (auto simp: eaten_def split: list.splits)

lemma eaten_trans: "eaten j s t \<Longrightarrow> eaten k t u \<Longrightarrow> eaten (j + k) s u"
  by (auto simp: eaten_def algebra_simps split: list.splits)

lemma consumed_trans: "eaten j s t \<Longrightarrow> consumed k t u \<Longrightarrow> consumed (j + k) s u"
  using eaten_trans by (simp add: consumed_def)

lemma unat_plus_small: "unat (x :: u64) + k \<le> unat (y :: u64) \<Longrightarrow> unat (x + of_nat k) = unat x + k"
  using unat_u64_less [of y] by (simp add: unat_word_ariths unat_of_nat)

lemma unat_minus_small: "k \<le> unat (x :: u64) \<Longrightarrow> unat (x - of_nat k) = unat x - k"
  using unat_u64_less [of x] by (simp add: unat_sub_if' unat_of_nat)

lemma unat_plus_fits: "unat (x :: u64) + (j + k) \<le> unat (y :: u64) \<Longrightarrow> unat (x + of_nat j) + k \<le> unat y"
  using unat_plus_small [of x j y] by simp

lemma fits_eaten: "fits (j + k) s \<Longrightarrow> eaten j s t \<Longrightarrow> fits k t"
  unfolding fits_def eaten_def
  by (auto simp: unat_plus_fits unat_minus_small [of j] split: list.splits)

lemma fits_le: "fits k s \<Longrightarrow> j \<le> k \<Longrightarrow> fits j s"
  unfolding fits_def by (auto split: list.splits)

lemma fits_frame [simp]:
  "fits k (s\<lparr>s_kind := x\<rparr>) = fits k s" "fits k (s\<lparr>s_kinderr := e\<rparr>) = fits k s"
  "fits k (s\<lparr>s_byteval := b\<rparr>) = fits k s" "fits k (s\<lparr>s_size := n\<rparr>) = fits k s"
  by (simp_all add: fits_def)

lemma eaten_frame [simp]:
  "eaten k (s\<lparr>s_kind := x\<rparr>) t = eaten k s t" "eaten k (s\<lparr>s_kinderr := e\<rparr>) t = eaten k s t"
  "eaten k s (t\<lparr>s_kind := x\<rparr>) = eaten k s t" "eaten k s (t\<lparr>s_kinderr := e\<rparr>) = eaten k s t"
  "eaten k s (t\<lparr>s_byteval := b\<rparr>) = eaten k s t" "eaten k s (t\<lparr>s_size := n\<rparr>) = eaten k s t"
  by (simp_all add: eaten_def)

section \<open>Reading\<close>

lemma sub_less:
  "unat (pos :: u64) + k \<le> unat sz \<Longrightarrow> k < 2 ^ 64 \<Longrightarrow> \<not> of_nat k > sz - pos"
proof -
  assume a: "unat pos + k \<le> unat sz" "k < 2 ^ 64"
  have "unat (sz - pos) = unat sz - unat pos" using a(1) by (simp add: unat_sub_if')
  then show ?thesis using a unat_of_nat_u64 [OF a(2)] by (simp add: word_less_nat_alt)
qed

lemma willRead_ok:
  assumes "fits k s"
  shows "\<exists>t. willRead (of_nat k) s = (t, Inr ()) \<and> eaten k s (t\<lparr>s_input := drop k (s_input t)\<rparr>) \<and>
    s_input t = s_input s \<and> s_kind t = None"
proof -
  have k: "unat (of_nat k :: u64) = k" using assms unat_of_nat_u64 by (simp add: fits_def)
  have "s_limited s \<Longrightarrow> \<not> s_remaining s < of_nat k"
    using assms k by (auto simp: fits_def word_less_nat_alt)
  moreover have "s_stack s = (pos, sz) # st \<Longrightarrow> \<not> of_nat k > sz - pos" for pos sz st
    using assms by (intro sub_less) (simp_all add: fits_def)
  ultimately show ?thesis
    by (cases "s_stack s") (auto simp: willRead_def Let_def eaten_def)
qed

lemma readFull_ok:
  assumes "fits k s"
  shows "\<exists>t. readFull k s = (t, Inr (take k (s_input s))) \<and> consumed k s t"
proof -
  from willRead_ok [OF assms] obtain t where t: "willRead (of_nat k) s = (t, Inr ())"
    "eaten k s (t\<lparr>s_input := drop k (s_input t)\<rparr>)" "s_input t = s_input s" "s_kind t = None" by blast
  moreover have "k \<le> length (s_input s)" using assms by (simp add: fits_def)
  ultimately show ?thesis by (simp add: readFull_def sbind_def consumed_def)
qed

lemma readByte_ok:
  assumes "fits 1 s" "s_input s = b # r"
  shows "\<exists>t. readByte s = (t, Inr b) \<and> consumed 1 s t"
proof -
  from willRead_ok [OF assms(1)] obtain t where t: "willRead 1 s = (t, Inr ())"
    "eaten 1 s (t\<lparr>s_input := drop 1 (s_input t)\<rparr>)" "s_input t = s_input s" "s_kind t = None" by auto
  then show ?thesis using assms(2) by (simp add: readByte_def sbind_def consumed_def)
qed

lemma readUint_ok:
  assumes f: "fits (length (nat_bytes n)) s" and i: "s_input s = nat_bytes n @ r" and n: "n < 2 ^ 64"
  shows "\<exists>t. readUint (of_nat (length (nat_bytes n))) s = (t, Inr (of_nat n)) \<and> consumed (length (nat_bytes n)) s t"
proof -
  let ?k = "length (nat_bytes n)"
  have k: "?k \<le> 8" by (rule length_nat_bytes_u64 [OF n])
  then have u: "unat (of_nat ?k :: byte) = ?k" by (simp add: unat_of_nat)
  consider "?k = 0" | "?k = 1" | "2 \<le> ?k" by linarith
  then show ?thesis
  proof cases
    case 1
    then show ?thesis by (simp add: readUint_def consumed_def)
  next
    case 2
    then obtain b where b: "nat_bytes n = [b]" by (cases "nat_bytes n") auto
    from SetBytes_nat_bytes [of n] b have "int n = uint b" by (simp add: SetBytes_def)
    then have "n = unat b" by (metis nat_int nat_uint_eq)
    then have v: "ucast b = (of_nat n :: u64)" by simp
    from readByte_ok [of s b r] f i b obtain t where "readByte s = (t, Inr b)" "consumed 1 s t" by auto
    then show ?thesis using b v by (simp add: readUint_def sbind_def)
  next
    case 3
    then have s: "(of_nat ?k :: byte) \<noteq> 0" "(of_nat ?k :: byte) \<noteq> 1"
      using u by (metis not_numeral_le_zero unsigned_0, metis numeral_le_one_iff semiring_norm(69) unsigned_1)
    have "nat_bytes n ! 0 \<noteq> 0" using nat_bytes_hd [of n] 3 by (cases "n = 0") (auto simp: hd_conv_nth)
    with readFull_ok [OF f] i s u show ?thesis
      by (auto simp: readUint_def sbind_def be_u64_nat_bytes)
  qed
qed

text \<open>\<open>Kind\<close> after the type tag was read: the value fits, so no error is stored.\<close>

lemma s_Kind_ok:
  assumes r: "s_readKind (s\<lparr>s_kinderr := None\<rparr>) = (t, k, of_nat c, None)" "eaten h s t"
    and f: "fits (h + c) s" "0 < h" "s_kind s = None"
  shows "s_Kind s = (t\<lparr>s_kind := Some k, s_size := of_nat c, s_kinderr := None\<rparr>, Inr (k, of_nat c))"
proof -
  have ft: "fits c t" by (rule fits_eaten [OF f(1) r(2)])
  have eol: "\<not> (case s_stack s of [] \<Rightarrow> False | (pos, sz) # _ \<Rightarrow> pos = sz)"
    using f(1,2) by (auto simp: fits_def split: list.splits)
  have c: "unat (of_nat c :: u64) = c" using ft unat_of_nat_u64 by (simp add: fits_def)
  have "(case s_stack t of
      [] \<Rightarrow> if s_limited t \<and> of_nat c > s_remaining t then Some ErrValueTooLarge else None
    | (pos, sz) # _ \<Rightarrow> if of_nat c > sz - pos then Some ErrElemTooLarge else None) = None"
  proof (cases "s_stack t")
    case Nil
    then show ?thesis using ft c by (auto simp: fits_def word_less_nat_alt)
  next
    case (Cons x st)
    obtain pos sz where x: "x = (pos, sz)" by (cases x)
    have "\<not> of_nat c > sz - pos" using ft Cons x by (intro sub_less) (simp_all add: fits_def)
    then show ?thesis using Cons x by simp
  qed
  with r(1) eol f(3) show ?thesis by (simp add: s_Kind_def Let_def)
qed

definition kind_ahead :: "Kind \<Rightarrow> nat \<Rightarrow> nat \<Rightarrow> Stream \<Rightarrow> Stream \<Rightarrow> bool" where
  "kind_ahead k h c s t \<longleftrightarrow> s_Kind s = (t, Inr (k, of_nat c)) \<and> eaten h s t \<and> s_kind t = Some k \<and> s_kinderr t = None \<and>
     s_size t = of_nat c"

lemma s_Kind_byte:
  assumes "s_input s = b # r" "b < 0x80" "fits 1 s" "s_kind s = None"
  shows "\<exists>t. kind_ahead Byte 1 0 s t \<and> s_byteval t = b"
proof -
  from readByte_ok [of "s\<lparr>s_kinderr := None\<rparr>" b r] assms obtain t where
    t: "readByte (s\<lparr>s_kinderr := None\<rparr>) = (t, Inr b)" "consumed 1 (s\<lparr>s_kinderr := None\<rparr>) t" by auto
  have "s_readKind (s\<lparr>s_kinderr := None\<rparr>) = (t\<lparr>s_byteval := b\<rparr>, Byte, of_nat 0, None)"
    using assms(2) by (simp add: s_readKind_def t(1) Let_def)
  from s_Kind_ok [OF this, of 1] t(2) assms(3,4) show ?thesis
    unfolding kind_ahead_def
    by (intro exI [of _ "t\<lparr>s_byteval := b, s_kind := Some Byte, s_size := 0, s_kinderr := None\<rparr>"]) (simp add: consumed_def)
qed

text \<open>The tag and the length of a string or list.\<close>

lemma s_readKind_small:
  assumes "s_input s = (tag + of_nat c) # r" "c < 56" "tag = 0x80 \<and> k = String \<or> tag = 0xC0 \<and> k = List" "fits 1 s"
  shows "\<exists>t. s_readKind s = (t, k, of_nat c, None) \<and> eaten 1 s t"
proof -
  from readByte_ok [OF assms(4,1)] obtain t where t: "readByte s = (t, Inr (tag + of_nat c))" "consumed 1 s t" by blast
  have u: "unat (0x80 + (of_nat c :: byte)) = 128 + c" "unat (0xC0 + (of_nat c :: byte)) = 192 + c"
    "ucast (of_nat c :: byte) = (of_nat c :: u64)" by (rule small_tag [OF assms(2)])+
  have b: "\<not> 0x80 + of_nat c < (0x80 :: byte)" "0x80 + of_nat c < (0xB8 :: byte)"
    "\<not> 0xC0 + of_nat c < (0x80 :: byte)" "\<not> 0xC0 + of_nat c < (0xB8 :: byte)"
    "\<not> 0xC0 + of_nat c < (0xC0 :: byte)" "0xC0 + of_nat c < (0xF8 :: byte)"
    using assms(2) u(1,2) by (simp_all add: word_less_nat_alt)
  have "s_readKind s = (t\<lparr>s_byteval := 0\<rparr>, k, of_nat c, None)"
    using assms(3) by (elim disjE conjE) (simp_all add: s_readKind_def t(1) Let_def b u(3))
  with t(2) show ?thesis by (simp add: consumed_def)
qed

lemma s_readKind_large:
  assumes i: "s_input s = (tag + of_nat (length (nat_bytes c))) # nat_bytes c @ r" and c: "\<not> c < 56" "c < 2 ^ 64"
    and k: "tag = 0xB7 \<and> k = String \<or> tag = 0xF7 \<and> k = List" and f: "fits (1 + length (nat_bytes c)) s"
  shows "\<exists>t. s_readKind s = (t, k, of_nat c, None) \<and> eaten (1 + length (nat_bytes c)) s t"
proof -
  let ?l = "length (nat_bytes c)"
  from readByte_ok [OF fits_le [OF f] i] obtain t where
    t: "readByte s = (t, Inr (tag + of_nat ?l))" "consumed 1 s t" by auto
  let ?t = "t\<lparr>s_byteval := 0\<rparr>"
  have e: "eaten 1 s ?t" using t(2) by (simp add: consumed_def)
  have ft: "fits ?l ?t" by (rule fits_eaten [OF f e])
  have "s_input ?t = nat_bytes c @ r" using e i by (simp add: eaten_def)
  from readUint_ok [OF ft this c(2)] obtain u where
    u: "readUint (of_nat ?l) ?t = (u, Inr (of_nat c))" "consumed ?l ?t u" by blast
  have l: "0 < ?l" "?l \<le> 8" using c length_nat_bytes_u64 [OF c(2)] by auto
  have big: "\<not> (of_nat c :: u64) < 56" using c unat_of_nat_u64 [OF c(2)] by (simp add: word_less_nat_alt)
  have b: "\<not> 0xB7 + of_nat ?l < (0x80 :: byte)" "\<not> 0xB7 + of_nat ?l < (0xB8 :: byte)" "0xB7 + of_nat ?l < (0xC0 :: byte)"
    "\<not> 0xF7 + of_nat ?l < (0x80 :: byte)" "\<not> 0xF7 + of_nat ?l < (0xB8 :: byte)"
    "\<not> 0xF7 + of_nat ?l < (0xC0 :: byte)" "\<not> 0xF7 + of_nat ?l < (0xF8 :: byte)"
    using large_tag [OF l] by (auto simp: not_less intro: order_trans [of _ "0xB8"] order_trans [of _ "0xF8"])
  have "s_readKind s = (u, k, of_nat c, None)"
    using k by (elim disjE conjE) (simp_all add: s_readKind_def t(1) Let_def b readKind_large_def u(1) big)
  moreover have "eaten (1 + ?l) s u" using eaten_trans [OF e] u(2) by (simp add: consumed_def)
  ultimately show ?thesis by blast
qed

lemma s_Kind_head:
  assumes i: "s_input s = rlp_head small large c @ r"
    and k: "small = 0x80 \<and> large = 0xB7 \<and> k = String \<or> small = 0xC0 \<and> large = 0xF7 \<and> k = List"
    and f: "fits (length (rlp_head small large c) + c) s" "s_kind s = None"
  shows "\<exists>t. kind_ahead k (length (rlp_head small large c)) c s t"
proof -
  let ?s = "s\<lparr>s_kinderr := None\<rparr>" and ?h = "length (rlp_head small large c)"
  have c: "c < 2 ^ 64" using f(1) by (simp add: fits_def)
  have "\<exists>t. s_readKind ?s = (t, k, of_nat c, None) \<and> eaten ?h ?s t"
  proof (cases "c < 56")
    case True
    then have "s_input ?s = (small + of_nat c) # r" "fits 1 ?s" "?h = 1"
      using i fits_le [OF f(1)] by (simp_all add: rlp_head_def)
    with s_readKind_small [of ?s small c r k] True k show ?thesis by auto
  next
    case False
    then have h: "s_input ?s = (large + of_nat (length (nat_bytes c))) # nat_bytes c @ r"
      "fits (1 + length (nat_bytes c)) ?s" "?h = 1 + length (nat_bytes c)"
      using i fits_le [OF f(1)] by (simp_all add: rlp_head_def)
    from s_readKind_large [OF h(1) False c _ h(2), of k] k h(3) show ?thesis by auto
  qed
  then obtain t where t: "s_readKind ?s = (t, k, of_nat c, None)" "eaten ?h s t" by auto
  have "0 < ?h" by (simp add: rlp_head_def)
  from s_Kind_ok [OF t f(1) this f(2)] t(2) show ?thesis unfolding kind_ahead_def by auto
qed

section \<open>Strings and integers\<close>

lemma s_Kind_string:
  assumes i: "s_input s = enc_string b @ r" and f: "fits (length (enc_string b)) s" "s_kind s = None"
  obtains
    (one) x t where "b = [x]" "x < 0x80" "kind_ahead Byte 1 0 s t" "s_byteval t = x" "length (enc_string b) = 1"
  | (many) t h where "kind_ahead String h (length b) s t" "length (enc_string b) = h + length b"
      "s_input t = b @ r" "fits (length b) t" "length b = 1 \<Longrightarrow> \<not> b ! 0 < 128"
proof (cases "length b = 1 \<and> hd b < 0x80")
  case True
  then obtain x where x: "b = [x]" "x < 0x80" by (cases b) auto
  then have e: "enc_string b = [x]" by (simp add: enc_string_def)
  from s_Kind_byte [of s x r] x i f e one show ?thesis by auto
next
  case False
  let ?h = "rlp_head 0x80 0xB7 (length b)"
  have e: "enc_string b = ?h @ b" using False by (auto simp: enc_string_def)
  from s_Kind_head [of s "0x80" "0xB7" "length b" "b @ r" String] i f e obtain t where
    t: "kind_ahead String (length ?h) (length b) s t" by auto
  have "s_input t = b @ r" using t i e by (simp add: kind_ahead_def eaten_def)
  moreover have "fits (length b) t" using fits_eaten [of "length ?h"] t f(1) e by (simp add: kind_ahead_def)
  moreover have "\<not> b ! 0 < 128" if "length b = 1" using False that by (cases b) auto
  ultimately show ?thesis using many [OF t] e by simp
qed

lemma s_Bytes_ok:
  assumes i: "s_input s = enc_string b @ r" and f: "fits (length (enc_string b)) s" "s_kind s = None"
  shows "\<exists>t. s_Bytes s = (t, Inr b) \<and> consumed (length (enc_string b)) s t"
  using assms
proof (cases rule: s_Kind_string)
  case (one x t)
  then show ?thesis by (auto simp: s_Bytes_def sbind_def kind_ahead_def consumed_def)
next
  case (many t h)
  from readFull_ok [OF many(4)] many(3) obtain u where
    u: "readFull (length b) t = (u, Inr b)" "consumed (length b) t u" by auto
  have n: "unat (of_nat (length b) :: u64) = length b" using many(4) unat_of_nat_u64 by (simp add: fits_def)
  have "of_nat (length b) = (1 :: u64) \<Longrightarrow> length b = 1" using n by (metis unat_1)
  with many u n consumed_trans [of h s t "length b" u] show ?thesis
    by (auto simp: s_Bytes_def sbind_def kind_ahead_def)
qed

lemma s_uint_ok:
  assumes i: "s_input s = enc_string (nat_bytes n) @ r" and f: "fits (length (enc_string (nat_bytes n))) s" "s_kind s = None"
    and n: "length (nat_bytes n) \<le> bits div 8" "bits \<le> 64" "n < 2 ^ 64"
  shows "\<exists>t. s_uint bits s = (t, Inr (of_nat n)) \<and> consumed (length (enc_string (nat_bytes n))) s t"
  using i f
proof (cases rule: s_Kind_string)
  case (one x t)
  have "n \<noteq> 0" using one(1) nat_bytes_eq_Nil [of n] by (metis list.distinct(1))
  then have "x \<noteq> 0" using nat_bytes_hd [of n] one(1) by simp
  moreover have "ucast x = (of_nat n :: u64)"
  proof -
    have "int n = uint x" using SetBytes_nat_bytes [of n] one(1) by (simp add: SetBytes_def)
    then have "n = unat x" by (metis nat_int nat_uint_eq)
    then show ?thesis by simp
  qed
  ultimately show ?thesis using one by (auto simp: s_uint_def sbind_def kind_ahead_def consumed_def)
next
  case (many t h)
  let ?l = "length (nat_bytes n)"
  from readUint_ok [OF many(4,3) n(3)] obtain u where
    u: "readUint (of_nat ?l) t = (u, Inr (of_nat n))" "consumed ?l t u" by blast
  have l: "?l \<le> 8" by (rule length_nat_bytes_u64 [OF n(3)])
  have "unat (of_nat (bits div 8) :: u64) = bits div 8" "unat (of_nat ?l :: u64) = ?l"
    using n(2) l by (simp_all add: unat_of_nat)
  then have le: "\<not> of_nat ?l > (of_nat (bits div 8) :: u64)" using n(1) by (simp add: word_less_nat_alt)
  have cast: "ucast (of_nat ?l :: u64) = (of_nat ?l :: byte)"
    using l by (simp add: word_unat_eq_iff unsigned_ucast_eq take_bit_eq_mod unat_of_nat)
  have small: "\<not> (of_nat ?l > (0 :: u64) \<and> (of_nat n :: u64) < 128)"
  proof
    assume a: "of_nat ?l > (0 :: u64) \<and> (of_nat n :: u64) < 128"
    then have "n \<noteq> 0" by (cases "n = 0") simp_all
    then have n': "0 < n" "n < 128" using a n(3) by (auto simp: word_less_nat_alt unat_of_nat)
    then have "nat_bytes n = [of_nat n]" by (simp add: nat_bytes_small)
    with many(5) n' show False by (simp add: word_less_nat_alt unat_of_nat)
  qed
  from many u le cast small consumed_trans [of h s t ?l u] show ?thesis
    by (auto simp: s_uint_def sbind_def kind_ahead_def)
qed

section \<open>Lists\<close>

lemma s_List_ok:
  assumes i: "s_input s = rlp_head 0xC0 0xF7 c @ r" and f: "fits (length (rlp_head 0xC0 0xF7 c) + c) s" "s_kind s = None"
  shows "\<exists>t u. s_List s = (u, Inr (of_nat c)) \<and> eaten (length (rlp_head 0xC0 0xF7 c)) s t \<and>
    u = t\<lparr>s_stack := (0, of_nat c) # s_stack t, s_kind := None, s_size := 0\<rparr>"
proof -
  from s_Kind_head [OF i _ f, of List] obtain t where
    t: "kind_ahead List (length (rlp_head 0xC0 0xF7 c)) c s t" by auto
  then show ?thesis by (auto simp: s_List_def sbind_def kind_ahead_def)
qed

text \<open>Entering a list whose content is known, reading it completely and leaving it.\<close>

lemma list_entered:
  assumes e: "eaten h s t" and f: "fits (h + c) s"
    and u: "u = t\<lparr>s_stack := (0, of_nat c) # s_stack t, s_kind := None, s_size := 0\<rparr>"
  shows "fits c u" "s_kind u = None"
proof -
  have "fits c t" by (rule fits_eaten [OF f e])
  then show "fits c u" "s_kind u = None" using unat_of_nat_u64 [of c] by (auto simp: u fits_def)
qed

lemma list_left:
  assumes e: "eaten h s t" and f: "fits (h + c) s"
    and u: "u = t\<lparr>s_stack := (0, of_nat c) # s_stack t, s_kind := None, s_size := 0\<rparr>"
    and v: "eaten c u v"
  shows "\<exists>w. s_ListEnd v = (w, Inr ()) \<and> consumed (h + c) s w"
proof -
  have "s_stack v = (of_nat c, of_nat c) # s_stack t" using v u by (simp add: eaten_def)
  moreover have "eaten c t (v\<lparr>s_stack := (case s_stack t of [] \<Rightarrow> [] | (pos', sz') # st' \<Rightarrow> (pos' + of_nat c, sz') # st')\<rparr>)"
    using v unfolding u eaten_def by simp
  from eaten_trans [OF e this]
  have "eaten (h + c) s (v\<lparr>s_stack := (case s_stack t of [] \<Rightarrow> [] | (pos', sz') # st' \<Rightarrow> (pos' + of_nat c, sz') # st')\<rparr>)" .
  ultimately show ?thesis by (simp add: s_ListEnd_def consumed_def eaten_def)
qed

section \<open>Values of a type\<close>

text \<open>A one-byte array that holds zero is left out: see \<open>decode_zero_byte_array\<close>.\<close>

inductive typed :: "rlp_type \<Rightarrow> rlp_val \<Rightarrow> bool" where
  typed_bytes: "typed TBytes (RBytes b)"
| typed_byte_array: "b \<noteq> [0] \<Longrightarrow> typed (TByteArray (length b)) (RBytes b)"
| typed_uint: "bits \<in> {8, 16, 32, 64} \<Longrightarrow> unat i < 2 ^ bits \<Longrightarrow> typed (TUint bits) (RUint i)"
| typed_bool: "typed TBool (RBool b)"
| typed_big: "0 \<le> i \<Longrightarrow> typed TBigInt (RBigInt i)"
| typed_slice: "list_all (typed t) vs \<Longrightarrow> typed (TSlice t) (RList vs)"
| typed_array: "list_all (typed t) vs \<Longrightarrow> typed (TArray (length vs) t) (RList vs)"
| typed_struct: "list_all2 typed ts vs \<Longrightarrow> typed (TStruct ts) (RList vs)"

definition decodes :: "nat \<Rightarrow> rlp_val dec \<Rightarrow> rlp_val \<Rightarrow> bool" where
  "decodes n m v \<longleftrightarrow>
     (\<forall>s r. s_input s = rlp_enc v @ r \<longrightarrow> fits (length (rlp_enc v)) s \<longrightarrow> s_kind s = None \<longrightarrow>
        length (rlp_enc v) < n \<longrightarrow> (\<exists>t. m s = (t, Inr v) \<and> consumed (length (rlp_enc v)) s t))"

lemma decodesD:
  assumes "decodes n m v" "s_input s = rlp_enc v @ r" "fits (length (rlp_enc v)) s" "s_kind s = None"
    "length (rlp_enc v) < n"
  obtains t where "m s = (t, Inr v)" "consumed (length (rlp_enc v)) s t"
  using assms unfolding decodes_def by blast

lemma wrap_Inr: "m s = (t, Inr x) \<Longrightarrow> wrap m s = (t, Inr x)"
  by (simp add: wrap_def)

lemma decodes_via:
  assumes "\<And>s r. s_input s = rlp_enc v @ r \<Longrightarrow> fits (length (rlp_enc v)) s \<Longrightarrow> s_kind s = None \<Longrightarrow>
      \<exists>t. m s = (t, Inr x) \<and> consumed (length (rlp_enc v)) s t"
    and "\<And>t. f x t = (t, Inr v)"
  shows "decodes n (sbind (wrap m) f) v"
  unfolding decodes_def
proof (intro allI impI)
  fix s r
  assume "s_input s = rlp_enc v @ r" "fits (length (rlp_enc v)) s" "s_kind s = None"
  from assms(1) [OF this] obtain t where "m s = (t, Inr x)" "consumed (length (rlp_enc v)) s t" by blast
  then show "\<exists>t. sbind (wrap m) f s = (t, Inr v) \<and> consumed (length (rlp_enc v)) s t"
    by (simp add: sbind_def wrap_def assms(2))
qed

lemma decodes_bytes: "decodes n decodeByteSlice (RBytes b)"
  unfolding decodeByteSlice_def by (rule decodes_via [of _ _ b]) (simp_all add: s_Bytes_ok)

lemma decodes_uint:
  assumes "bits \<in> {8, 16, 32, 64}" "unat i < 2 ^ bits"
  shows "decodes n (decodeUint bits) (RUint i)"
proof -
  have b: "length (nat_bytes (unat i)) \<le> bits div 8" "bits \<le> 64" "unat i < 2 ^ 64"
    using assms unat_u64_less [of i] by (auto simp: length_nat_bytes_le_iff)
  have "of_nat (unat i) = i" by simp
  with s_uint_ok [OF _ _ _ b] show ?thesis
    unfolding decodeUint_def by (intro decodes_via [of _ _ i]) simp_all
qed

lemma decodes_bool: "decodes n decodeBool (RBool b)"
  unfolding decodeBool_def
proof (rule decodes_via [of _ _ b])
  fix s r
  assume "s_input s = rlp_enc (RBool b) @ r" "fits (length (rlp_enc (RBool b))) s" "s_kind s = None"
  with s_uint_ok [of s "if b then 1 else 0" r 8] obtain t where
    "s_uint 8 s = (t, Inr (of_nat (if b then 1 else 0)))" "consumed (length (rlp_enc (RBool b))) s t"
    by (auto simp: length_nat_bytes_le_iff split: if_splits)
  then show "\<exists>t. s_Bool s = (t, Inr b) \<and> consumed (length (rlp_enc (RBool b))) s t"
    by (auto simp: s_Bool_def sbind_def)
qed simp

lemma decodes_big:
  assumes "0 \<le> i" shows "decodes n decodeBigInt (RBigInt i)"
  unfolding decodeBigInt_def
proof (rule decodes_via [of _ _ "nat_bytes (nat i)"])
  fix t :: Stream
  have "\<not> (length (nat_bytes (nat i)) > 0 \<and> nat_bytes (nat i) ! 0 = 0)"
    using nat_bytes_hd [of "nat i"] by (auto simp: hd_conv_nth)
  moreover have "SetBytes (nat_bytes (nat i)) = i" using assms by (simp add: SetBytes_nat_bytes)
  ultimately show "(if length (nat_bytes (nat i)) > 0 \<and> nat_bytes (nat i) ! 0 = 0
      then (t, Inl (wrapStreamError ErrCanonInt)) else (t, Inr (RBigInt (SetBytes (nat_bytes (nat i)))))) =
      (t, Inr (RBigInt i))" by (simp only: if_False)
qed (simp add: s_Bytes_ok)

lemma byte_of_u64 [simp]: "ucast (ucast (x :: byte) :: u64) = x"
  by (rule bit_word_eqI) (simp add: bit_unsigned_iff)

lemma decodes_byte_array:
  assumes "b \<noteq> [0]" shows "decodes n (decodeByteArray (length b)) (RBytes b)"
  unfolding decodes_def
proof (intro allI impI)
  fix s r
  assume i: "s_input s = rlp_enc (RBytes b) @ r" and f: "fits (length (rlp_enc (RBytes b))) s" "s_kind s = None"
  have i': "s_input s = enc_string b @ r" and f': "fits (length (enc_string b)) s" using i f by simp_all
  show "\<exists>t. decodeByteArray (length b) s = (t, Inr (RBytes b)) \<and> consumed (length (rlp_enc (RBytes b))) s t"
    using i' f' f(2)
  proof (cases rule: s_Kind_string)
    case (one x t)
    have "x \<noteq> 0" using assms one(1) by simp
    then have "s_Uint t = (t\<lparr>s_kind := None\<rparr>, Inr (ucast x))"
      using one by (simp add: s_Uint_def s_uint_def sbind_def s_Kind_def kind_ahead_def)
    with one show ?thesis by (auto simp: decodeByteArray_def sbind_def kind_ahead_def consumed_def)
  next
    case (many t h)
    from readFull_ok [OF many(4)] many(3) obtain u where
      u: "readFull (length b) t = (u, Inr b)" "consumed (length b) t u" by auto
    have n: "unat (of_nat (length b) :: u64) = length b" using many(4) unat_of_nat_u64 by (simp add: fits_def)
    have "of_nat (length b) = (1 :: u64) \<Longrightarrow> length b = 1" using n by (metis unat_1)
    with many u n consumed_trans [of h s t "length b" u] show ?thesis
      by (auto simp: decodeByteArray_def sbind_def kind_ahead_def)
  qed
qed

text \<open>At the end of a list every decoder reports \<open>EOL\<close>.\<close>

lemma s_Kind_EOL:
  "s_kind s = None \<Longrightarrow> s_stack s = (p, p) # st \<Longrightarrow> s_Kind s = (s\<lparr>s_kinderr := None\<rparr>, Inl EOL)"
  by (simp add: s_Kind_def)

lemma makeDecoder_EOL:
  assumes "s_kind s = None" "s_stack s = (p, p) # st"
  shows "makeDecoder n t s = (s\<lparr>s_kinderr := None\<rparr>, Inl EOL)"
proof -
  note k = s_Kind_EOL [OF assms]
  have "s_Bytes s = (s\<lparr>s_kinderr := None\<rparr>, Inl EOL)" "s_uint bits s = (s\<lparr>s_kinderr := None\<rparr>, Inl EOL)"
    "s_List s = (s\<lparr>s_kinderr := None\<rparr>, Inl EOL)" "s_Bool s = (s\<lparr>s_kinderr := None\<rparr>, Inl EOL)" for bits
    by (simp_all add: s_Bytes_def s_uint_def s_List_def s_Bool_def sbind_def k)
  with k show ?thesis
    by (cases t) (simp_all add: decodeByteSlice_def decodeByteArray_def decodeUint_def decodeBool_def decodeBigInt_def
        decodeListSlice_def decodeListArray_def sbind_def wrap_def wrapStreamError_def)
qed

abbreviation enc_all :: "rlp_val list \<Rightarrow> bytes" where
  "enc_all vs \<equiv> concat (map rlp_enc vs)"

text \<open>Reading the elements one after the other, for each of the three loops.\<close>

lemma elem_step:
  assumes d: "decodes n m v" and i: "s_input s = enc_all (v # vs) @ r" and f: "fits (length (enc_all (v # vs))) s"
    and k: "s_kind s = None" and n: "length (enc_all (v # vs)) < n"
  obtains t where "m s = (t, Inr v)" "eaten (length (rlp_enc v)) s t" "s_kind t = None"
    "s_input t = enc_all vs @ r" "fits (length (enc_all vs)) t" "length (enc_all vs) < n"
proof -
  have "s_input s = rlp_enc v @ (enc_all vs @ r)" "fits (length (rlp_enc v)) s" "length (rlp_enc v) < n"
    using i n fits_le [OF f] by simp_all
  from decodesD [OF d this(1,2) k this(3)] obtain t where t: "m s = (t, Inr v)" "consumed (length (rlp_enc v)) s t" .
  moreover have "fits (length (enc_all vs)) t"
    using fits_eaten [of "length (rlp_enc v)"] f t(2) by (simp add: consumed_def)
  ultimately show ?thesis using that i n by (simp add: consumed_def eaten_def)
qed

lemma enc_all_length: "length vs \<le> length (enc_all vs)"
proof (induction vs)
  case (Cons v vs)
  have "0 < length (rlp_enc v)" using rlp_enc_nonempty by simp
  then show ?case using Cons by (simp only: list.map concat.simps length_append list.size)
qed simp

lemma slice_elems:
  assumes d: "list_all (decodes n m) vs"
    and eol: "\<And>s p st. s_kind s = None \<Longrightarrow> s_stack s = (p, p) # st \<Longrightarrow> m s = (s\<lparr>s_kinderr := None\<rparr>, Inl EOL)"
    and i: "s_input s = enc_all vs @ r" and f: "fits (length (enc_all vs)) s" and k: "s_kind s = None"
    and n: "length (enc_all vs) < n" and st: "s_stack s = (pos, sz) # st" "unat pos + length (enc_all vs) = unat sz"
    and fuel: "length vs < j"
  shows "\<exists>t. decodeSliceElems j m s = (t, Inr vs) \<and> eaten (length (enc_all vs)) s t"
  using d i f k n st fuel
proof (induction vs arbitrary: s pos j)
  case Nil
  then obtain j' where "j = Suc j'" by (cases j) auto
  moreover have "pos = sz" using Nil.prems(7) by (simp add: word_unat_eq_iff)
  ultimately show ?case using eol [OF Nil.prems(4)] Nil.prems(6) by simp
next
  case (Cons v vs)
  from Cons.prems(8) obtain j' where j: "j = Suc j'" "length vs < j'" by (cases j) auto
  have d: "decodes n m v" "list_all (decodes n m) vs" using Cons.prems(1) by simp_all
  from elem_step [OF d(1) Cons.prems(2-5)] obtain t where
    t: "m s = (t, Inr v)" "eaten (length (rlp_enc v)) s t" "s_kind t = None" "s_input t = enc_all vs @ r"
      "fits (length (enc_all vs)) t" "length (enc_all vs) < n" .
  have p: "unat (pos + of_nat (length (rlp_enc v))) = unat pos + length (rlp_enc v)"
    using Cons.prems(7) by (intro unat_plus_small [of _ _ sz]) simp
  have "s_stack t = (pos + of_nat (length (rlp_enc v)), sz) # st" using t(2) Cons.prems(6) by (simp add: eaten_def)
  from Cons.IH [OF d(2) t(4,5,3,6) this _ j(2)] p Cons.prems(7) obtain u where
    u: "decodeSliceElems j' m t = (u, Inr vs)" "eaten (length (enc_all vs)) t u" by auto
  from eaten_trans [OF t(2) u(2)] t(1) u(1) j(1) show ?case by (simp add: sbind_def)
qed

lemma array_elems:
  assumes "list_all (decodes n m) vs" "s_input s = enc_all vs @ r" "fits (length (enc_all vs)) s" "s_kind s = None"
    "length (enc_all vs) < n"
  shows "\<exists>t. decodeArrayElems (length vs) m s = (t, Inr vs) \<and> eaten (length (enc_all vs)) s t \<and> s_kind t = None"
  using assms
proof (induction vs arbitrary: s)
  case (Cons v vs)
  have d: "decodes n m v" "list_all (decodes n m) vs" using Cons.prems(1) by simp_all
  from elem_step [OF d(1) Cons.prems(2-5)] obtain t where
    t: "m s = (t, Inr v)" "eaten (length (rlp_enc v)) s t" "s_kind t = None" "s_input t = enc_all vs @ r"
      "fits (length (enc_all vs)) t" "length (enc_all vs) < n" .
  from Cons.IH [OF d(2) t(4,5,3,6)] obtain u where
    u: "decodeArrayElems (length vs) m t = (u, Inr vs)" "eaten (length (enc_all vs)) t u" "s_kind u = None" by blast
  from eaten_trans [OF t(2) u(2)] t(1) u show ?case by (simp add: sbind_def on_EOL_def)
qed simp

lemma fields_elems:
  assumes "list_all2 (\<lambda>t v. decodes n (makeDecoder n t) v) ts vs" "s_input s = enc_all vs @ r"
    "fits (length (enc_all vs)) s" "s_kind s = None" "length (enc_all vs) < n"
  shows "\<exists>t. struct_fields n ts s = (t, Inr vs) \<and> eaten (length (enc_all vs)) s t \<and> s_kind t = None"
  using assms
proof (induction ts vs arbitrary: s rule: list_all2_induct)
  case (Cons x xs v vs)
  from elem_step [OF Cons.hyps(1) Cons.prems] obtain t where
    t: "makeDecoder n x s = (t, Inr v)" "eaten (length (rlp_enc v)) s t" "s_kind t = None" "s_input t = enc_all vs @ r"
      "fits (length (enc_all vs)) t" "length (enc_all vs) < n" .
  from Cons.IH [OF t(4,5,3,6)] obtain u where
    u: "struct_fields n xs t = (u, Inr vs)" "eaten (length (enc_all vs)) t u" "s_kind u = None" by blast
  from eaten_trans [OF t(2) u(2)] t(1) u show ?case by (simp add: sbind_def on_EOL_def)
qed simp

text \<open>A list decoder is a loop over the elements between \<open>List\<close> and \<open>ListEnd\<close>.\<close>

lemma list_decoder:
  assumes i: "s_input s = rlp_enc (RList vs) @ r" and f: "fits (length (rlp_enc (RList vs))) s" and k: "s_kind s = None"
    and loop: "\<And>u. s_input u = enc_all vs @ r \<Longrightarrow> fits (length (enc_all vs)) u \<Longrightarrow> s_kind u = None \<Longrightarrow>
        s_stack u \<noteq> [] \<Longrightarrow> hd (s_stack u) = (0, of_nat (length (enc_all vs))) \<Longrightarrow>
        \<exists>v. m u = (v, Inr vs) \<and> eaten (length (enc_all vs)) u v"
  shows "\<exists>u v w. s_List s = (u, Inr (of_nat (length (enc_all vs)))) \<and> m u = (v, Inr vs) \<and>
    s_ListEnd v = (w, Inr ()) \<and> consumed (length (rlp_enc (RList vs))) s w"
proof -
  let ?c = "length (enc_all vs)"
  let ?h = "length (rlp_head 0xC0 0xF7 ?c)"
  have e: "rlp_enc (RList vs) = rlp_head 0xC0 0xF7 ?c @ enc_all vs" by (simp only: rlp_enc.simps Let_def)
  have f': "fits (?h + ?c) s" using f unfolding e by (simp only: length_append)
  have i': "s_input s = rlp_head 0xC0 0xF7 ?c @ (enc_all vs @ r)" using i unfolding e by simp
  from s_List_ok [OF i' f' k] obtain t u where u: "s_List s = (u, Inr (of_nat ?c))" "eaten ?h s t"
    "u = t\<lparr>s_stack := (0, of_nat ?c) # s_stack t, s_kind := None, s_size := 0\<rparr>" by blast
  have "s_input u = enc_all vs @ r" using u i' by (simp add: eaten_def)
  from loop [OF this list_entered [OF u(2) f' u(3)]] u(3) obtain v where
    v: "m u = (v, Inr vs)" "eaten ?c u v" by auto
  from list_left [OF u(2) f' u(3) v(2)] obtain w where "s_ListEnd v = (w, Inr ())" "consumed (?h + ?c) s w" by blast
  then have "consumed (length (rlp_enc (RList vs))) s w" unfolding e by (simp only: length_append)
  with u(1) v(1) \<open>s_ListEnd v = (w, Inr ())\<close> show ?thesis by blast
qed

lemma makeDecoder_decodes: "typed t v \<Longrightarrow> decodes n (makeDecoder n t) v"
proof (induction rule: typed.induct)
  case (typed_slice t vs)
  then have d: "list_all (decodes n (makeDecoder n t)) vs" by (simp add: list_all_iff)
  show ?case unfolding decodes_def
  proof (intro allI impI)
    fix s r
    assume a: "s_input s = rlp_enc (RList vs) @ r" "fits (length (rlp_enc (RList vs))) s" "s_kind s = None"
      "length (rlp_enc (RList vs)) < n"
    let ?c = "length (enc_all vs)"
    have c: "?c < n" "?c < 2 ^ 64" using a(2,4) by (simp_all add: Let_def fits_def del: length_concat)
    have z: "of_nat ?c = (0 :: u64) \<longleftrightarrow> vs = []"
    proof (cases "vs = []")
      case False
      then have "0 < ?c" using enc_all_length [of vs] by (meson le_trans length_greater_0_conv not_less zero_less_iff_neq_zero)
      then have "unat (of_nat ?c :: u64) \<noteq> 0" using unat_of_nat_u64 [OF c(2)] by linarith
      then show ?thesis using False by force
    qed simp
    let ?m = "if vs = [] then (\<lambda>u. (u, Inr [])) else decodeSliceElems n (makeDecoder n t)"
    have "\<exists>v. ?m u = (v, Inr vs) \<and> eaten ?c u v"
      if u: "s_input u = enc_all vs @ r" "fits ?c u" "s_kind u = None" "s_stack u \<noteq> []" "hd (s_stack u) = (0, of_nat ?c)"
      for u
    proof (cases "vs = []")
      case False
      obtain st where st: "s_stack u = (0, of_nat ?c) # st" using u(4,5) by (cases "s_stack u") auto
      have "length vs < n" using enc_all_length [of vs] c(1) by linarith
      from slice_elems [OF d makeDecoder_EOL u(1-3) c(1) st _ this] unat_of_nat_u64 [OF c(2)] False
      show ?thesis by simp
    qed (use u in simp)
    from list_decoder [OF a(1-3), of ?m, OF this] obtain u v w where
      r: "s_List s = (u, Inr (of_nat ?c))" "?m u = (v, Inr vs)" "s_ListEnd v = (w, Inr ())"
      "consumed (length (rlp_enc (RList vs))) s w" by blast
    define sz :: u64 where "sz = of_nat ?c"
    have "s_List s = (u, Inr sz)" "sz = 0 \<longleftrightarrow> vs = []" using r(1) z by (simp_all only: sz_def)
    with r(2,3) have "makeDecoder n (TSlice t) s = (w, Inr (RList vs))"
      by (cases "vs = []") (simp_all add: decodeListSlice_def sbind_def wrap_def)
    with r(4) show "\<exists>t'. makeDecoder n (TSlice t) s = (t', Inr (RList vs)) \<and> consumed (length (rlp_enc (RList vs))) s t'"
      by blast
  qed
next
  case (typed_array t vs)
  then have d: "list_all (decodes n (makeDecoder n t)) vs" by (simp add: list_all_iff)
  show ?case unfolding decodes_def
  proof (intro allI impI)
    fix s r
    assume a: "s_input s = rlp_enc (RList vs) @ r" "fits (length (rlp_enc (RList vs))) s" "s_kind s = None"
      "length (rlp_enc (RList vs)) < n"
    have c: "length (enc_all vs) < n" using a(4) by (simp add: Let_def del: length_concat)
    have "\<exists>v. decodeArrayElems (length vs) (makeDecoder n t) u = (v, Inr vs) \<and> eaten (length (enc_all vs)) u v"
      if "s_input u = enc_all vs @ r" "fits (length (enc_all vs)) u" "s_kind u = None" for u
      using array_elems [OF d that c] by blast
    from list_decoder [OF a(1-3), of "decodeArrayElems (length vs) (makeDecoder n t)", OF this]
    obtain u v w where "s_List s = (u, Inr (of_nat (length (enc_all vs))))"
      "decodeArrayElems (length vs) (makeDecoder n t) u = (v, Inr vs)" "s_ListEnd v = (w, Inr ())"
      "consumed (length (rlp_enc (RList vs))) s w" by blast
    then have "makeDecoder n (TArray (length vs) t) s = (w, Inr (RList vs)) \<and> consumed (length (rlp_enc (RList vs))) s w"
      by (simp add: decodeListArray_def sbind_def wrap_def del: rlp_enc.simps)
    then show "\<exists>t'. makeDecoder n (TArray (length vs) t) s = (t', Inr (RList vs)) \<and>
        consumed (length (rlp_enc (RList vs))) s t'" by blast
  qed
next
  case (typed_struct ts vs)
  then have d: "list_all2 (\<lambda>t v. decodes n (makeDecoder n t) v) ts vs" by (auto elim: list_all2_mono)
  show ?case unfolding decodes_def
  proof (intro allI impI)
    fix s r
    assume a: "s_input s = rlp_enc (RList vs) @ r" "fits (length (rlp_enc (RList vs))) s" "s_kind s = None"
      "length (rlp_enc (RList vs)) < n"
    have c: "length (enc_all vs) < n" using a(4) by (simp add: Let_def del: length_concat)
    have "\<exists>v. struct_fields n ts u = (v, Inr vs) \<and> eaten (length (enc_all vs)) u v"
      if "s_input u = enc_all vs @ r" "fits (length (enc_all vs)) u" "s_kind u = None" for u
      using fields_elems [OF d that c] by blast
    from list_decoder [OF a(1-3), of "struct_fields n ts", OF this]
    obtain u v w where "s_List s = (u, Inr (of_nat (length (enc_all vs))))"
      "struct_fields n ts u = (v, Inr vs)" "s_ListEnd v = (w, Inr ())"
      "consumed (length (rlp_enc (RList vs))) s w" by blast
    then have "makeDecoder n (TStruct ts) s = (w, Inr (RList vs)) \<and> consumed (length (rlp_enc (RList vs))) s w"
      by (simp add: sbind_def wrap_def del: rlp_enc.simps)
    then show "\<exists>t'. makeDecoder n (TStruct ts) s = (t', Inr (RList vs)) \<and>
        consumed (length (rlp_enc (RList vs))) s t'" by blast
  qed
qed (simp_all add: decodes_bytes decodes_byte_array decodes_uint decodes_bool decodes_big)

lemma DecodeBytes_enc:
  assumes "typed t v" "length (rlp_enc v) < 2 ^ 64"
  shows "DecodeBytes t (rlp_enc v) = Inr v"
proof -
  let ?b = "rlp_enc v"
  let ?s = "NewStream ?b (of_nat (length ?b))"
  have "fits (length ?b) ?s" "s_input ?s = ?b @ []" "s_kind ?s = None"
    using assms(2) unat_of_nat_u64 [of "length ?b"] by (simp_all add: fits_def NewStream_def)
  with decodesD [OF makeDecoder_decodes [OF assms(1)], of ?s "[]" "length ?b + 1"] obtain u where
    "makeDecoder (length ?b + 1) t ?s = (u, Inr v)" "consumed (length ?b) ?s u" by auto
  then show ?thesis by (simp add: DecodeBytes_def consumed_def eaten_def NewStream_def)
qed

end
