(* ===== verification/Rlp_Results.thy ===== *)
theory Rlp_Results
  imports Rlp_Roundtrip
begin

text \<open>
  The guarantees of the encoding for its users: encoder and format agree, splitting and decoding give back
  what was encoded, and decoding returns on every input for types without one-byte arrays.  The last
  theorems state what goes wrong for a one-byte array and for a truncated string.
\<close>

section \<open>Decoding returns\<close>

text \<open>\<open>shrinks m\<close>: from a stream with no pending kind, \<open>m\<close> never reports an exhausted counter, and when it
  succeeds it has consumed input and leaves no pending kind.\<close>

definition shrinks :: "'a dec \<Rightarrow> bool" where
  "shrinks m \<longleftrightarrow>
     (\<forall>s t r. s_kind s = None \<longrightarrow> m s = (t, r) \<longrightarrow>
        length (s_input t) \<le> length (s_input s) \<and> r \<noteq> Inl DecFuel \<and>
        (\<forall>x. r = Inr x \<longrightarrow> length (s_input t) < length (s_input s) \<and> s_kind t = None))"

lemma willRead_frame: "willRead n s = (t, r) \<Longrightarrow> s_input t = s_input s \<and> s_kind t = None \<and> r \<noteq> Inl DecFuel"
  by (auto simp: willRead_def Let_def split: list.splits if_splits)

lemma readFull_frame:
  "readFull n s = (t, r) \<Longrightarrow> length (s_input t) \<le> length (s_input s) \<and> s_kind t = None \<and> r \<noteq> Inl DecFuel"
  by (auto simp: readFull_def sbind_def split: prod.splits sum.splits if_splits dest!: willRead_frame)

lemma readByte_frame:
  "readByte s = (t, r) \<Longrightarrow> length (s_input t) \<le> length (s_input s) \<and> s_kind t = None \<and> r \<noteq> Inl DecFuel \<and>
     (\<forall>b. r = Inr b \<longrightarrow> length (s_input t) < length (s_input s))"
  by (auto simp: readByte_def sbind_def split: prod.splits sum.splits list.splits dest!: willRead_frame)

lemma readUint_frame:
  "readUint k s = (t, r) \<Longrightarrow> length (s_input t) \<le> length (s_input s) \<and> s_kind t = None \<and> r \<noteq> Inl DecFuel"
  by (auto simp: readUint_def sbind_def split: prod.splits sum.splits if_splits
      dest!: readByte_frame readFull_frame)

lemma readKind_frame:
  assumes "s_readKind s = (t, k, sz, e)"
  shows "length (s_input t) \<le> length (s_input s) \<and> e \<noteq> Some DecFuel \<and>
    (e = None \<longrightarrow> length (s_input t) < length (s_input s))"
proof -
  obtain s1 r where b: "readByte s = (s1, r)" by fastforce
  note f = readByte_frame [OF b]
  have l: "length (s_input t) \<le> length (s_input s1) \<and> e \<noteq> Some DecFuel"
    if "readKind_large k' w (s1\<lparr>s_byteval := 0\<rparr>) = (t, k, sz, e)" for k' w
    using that by (auto simp: readKind_large_def split: prod.splits sum.splits if_splits dest!: readUint_frame)
  show ?thesis
  proof (cases r)
    case (Inl x)
    with assms b f show ?thesis by (auto simp: s_readKind_def split: if_splits)
  next
    case (Inr x)
    with f have "length (s_input s1) < length (s_input s)" by simp
    with assms b Inr show ?thesis by (auto simp: s_readKind_def Let_def split: if_splits dest!: l)
  qed
qed

lemma Kind_frame:
  assumes "s_Kind s = (t, r)" "s_kind s = None"
  shows "length (s_input t) \<le> length (s_input s)" "r \<noteq> Inl DecFuel"
    "r = Inr (k, sz) \<Longrightarrow> length (s_input t) < length (s_input s) \<and> s_Kind t = (t, r)"
proof -
  obtain s1 k' sz' e where k: "s_readKind (s\<lparr>s_kinderr := None\<rparr>) = (s1, k', sz', e)" by (metis prod_cases4)
  note f = readKind_frame [OF k]
  show "length (s_input t) \<le> length (s_input s)" "r \<noteq> Inl DecFuel"
    "r = Inr (k, sz) \<Longrightarrow> length (s_input t) < length (s_input s) \<and> s_Kind t = (t, r)"
    using assms f by (auto simp: s_Kind_def k Let_def split: if_splits option.splits list.splits)
qed

lemma shrinks_sbind_Kind:
  assumes "\<And>s k sz t r. s_Kind s = (s, Inr (k, sz)) \<Longrightarrow> f (k, sz) s = (t, r) \<Longrightarrow>
      length (s_input t) \<le> length (s_input s) \<and> r \<noteq> Inl DecFuel \<and> (\<forall>x. r = Inr x \<longrightarrow> s_kind t = None)"
  shows "shrinks (sbind s_Kind f)"
  unfolding shrinks_def
proof (intro allI impI)
  fix s t r
  assume s: "s_kind s = None" "sbind s_Kind f s = (t, r)"
  obtain s1 q where k: "s_Kind s = (s1, q)" by fastforce
  note f = Kind_frame [OF k s(1)]
  show "length (s_input t) \<le> length (s_input s) \<and> r \<noteq> Inl DecFuel \<and>
        (\<forall>x. r = Inr x \<longrightarrow> length (s_input t) < length (s_input s) \<and> s_kind t = None)"
  proof (cases q)
    case (Inl e)
    with s(2) k f(1,2) show ?thesis by (auto simp: sbind_def)
  next
    case (Inr y)
    obtain kk sz where y: "y = (kk, sz)" by (cases y)
    with s(2) k Inr have "f (kk, sz) s1 = (t, r)" by (simp add: sbind_def)
    from assms [OF _ this] f(3) [of kk sz] Inr y show ?thesis by auto
  qed
qed

lemma shrinks_Bytes: "shrinks s_Bytes"
  unfolding s_Bytes_def
  by (rule shrinks_sbind_Kind)
     (auto simp: sbind_def split: Kind.splits prod.splits sum.splits if_splits dest!: readFull_frame)

lemma shrinks_uint: "shrinks (s_uint bits)"
  unfolding s_uint_def
  by (rule shrinks_sbind_Kind)
     (auto split: Kind.splits prod.splits sum.splits if_splits dest!: readUint_frame)

lemma shrinks_List: "shrinks s_List"
  unfolding s_List_def by (rule shrinks_sbind_Kind) (auto split: if_splits)

lemma shrinks_map:
  assumes "shrinks m" "\<And>x s. \<exists>q. f x s = (s, q) \<and> q \<noteq> Inl DecFuel"
  shows "shrinks (sbind m f)"
  unfolding shrinks_def
proof (intro allI impI)
  fix s t r
  assume s: "s_kind s = None" "sbind m f s = (t, r)"
  obtain s1 q where m: "m s = (s1, q)" by fastforce
  have "length (s_input s1) \<le> length (s_input s) \<and> q \<noteq> Inl DecFuel \<and>
      (\<forall>x. q = Inr x \<longrightarrow> length (s_input s1) < length (s_input s) \<and> s_kind s1 = None)"
    using assms(1) s(1) m unfolding shrinks_def by blast
  moreover have "q = Inr x \<Longrightarrow> t = s1 \<and> r \<noteq> Inl DecFuel" for x
    using assms(2) [of x s1] s(2) m by (auto simp: sbind_def)
  moreover have "q = Inl e \<Longrightarrow> t = s1 \<and> r = Inl e" for e using s(2) m by (auto simp: sbind_def)
  ultimately show "length (s_input t) \<le> length (s_input s) \<and> r \<noteq> Inl DecFuel \<and>
        (\<forall>x. r = Inr x \<longrightarrow> length (s_input t) < length (s_input s) \<and> s_kind t = None)"
    by (cases q) auto
qed

lemma wrapStreamError_fuel: "wrapStreamError e = DecFuel \<longleftrightarrow> e = DecFuel"
  by (cases e) (simp_all add: wrapStreamError_def)

lemma shrinksD:
  assumes "shrinks m" "s_kind s = None" "m s = (t, r)"
  shows "length (s_input t) \<le> length (s_input s)" "r \<noteq> Inl DecFuel"
    "r = Inr x \<Longrightarrow> length (s_input t) < length (s_input s) \<and> s_kind t = None"
  using assms unfolding shrinks_def by blast+

lemma shrinks_wrap:
  assumes "shrinks m" shows "shrinks (wrap m)"
  unfolding shrinks_def
proof (intro allI impI)
  fix s t r
  assume s: "s_kind s = None" "wrap m s = (t, r)"
  obtain s1 q where m: "m s = (s1, q)" by fastforce
  note f = shrinksD [OF assms s(1) m]
  show "length (s_input t) \<le> length (s_input s) \<and> r \<noteq> Inl DecFuel \<and>
        (\<forall>x. r = Inr x \<longrightarrow> length (s_input t) < length (s_input s) \<and> s_kind t = None)"
    using f s(2) m by (cases q) (auto simp: wrap_def wrapStreamError_fuel)
qed

text \<open>Types without a one-byte array.\<close>

fun no_byte_array1 :: "rlp_type \<Rightarrow> bool" where
  "no_byte_array1 (TByteArray k) = (k \<noteq> 1)"
| "no_byte_array1 (TSlice t) = no_byte_array1 t"
| "no_byte_array1 (TArray k t) = no_byte_array1 t"
| "no_byte_array1 (TStruct ts) = list_all no_byte_array1 ts"
| "no_byte_array1 _ = True"

lemma shrinks_base:
  "shrinks decodeByteSlice" "shrinks (decodeUint bits)" "shrinks decodeBool" "shrinks decodeBigInt"
proof -
  show "shrinks decodeByteSlice" unfolding decodeByteSlice_def
    by (rule shrinks_map [OF shrinks_wrap [OF shrinks_Bytes]]) simp
  show "shrinks (decodeUint bits)" unfolding decodeUint_def
    by (rule shrinks_map [OF shrinks_wrap [OF shrinks_uint]]) simp
  have "shrinks s_Bool" unfolding s_Bool_def by (rule shrinks_map [OF shrinks_uint]) simp
  then show "shrinks decodeBool" unfolding decodeBool_def by (intro shrinks_map [OF shrinks_wrap]) simp_all
  show "shrinks decodeBigInt" unfolding decodeBigInt_def
    by (rule shrinks_map [OF shrinks_wrap [OF shrinks_Bytes]]) (simp add: wrapStreamError_def)
qed

lemma shrinks_byte_array: "k \<noteq> 1 \<Longrightarrow> shrinks (decodeByteArray k)"
  unfolding decodeByteArray_def
  by (rule shrinks_sbind_Kind)
     (auto simp: sbind_def wrapStreamError_def split: Kind.splits prod.splits sum.splits if_splits dest!: readFull_frame)

text \<open>A decoder that reads after \<open>List\<close> has consumed its tag, and the loops in particular, may consume nothing.
  \<open>N\<close> bounds the input the element decoders work on.\<close>

definition shrinks_from :: "nat \<Rightarrow> 'a dec \<Rightarrow> bool" where
  "shrinks_from N m \<longleftrightarrow>
     (\<forall>s t r. s_kind s = None \<longrightarrow> length (s_input s) < N \<longrightarrow> m s = (t, r) \<longrightarrow>
        length (s_input t) \<le> length (s_input s) \<and> r \<noteq> Inl DecFuel \<and>
        (\<forall>x. r = Inr x \<longrightarrow> length (s_input t) < length (s_input s) \<and> s_kind t = None))"

definition keeps_from :: "nat \<Rightarrow> 'a dec \<Rightarrow> bool" where
  "keeps_from N m \<longleftrightarrow>
     (\<forall>s t r. s_kind s = None \<longrightarrow> length (s_input s) < N \<longrightarrow> m s = (t, r) \<longrightarrow>
        length (s_input t) \<le> length (s_input s) \<and> r \<noteq> Inl DecFuel \<and> (\<forall>x. r = Inr x \<longrightarrow> s_kind t = None))"

lemma shrinks_fromD:
  assumes "shrinks_from N m" "s_kind s = None" "length (s_input s) < N" "m s = (t, r)"
  shows "length (s_input t) \<le> length (s_input s)" "r \<noteq> Inl DecFuel"
    "r = Inr x \<Longrightarrow> length (s_input t) < length (s_input s) \<and> s_kind t = None"
  using assms unfolding shrinks_from_def by blast+

lemma keeps_fromD:
  assumes "keeps_from N m" "s_kind s = None" "length (s_input s) < N" "m s = (t, r)"
  shows "length (s_input t) \<le> length (s_input s)" "r \<noteq> Inl DecFuel" "r = Inr x \<Longrightarrow> s_kind t = None"
  using assms unfolding keeps_from_def by blast+

lemma shrinks_shrinks_from: "shrinks m \<Longrightarrow> shrinks_from N m"
  unfolding shrinks_def shrinks_from_def by blast

lemma keeps_sbind:
  assumes "keeps_from N m" "\<And>x. keeps_from N (f x)" shows "keeps_from N (sbind m f)"
  unfolding keeps_from_def
proof (intro allI impI)
  fix s t r
  assume s: "s_kind s = None" "length (s_input s) < N" "sbind m f s = (t, r)"
  obtain s1 q where m: "m s = (s1, q)" by fastforce
  note a = keeps_fromD [OF assms(1) s(1,2) m]
  show "length (s_input t) \<le> length (s_input s) \<and> r \<noteq> Inl DecFuel \<and> (\<forall>x. r = Inr x \<longrightarrow> s_kind t = None)"
  proof (cases q)
    case (Inr x)
    with s(3) m have "f x s1 = (t, r)" by (simp add: sbind_def)
    from keeps_fromD [OF assms(2) _ _ this] a Inr s(2) show ?thesis by auto
  qed (use a s(3) m in \<open>auto simp: sbind_def\<close>)
qed

lemma shrinks_from_sbind:
  assumes "shrinks_from N m" "\<And>x. keeps_from N (f x)" shows "shrinks_from N (sbind m f)"
  unfolding shrinks_from_def
proof (intro allI impI)
  fix s t r
  assume s: "s_kind s = None" "length (s_input s) < N" "sbind m f s = (t, r)"
  obtain s1 q where m: "m s = (s1, q)" by fastforce
  note a = shrinks_fromD [OF assms(1) s(1,2) m]
  show "length (s_input t) \<le> length (s_input s) \<and> r \<noteq> Inl DecFuel \<and>
      (\<forall>x. r = Inr x \<longrightarrow> length (s_input t) < length (s_input s) \<and> s_kind t = None)"
  proof (cases q)
    case (Inr x)
    with s(3) m have "f x s1 = (t, r)" by (simp add: sbind_def)
    moreover have "s_kind s1 = None" "length (s_input s1) < length (s_input s)" using a(3) Inr by auto
    ultimately show ?thesis using keeps_fromD [OF assms(2), of s1 x t r] s(2) by auto
  qed (use a s(3) m in \<open>auto simp: sbind_def\<close>)
qed

lemma shrinks_from_keeps: "shrinks_from N m \<Longrightarrow> keeps_from N m"
  unfolding shrinks_from_def keeps_from_def by blast

lemma keeps_return [simp]: "keeps_from N (\<lambda>s. (s, Inr x))"
  by (simp add: keeps_from_def)

lemma keeps_ListEnd: "keeps_from N s_ListEnd" "keeps_from N (wrap s_ListEnd)"
  by (auto simp: keeps_from_def s_ListEnd_def wrap_def wrapStreamError_def split: list.splits if_splits)

lemma shrinks_on_EOL:
  assumes "shrinks_from N m" "e \<noteq> DecFuel" shows "shrinks_from N (on_EOL m e)"
  unfolding shrinks_from_def
proof (intro allI impI)
  fix s t r
  assume s: "s_kind s = None" "length (s_input s) < N" "on_EOL m e s = (t, r)"
  obtain s1 q where m: "m s = (s1, q)" by fastforce
  note f = shrinks_fromD [OF assms(1) s(1,2) m]
  show "length (s_input t) \<le> length (s_input s) \<and> r \<noteq> Inl DecFuel \<and>
        (\<forall>x. r = Inr x \<longrightarrow> length (s_input t) < length (s_input s) \<and> s_kind t = None)"
    using f s(3) m assms(2) by (cases q) (auto simp: on_EOL_def split: if_splits)
qed

lemma keeps_slice_elems:
  assumes "shrinks_from N m"
  shows "s_kind s = None \<Longrightarrow> length (s_input s) < N \<Longrightarrow> length (s_input s) < j \<Longrightarrow> decodeSliceElems j m s = (t, r) \<Longrightarrow>
    length (s_input t) \<le> length (s_input s) \<and> r \<noteq> Inl DecFuel"
proof (induction j arbitrary: s t r)
  case (Suc j)
  obtain s1 q where m: "m s = (s1, q)" by fastforce
  note a = shrinks_fromD [OF assms Suc.prems(1,2) m]
  show ?case
  proof (cases q)
    case (Inl e)
    with Suc.prems(4) m a show ?thesis by (auto split: if_splits)
  next
    case (Inr v)
    obtain t' r' where d: "decodeSliceElems j m s1 = (t', r')" by fastforce
    have s1: "s_kind s1 = None" "length (s_input s1) < length (s_input s)" using a(3) Inr by auto
    from Suc.IH [OF s1(1) _ _ d] s1 Suc.prems(2,3) have "length (s_input t') \<le> length (s_input s1)" "r' \<noteq> Inl DecFuel"
      by auto
    with Suc.prems(4) m Inr d s1 show ?thesis by (cases r') (auto simp: sbind_def)
  qed
qed simp

lemma keeps_then_ListEnd:
  assumes "\<And>s t r. s_kind s = None \<Longrightarrow> length (s_input s) < N \<Longrightarrow> m s = (t, r) \<Longrightarrow>
      length (s_input t) \<le> length (s_input s) \<and> r \<noteq> Inl DecFuel"
  shows "keeps_from N (sbind m (\<lambda>vs. sbind s_ListEnd (\<lambda>_ s. (s, Inr (g vs)))))"
  unfolding keeps_from_def
proof (intro allI impI)
  fix s t r
  assume s: "s_kind s = None" "length (s_input s) < N" "sbind m (\<lambda>vs. sbind s_ListEnd (\<lambda>_ s. (s, Inr (g vs)))) s = (t, r)"
  obtain s1 q where m: "m s = (s1, q)" by fastforce
  from assms [OF s(1,2) m] s(3) m
  show "length (s_input t) \<le> length (s_input s) \<and> r \<noteq> Inl DecFuel \<and> (\<forall>x. r = Inr x \<longrightarrow> s_kind t = None)"
    by (cases q) (auto simp: sbind_def s_ListEnd_def split: list.splits if_splits)
qed

lemma keeps_array_elems: "shrinks_from N m \<Longrightarrow> keeps_from N (decodeArrayElems k m)"
proof (induction k)
  case (Suc k)
  have "decodeArrayElems (Suc k) m = sbind (on_EOL m (DecodeErr ''input list has too few elements''))
       (\<lambda>v. sbind (decodeArrayElems k m) (\<lambda>vs s. (s, Inr (v # vs))))"
    by (simp add: fun_eq_iff)
  with Suc show ?case
    by (simp add: keeps_sbind shrinks_from_keeps shrinks_on_EOL)
next
  case 0
  have "decodeArrayElems 0 m = (\<lambda>s. (s, Inr []))" by (simp add: fun_eq_iff)
  then show ?case by simp
qed

lemma keeps_fields: "(\<And>t. t \<in> set ts \<Longrightarrow> shrinks_from N (makeDecoder N t)) \<Longrightarrow> keeps_from N (struct_fields N ts)"
  by (induction ts) (simp_all add: keeps_sbind shrinks_from_keeps shrinks_on_EOL)

lemma shrinks_List_from: "shrinks_from N (wrap s_List)"
  by (intro shrinks_shrinks_from shrinks_wrap shrinks_List)

lemma makeDecoder_shrinks: "no_byte_array1 t \<Longrightarrow> shrinks_from N (makeDecoder N t)"
proof (induction t)
  case (TSlice t)
  then have "shrinks_from N (makeDecoder N t)" by simp
  then have "keeps_from N (sbind (decodeSliceElems N (makeDecoder N t)) (\<lambda>vs. sbind s_ListEnd (\<lambda>_ s. (s, Inr (RList vs)))))"
    by (intro keeps_then_ListEnd keeps_slice_elems)
  moreover have "keeps_from N (sbind s_ListEnd (\<lambda>_ s. (s, Inr (RList []))))"
    by (intro keeps_sbind keeps_ListEnd keeps_return)
  ultimately show ?case
    unfolding makeDecoder.simps decodeListSlice_def by (intro shrinks_from_sbind shrinks_List_from) simp
next
  case (TArray k t)
  then show ?case unfolding makeDecoder.simps decodeListArray_def
    by (intro shrinks_from_sbind shrinks_List_from keeps_sbind keeps_array_elems keeps_ListEnd keeps_return) simp
next
  case (TStruct ts)
  then show ?case unfolding makeDecoder.simps
    by (intro shrinks_from_sbind shrinks_List_from keeps_sbind keeps_fields keeps_ListEnd keeps_return)
       (simp add: list_all_iff)
qed (simp_all add: shrinks_shrinks_from shrinks_base shrinks_byte_array)

section \<open>Results\<close>





text \<open>C15: splitting an encoding off the front of a buffer returns its content and the rest: the bytes of a
  string, the encoded elements of a list, of which \<open>CountValues\<close> finds as many as the list has.\<close>

theorem rlp_split_encode:
  assumes "length (rlp_enc (RBytes b) @ rest) < 2 ^ 64" "length (rlp_enc (RList vs) @ rest) < 2 ^ 64"
  shows "SplitString (rlp_enc (RBytes b) @ rest) = ROk (b, rest) \<and>
    SplitList (rlp_enc (RList vs) @ rest) = ROk (enc_all vs, rest) \<and> CountValues (enc_all vs) = ROk (length vs)"
proof (intro conjI)
  from Split_string [of b rest] assms(1) show "SplitString (rlp_enc (RBytes b) @ rest) = ROk (b, rest)"
    by (auto simp: SplitString_def)
  from Split_list [OF assms(2)] show "SplitList (rlp_enc (RList vs) @ rest) = ROk (enc_all vs, rest)"
    by (simp add: SplitList_def del: rlp_enc.simps)
  have "length (enc_all vs) < 2 ^ 64" using assms(2) by (simp add: Let_def del: length_concat)
  then show "CountValues (enc_all vs) = ROk (length vs)"
    using CountValues_loop_enc [of vs "length (enc_all vs)" 0] by (simp add: CountValues_def)
qed

theorem rlp_split_encode_witness:
  "SplitString ([0x82, 4, 0] @ [9]) = ROk ([4, 0], [9]) \<and> SplitList ([0xC2, 5, 6] @ [9]) = ROk ([5, 6], [9]) \<and>
   CountValues [5, 6] = ROk 2"
  using rlp_split_encode [of "[4, 0]" "[9]" "[RBytes [5], RBytes [6]]"] by (simp add: enc_string_def rlp_head_def)

text \<open>C16: decoding returns on every input, valid or not: for a type without one-byte arrays the loops over list
  elements end after at most as many passes as there are input bytes.\<close>

theorem rlp_decode_returns:
  assumes "no_byte_array1 t" shows "DecodeBytes t b \<noteq> Inl DecFuel"
proof -
  obtain s r where m: "makeDecoder (length b + 1) t (NewStream b (of_nat (length b))) = (s, r)" by fastforce
  have "r \<noteq> Inl DecFuel"
    by (rule shrinks_fromD(2) [OF makeDecoder_shrinks [OF assms] _ _ m]) (simp_all add: NewStream_def)
  then show ?thesis unfolding DecodeBytes_def m by (cases r) simp_all
qed

theorem rlp_decode_returns_witness: "DecodeBytes (TSlice (TUint 8)) [0xC2, 0x81] \<noteq> Inl DecFuel"
  by (rule rlp_decode_returns) simp

text \<open>A pending single byte zero is never consumed by the decoder of a one-byte array.\<close>

lemma decode_zero_byte_array:
  assumes "s_kind s = Some Byte" "s_byteval s = 0" "s_kinderr s = None"
  shows "decodeByteArray 1 s = (s, Inr (RBytes [0]))"
  using assms by (simp add: decodeByteArray_def sbind_def s_Kind_def s_Uint_def s_uint_def)

lemma slice_zero_byte_array:
  "s_kind s = Some Byte \<Longrightarrow> s_byteval s = 0 \<Longrightarrow> s_kinderr s = None \<Longrightarrow>
   \<exists>t. decodeSliceElems n (decodeByteArray 1) s = (t, Inl DecFuel)"
proof (induction n)
  case (Suc n)
  with decode_zero_byte_array [of s] show ?case by (auto simp: sbind_def)
qed simp

text \<open>C17: decoding the two bytes \<open>c1 00\<close> into a slice of one-byte arrays does not return: however many passes
  the loop is given, it uses them all up, because the byte zero stays pending after each element.\<close>

theorem rlp_zero_byte_array_loops:
  "snd (makeDecoder n (TSlice (TByteArray 1)) (NewStream [0xC1, 0] 2)) = Inl DecFuel"
proof -
  let ?s = "\<lparr>s_input = [0], s_remaining = 1, s_limited = True, s_kind = None, s_size = 0, s_byteval = 0,
     s_kinderr = None, s_stack = [(0, 1)]\<rparr>"
  let ?t = "\<lparr>s_input = [], s_remaining = 0, s_limited = True, s_kind = Some Byte, s_size = 0, s_byteval = 0,
     s_kinderr = None, s_stack = [(1, 1)]\<rparr>"
  have l: "s_List (NewStream [0xC1, 0] 2) = (?s, Inr 1)"
    by (simp add: NewStream_def s_List_def s_Kind_def s_readKind_def readByte_def willRead_def sbind_def Let_def)
  have e: "decodeByteArray 1 ?s = (?t, Inr (RBytes [0]))"
    by (simp add: decodeByteArray_def s_Uint_def s_uint_def s_Kind_def s_readKind_def readByte_def willRead_def
        sbind_def Let_def)
  have "\<exists>u. decodeSliceElems n (decodeByteArray 1) ?s = (u, Inl DecFuel)"
  proof (cases n)
    case (Suc k)
    with e slice_zero_byte_array [of ?t k] show ?thesis by (auto simp: sbind_def)
  qed simp
  with l show ?thesis by (auto simp: decodeListSlice_def sbind_def wrap_def)
qed


end
