(* ===== verification/Trie_Node.thy ===== *)
theory Trie_Node
  imports Rlp_Spec
begin

text \<open>
  Nodes of the Merkle Patricia trie: \<open>common/trie\<close> (encoding.go, node.go, hasher.go).  Keys are byte
  slices with one nibble per byte and the terminator 16.  The Go value \<open>nil\<close> is \<open>NilNode\<close>, a panic is
  \<open>TPanic\<close>; the Keccak function is a parameter.
\<close>

section \<open>encoding.go\<close>

definition hasTerm :: "bytes \<Rightarrow> bool" where
  "hasTerm s \<longleftrightarrow> length s > 0 \<and> s ! (length s - 1) = 16"

text \<open>\<open>decodeNibbles\<close> with a target of sufficient length; an odd number of nibbles is an index out of range,
  which its callers exclude.\<close>

fun decodeNibbles :: "bytes \<Rightarrow> bytes" where
  "decodeNibbles (a # b # ns) = (push_bit 4 a OR b) # decodeNibbles ns"
| "decodeNibbles _ = []"

definition hexToCompact :: "bytes \<Rightarrow> bytes" where
  "hexToCompact hex0 =
     (let terminator = (if hasTerm hex0 then 1 else 0 :: byte);
          hex = (if hasTerm hex0 then take (length hex0 - 1) hex0 else hex0);
          flag = push_bit 5 terminator
      in if odd (length hex) then (flag OR push_bit 4 1 OR hex ! 0) # decodeNibbles (drop 1 hex)
         else flag # decodeNibbles hex)"

definition keybytesToHex :: "bytes \<Rightarrow> bytes" where
  "keybytesToHex str = concat (map (\<lambda>b. [b div 16, b mod 16]) str) @ [16]"

text \<open>\<open>base[0]\<close> is an index out of range for an empty input: \<open>None\<close>.\<close>

definition compactToHex :: "bytes \<Rightarrow> bytes option" where
  "compactToHex compact =
     (let full = keybytesToHex compact; base = take (length full - 1) full in
      if base = [] then None
      else (let base' = (if base ! 0 \<ge> 2 then base @ [16] else base);
                chop = 2 - (base ! 0 AND 1)
            in Some (drop (unat chop) base')))"

definition hexToKeybytes :: "bytes \<Rightarrow> bytes option" where
  "hexToKeybytes hex0 =
     (let hex = (if hasTerm hex0 then take (length hex0 - 1) hex0 else hex0) in
      if odd (length hex) then None else Some (decodeNibbles hex))"

fun prefixLen :: "bytes \<Rightarrow> bytes \<Rightarrow> nat" where
  "prefixLen (a # as) (b # bs) = (if a \<noteq> b then 0 else Suc (prefixLen as bs))"
| "prefixLen _ _ = 0"

section \<open>node.go\<close>

record nodeFlag =
  fl_hash :: "bytes option"
  fl_gen :: "16 word"
  fl_dirty :: bool

datatype node =
    NilNode
  | FullNode "node list" nodeFlag
  | ShortNode bytes node nodeFlag
  | HashNode bytes
  | ValueNode bytes

datatype trie_error = MissingNodeError bytes bytes | NodeDecodeError | PutError

datatype 'a tres = TOk 'a | TErr trie_error | TPanic | TFuel

fun tbind :: "'a tres \<Rightarrow> ('a \<Rightarrow> 'b tres) \<Rightarrow> 'b tres" where
  "tbind (TOk x) f = f x"
| "tbind (TErr e) f = TErr e"
| "tbind TPanic f = TPanic"
| "tbind TFuel f = TFuel"

definition of_rlp :: "'a rlp_res \<Rightarrow> 'a tres" where
  "of_rlp r = (case r of RPanic \<Rightarrow> TPanic | RErr e \<Rightarrow> TErr NodeDecodeError | ROk x \<Rightarrow> TOk x)"

fun cache :: "node \<Rightarrow> bytes option \<times> bool" where
  "cache (FullNode cs f) = (fl_hash f, fl_dirty f)"
| "cache (ShortNode k v f) = (fl_hash f, fl_dirty f)"
| "cache n = (None, True)"

definition flag_canUnload :: "nodeFlag \<Rightarrow> 16 word \<Rightarrow> 16 word \<Rightarrow> bool" where
  "flag_canUnload f cachegen cachelimit \<longleftrightarrow> \<not> fl_dirty f \<and> cachegen - fl_gen f \<ge> cachelimit"

fun canUnload :: "node \<Rightarrow> 16 word \<Rightarrow> 16 word \<Rightarrow> bool" where
  "canUnload (FullNode cs f) gen limit = flag_canUnload f gen limit"
| "canUnload (ShortNode k v f) gen limit = flag_canUnload f gen limit"
| "canUnload n gen limit = False"

text \<open>\<open>decodeNode\<close> and \<open>decodeRef\<close> call each other for nodes embedded in their parent; \<open>n\<close> bounds the nesting.\<close>

definition decodeRef_with ::
    "(bytes \<Rightarrow> node tres) \<Rightarrow> bytes \<Rightarrow> (node \<times> bytes) tres" where
  "decodeRef_with dec buf =
     tbind (of_rlp (rlp_Split buf)) (\<lambda>(kind, val, rest).
       if kind = List then
         (if length buf - length rest > 32 then TErr NodeDecodeError
          else tbind (dec buf) (\<lambda>n. TOk (n, rest)))
       else if kind = String \<and> length val = 0 then TOk (NilNode, rest)
       else if kind = String \<and> length val = 32 then TOk (HashNode val, rest)
       else TErr NodeDecodeError)"

definition decodeShort_with ::
    "(bytes \<Rightarrow> node tres) \<Rightarrow> bytes option \<Rightarrow> bytes \<Rightarrow> 16 word \<Rightarrow> node tres" where
  "decodeShort_with dec hash elems cachegen =
     tbind (of_rlp (SplitString elems)) (\<lambda>(kbuf, rest).
       let flag = \<lparr>fl_hash = hash, fl_gen = cachegen, fl_dirty = False\<rparr> in
       case compactToHex kbuf of
         None \<Rightarrow> TPanic
       | Some key \<Rightarrow>
           if hasTerm key
           then tbind (of_rlp (SplitString rest)) (\<lambda>(val, _). TOk (ShortNode key (ValueNode val) flag))
           else tbind (decodeRef_with dec rest) (\<lambda>(r, _). TOk (ShortNode key r flag)))"

fun decodeFull_loop ::
    "(bytes \<Rightarrow> node tres) \<Rightarrow> nat \<Rightarrow> bytes \<Rightarrow> (node list \<times> bytes) tres" where
  "decodeFull_loop dec 0 elems = TOk ([], elems)"
| "decodeFull_loop dec (Suc k) elems =
     tbind (decodeRef_with dec elems) (\<lambda>(cld, rest).
       tbind (decodeFull_loop dec k rest) (\<lambda>(cs, rest'). TOk (cld # cs, rest')))"

definition decodeFull_with ::
    "(bytes \<Rightarrow> node tres) \<Rightarrow> bytes option \<Rightarrow> bytes \<Rightarrow> 16 word \<Rightarrow> node tres" where
  "decodeFull_with dec hash elems cachegen =
     tbind (decodeFull_loop dec 16 elems) (\<lambda>(cs, rest).
       tbind (of_rlp (SplitString rest)) (\<lambda>(val, _).
         TOk (FullNode (cs @ [if length val > 0 then ValueNode val else NilNode])
                \<lparr>fl_hash = hash, fl_gen = cachegen, fl_dirty = False\<rparr>)))"

fun decode_node :: "nat \<Rightarrow> bytes option \<Rightarrow> bytes \<Rightarrow> 16 word \<Rightarrow> node tres" where
  "decode_node 0 hash buf cachegen = TFuel"
| "decode_node (Suc n) hash buf cachegen =
     (if length buf = 0 then TErr NodeDecodeError
      else tbind (of_rlp (SplitList buf)) (\<lambda>(elems, _).
        let dec = (\<lambda>b. decode_node n None b cachegen) in
        case CountValues elems of
          RPanic \<Rightarrow> TPanic
        | RErr e \<Rightarrow> TErr NodeDecodeError
        | ROk c \<Rightarrow>
            if c = 2 then decodeShort_with dec hash elems cachegen
            else if c = 17 then decodeFull_with dec hash elems cachegen
            else TErr NodeDecodeError))"

definition decodeNode :: "bytes option \<Rightarrow> bytes \<Rightarrow> 16 word \<Rightarrow> node tres" where
  "decodeNode hash buf cachegen = decode_node (length buf + 1) hash buf cachegen"

definition mustDecodeNode :: "bytes option \<Rightarrow> bytes \<Rightarrow> 16 word \<Rightarrow> node tres" where
  "mustDecodeNode hash buf cachegen =
     (case decodeNode hash buf cachegen of TErr e \<Rightarrow> TPanic | r \<Rightarrow> r)"

section \<open>hasher.go\<close>

text \<open>What \<open>rlp.Encode\<close> writes for a node: a short node is a struct of two fields, a full node the array of its
  children, hash and value nodes are byte strings and a nil interface is an empty list.\<close>

fun node_val :: "node \<Rightarrow> rlp_val" where
  "node_val NilNode = RList []"
| "node_val (FullNode cs f) = RList (map node_val cs)"
| "node_val (ShortNode k v f) = RList [RBytes k, node_val v]"
| "node_val (HashNode h) = RBytes h"
| "node_val (ValueNode v) = RBytes v"

type_synonym node_db = "bytes \<Rightarrow> bytes option"

text \<open>The backing store is an interface: \<open>db_put\<close> stands for its \<open>Put\<close>, with \<open>None\<close> for a returned error.\<close>

type_synonym db_put = "node_db \<Rightarrow> bytes \<Rightarrow> bytes \<Rightarrow> node_db option"

text \<open>The hasher: the Keccak function, the writer and the two cache parameters.  The database is \<open>None\<close> when the
  caller only wants the hash.\<close>

record hasher =
  ha_sha :: "bytes \<Rightarrow> bytes"
  ha_put :: db_put
  ha_cachegen :: "16 word"
  ha_cachelimit :: "16 word"

definition store :: "hasher \<Rightarrow> node \<Rightarrow> node_db option \<Rightarrow> bool \<Rightarrow> (node \<times> node_db option) tres" where
  "store h n db force =
     (case n of
        NilNode \<Rightarrow> TOk (n, db)
      | HashNode _ \<Rightarrow> TOk (n, db)
      | _ \<Rightarrow>
          (case EncodeToBytes (node_val n) of
             None \<Rightarrow> TPanic
           | Some tmp \<Rightarrow>
               if length tmp < 32 \<and> \<not> force then TOk (n, db)
               else (let hash = (case fst (cache n) of None \<Rightarrow> ha_sha h tmp | Some x \<Rightarrow> x)
                     in case db of
                          None \<Rightarrow> TOk (HashNode hash, None)
                        | Some d \<Rightarrow>
                            (case ha_put h d hash tmp of
                               None \<Rightarrow> TErr PutError
                             | Some d' \<Rightarrow> TOk (HashNode hash, Some d')))))"

fun set_cache :: "bytes option \<Rightarrow> bool \<Rightarrow> node \<Rightarrow> node" where
  "set_cache hsh clean (ShortNode k v f) =
     ShortNode k v (f\<lparr>fl_hash := hsh, fl_dirty := (if clean then False else fl_dirty f)\<rparr>)"
| "set_cache hsh clean (FullNode cs f) =
     FullNode cs (f\<lparr>fl_hash := hsh, fl_dirty := (if clean then False else fl_dirty f)\<rparr>)"
| "set_cache hsh clean n = n"

definition is_value :: "node \<Rightarrow> bool" where
  "is_value n \<longleftrightarrow> (case n of ValueNode _ \<Rightarrow> True | _ \<Rightarrow> False)"

text \<open>The early exits of \<open>hash\<close>: the cached hash is used when nothing has to be written.\<close>

definition use_cache :: "hasher \<Rightarrow> node \<Rightarrow> node_db option \<Rightarrow> (node \<times> node) option" where
  "use_cache h n db =
     (case cache n of
        (None, dirty) \<Rightarrow> None
      | (Some hsh, dirty) \<Rightarrow>
          if db = None then Some (HashNode hsh, n)
          else if canUnload n (ha_cachegen h) (ha_cachelimit h) then Some (HashNode hsh, HashNode hsh)
          else if \<not> dirty then Some (HashNode hsh, n)
          else None)"

definition finish_hash ::
    "hasher \<Rightarrow> node \<Rightarrow> node \<Rightarrow> node_db option \<Rightarrow> bool \<Rightarrow> (node \<times> node \<times> node_db option) tres" where
  "finish_hash h collapsed cached db force =
     tbind (store h collapsed db force) (\<lambda>(hashed, db').
       TOk (hashed, set_cache (case hashed of HashNode x \<Rightarrow> Some x | _ \<Rightarrow> None) (db \<noteq> None) cached, db'))"

text \<open>\<open>hash\<close> with the cases of \<open>hashChildren\<close> in line; \<open>hash\<close> of a nil interface is a nil dereference.  The loop over the
  children starts at index 0, and child 16, a value or nil, is kept as it is.  After an error the contents of the
  database are not described.\<close>

fun node_hash :: "hasher \<Rightarrow> node \<Rightarrow> node_db option \<Rightarrow> bool \<Rightarrow> (node \<times> node \<times> node_db option) tres"
and hash_list :: "hasher \<Rightarrow> nat \<Rightarrow> node list \<Rightarrow> node_db option \<Rightarrow> (node list \<times> node list \<times> node_db option) tres" where
  "node_hash h NilNode db force = TPanic"
| "node_hash h (HashNode x) db force = finish_hash h (HashNode x) (HashNode x) db force"
| "node_hash h (ValueNode v) db force = finish_hash h (ValueNode v) (ValueNode v) db force"
| "node_hash h (ShortNode k v f) db force =
     (case use_cache h (ShortNode k v f) db of
        Some (hsh, n) \<Rightarrow> TOk (hsh, n, db)
      | None \<Rightarrow>
          if is_value v then finish_hash h (ShortNode (hexToCompact k) v f) (ShortNode k v f) db force
          else tbind (node_hash h v db False) (\<lambda>(cv, kv, db1).
                 finish_hash h (ShortNode (hexToCompact k) cv f) (ShortNode k kv f) db1 force))"
| "node_hash h (FullNode cs f) db force =
     (case use_cache h (FullNode cs f) db of
        Some (hsh, n) \<Rightarrow> TOk (hsh, n, db)
      | None \<Rightarrow>
          tbind (hash_list h 0 cs db) (\<lambda>(ccs, kcs, db1).
            finish_hash h (FullNode ccs f) (FullNode kcs f) db1 force))"
| "hash_list h i [] db = TOk ([], [], db)"
| "hash_list h i (c # cs) db =
     tbind (if c = NilNode then TOk (ValueNode [], NilNode, db)
            else if i = 16 then TOk (c, c, db)
            else node_hash h c db False) (\<lambda>(cc, kc, db1).
       tbind (hash_list h (Suc i) cs db1) (\<lambda>(ccs, kcs, db2). TOk (cc # ccs, kc # kcs, db2)))"

text \<open>\<open>hashChildren\<close> as \<open>Prove\<close> calls it: the collapsed node alone.\<close>

fun hashChildren :: "hasher \<Rightarrow> node \<Rightarrow> node_db option \<Rightarrow> (node \<times> node_db option) tres" where
  "hashChildren h (ShortNode k v f) db =
     (if is_value v then TOk (ShortNode (hexToCompact k) v f, db)
      else tbind (node_hash h v db False) (\<lambda>(cv, kv, db1). TOk (ShortNode (hexToCompact k) cv f, db1)))"
| "hashChildren h (FullNode cs f) db =
     tbind (hash_list h 0 cs db) (\<lambda>(ccs, kcs, db1). TOk (FullNode ccs f, db1))"
| "hashChildren h n db = TOk (n, db)"

end
