(* ===== verification/Trie.thy ===== *)
theory Trie
  imports Trie_Node
begin

text \<open>
  The operations of the Merkle Patricia trie (\<open>common/trie/trie.go\<close>, proof.go) and of the secure trie on
  top of it.  Nodes that are not loaded are hash nodes and are read from the database through
  \<open>resolveHash\<close>.  The recursive operations carry a counter that bounds their depth.
\<close>

record Trie =
  tr_root :: node
  tr_cachegen :: "16 word"
  tr_cachelimit :: "16 word"

definition newFlag :: "16 word \<Rightarrow> nodeFlag" where
  "newFlag gen = \<lparr>fl_hash = None, fl_gen = gen, fl_dirty = True\<rparr>"

definition resolveHash :: "node_db \<Rightarrow> 16 word \<Rightarrow> bytes \<Rightarrow> bytes \<Rightarrow> node tres" where
  "resolveHash db gen n prefix =
     (case db n of
        None \<Rightarrow> TErr (MissingNodeError n prefix)
      | Some enc \<Rightarrow> mustDecodeNode (Some n) enc gen)"

definition resolve :: "node_db \<Rightarrow> 16 word \<Rightarrow> node \<Rightarrow> bytes \<Rightarrow> node tres" where
  "resolve db gen n prefix = (case n of HashNode h \<Rightarrow> resolveHash db gen h prefix | _ \<Rightarrow> TOk n)"

text \<open>\<open>n.Children[i]\<close> for a nibble: an index above 16 panics.\<close>

definition child :: "node list \<Rightarrow> byte \<Rightarrow> node tres" where
  "child cs i = (if unat i < length cs then TOk (cs ! unat i) else TPanic)"

definition set_child :: "node list \<Rightarrow> byte \<Rightarrow> node \<Rightarrow> node list tres" where
  "set_child cs i n = (if unat i < length cs then TOk (cs[unat i := n]) else TPanic)"

text \<open>\<open>tryGet\<close> returns the value, the node with what was resolved on the way, and whether anything was.\<close>

fun tryGet ::
    "node_db \<Rightarrow> 16 word \<Rightarrow> nat \<Rightarrow> node \<Rightarrow> bytes \<Rightarrow> nat \<Rightarrow> (bytes option \<times> node \<times> bool) tres" where
  "tryGet db gen 0 orig key pos = TFuel"
| "tryGet db gen (Suc m) orig key pos =
     (case orig of
        NilNode \<Rightarrow> TOk (None, NilNode, False)
      | ValueNode v \<Rightarrow> TOk (Some v, orig, False)
      | ShortNode k c f \<Rightarrow>
          if length key - pos < length k \<or> k \<noteq> subslice key pos (pos + length k)
          then TOk (None, orig, False)
          else tbind (tryGet db gen m c key (pos + length k)) (\<lambda>(value, newnode, did).
                 TOk (value, if did then ShortNode k newnode (f\<lparr>fl_gen := gen\<rparr>) else orig, did))
      | FullNode cs f \<Rightarrow>
          if pos \<ge> length key then TPanic
          else tbind (child cs (key ! pos)) (\<lambda>c.
                 tbind (tryGet db gen m c key (pos + 1)) (\<lambda>(value, newnode, did).
                   if did then tbind (set_child cs (key ! pos) newnode)
                                 (\<lambda>cs'. TOk (value, FullNode cs' (f\<lparr>fl_gen := gen\<rparr>), did))
                   else TOk (value, orig, did)))
      | HashNode h \<Rightarrow>
          tbind (resolveHash db gen h (take pos key)) (\<lambda>c.
            tbind (tryGet db gen m c key pos) (\<lambda>(value, newnode, _). TOk (value, newnode, True))))"

text \<open>\<open>insert\<close>: whether something changed, and the new node.\<close>

fun t_insert ::
    "node_db \<Rightarrow> 16 word \<Rightarrow> nat \<Rightarrow> node \<Rightarrow> bytes \<Rightarrow> bytes \<Rightarrow> node \<Rightarrow> (bool \<times> node) tres" where
  "t_insert db gen 0 n prefix key val = TFuel"
| "t_insert db gen (Suc m) n prefix key val =
     (if key = [] then
        (case n of
           ValueNode v \<Rightarrow> (case val of ValueNode w \<Rightarrow> TOk (v \<noteq> w, val) | _ \<Rightarrow> TPanic)
         | _ \<Rightarrow> TOk (True, val))
      else
        (case n of
           ShortNode k c f \<Rightarrow>
             (let matchlen = prefixLen key k in
              if matchlen = length k then
                tbind (t_insert db gen m c (prefix @ take matchlen key) (drop matchlen key) val)
                  (\<lambda>(dirty, nn). if \<not> dirty then TOk (False, n) else TOk (True, ShortNode k nn (newFlag gen)))
              else
                tbind (t_insert db gen m NilNode (prefix @ take (matchlen + 1) k) (drop (matchlen + 1) k) c)
                  (\<lambda>(_, n1). tbind (set_child (replicate 17 NilNode) (k ! matchlen) n1) (\<lambda>cs1.
                     if matchlen \<ge> length key then TPanic
                     else tbind (t_insert db gen m NilNode (prefix @ take (matchlen + 1) key)
                                   (drop (matchlen + 1) key) val) (\<lambda>(_, n2).
                       tbind (set_child cs1 (key ! matchlen) n2) (\<lambda>cs2.
                         let branch = FullNode cs2 (newFlag gen) in
                         if matchlen = 0 then TOk (True, branch)
                         else TOk (True, ShortNode (take matchlen key) branch (newFlag gen)))))))
         | FullNode cs f \<Rightarrow>
             tbind (child cs (key ! 0)) (\<lambda>c.
               tbind (t_insert db gen m c (prefix @ [key ! 0]) (drop 1 key) val) (\<lambda>(dirty, nn).
                 if \<not> dirty then TOk (False, n)
                 else tbind (set_child cs (key ! 0) nn) (\<lambda>cs'. TOk (True, FullNode cs' (newFlag gen)))))
         | NilNode \<Rightarrow> TOk (True, ShortNode key val (newFlag gen))
         | HashNode h \<Rightarrow>
             tbind (resolveHash db gen h prefix) (\<lambda>rn.
               tbind (t_insert db gen m rn prefix key val) (\<lambda>(dirty, nn).
                 if \<not> dirty then TOk (False, rn) else TOk (True, nn)))
         | ValueNode v \<Rightarrow> TPanic))"

text \<open>The scan for the children that are left: the position of the only one, \<open>-2\<close> for more, \<open>-1\<close> for none.\<close>

fun single_child :: "node list \<Rightarrow> int \<Rightarrow> int \<Rightarrow> int" where
  "single_child [] i pos = pos"
| "single_child (c # cs) i pos =
     (if c \<noteq> NilNode then (if pos = - 1 then single_child cs (i + 1) i else - 2)
      else single_child cs (i + 1) pos)"

fun t_delete ::
    "node_db \<Rightarrow> 16 word \<Rightarrow> nat \<Rightarrow> node \<Rightarrow> bytes \<Rightarrow> bytes \<Rightarrow> (bool \<times> node) tres" where
  "t_delete db gen 0 n prefix key = TFuel"
| "t_delete db gen (Suc m) n prefix key =
     (case n of
        ShortNode k c f \<Rightarrow>
          (let matchlen = prefixLen key k in
           if matchlen < length k then TOk (False, n)
           else if matchlen = length key then TOk (True, NilNode)
           else tbind (t_delete db gen m c (prefix @ take (length k) key) (drop (length k) key)) (\<lambda>(dirty, c').
                  if \<not> dirty then TOk (False, n)
                  else (case c' of
                          ShortNode k' v' f' \<Rightarrow> TOk (True, ShortNode (k @ k') v' (newFlag gen))
                        | _ \<Rightarrow> TOk (True, ShortNode k c' (newFlag gen)))))
      | FullNode cs f \<Rightarrow>
          if key = [] then TPanic
          else tbind (child cs (key ! 0)) (\<lambda>c.
            tbind (t_delete db gen m c (prefix @ [key ! 0]) (drop 1 key)) (\<lambda>(dirty, nn).
              if \<not> dirty then TOk (False, n)
              else tbind (set_child cs (key ! 0) nn) (\<lambda>cs'.
                let pos = single_child cs' 0 (- 1) in
                if pos \<ge> 0 then
                  (let one = TOk (True, ShortNode [of_int pos] (cs' ! nat pos) (newFlag gen)) in
                   if pos \<noteq> 16 then
                     tbind (resolve db gen (cs' ! nat pos) prefix) (\<lambda>cnode.
                       case cnode of
                         ShortNode ck cv cf \<Rightarrow> TOk (True, ShortNode (of_int pos # ck) cv (newFlag gen))
                       | _ \<Rightarrow> one)
                   else one)
                else TOk (True, FullNode cs' (newFlag gen)))))
      | ValueNode v \<Rightarrow> TOk (True, NilNode)
      | NilNode \<Rightarrow> TOk (False, NilNode)
      | HashNode h \<Rightarrow>
          tbind (resolveHash db gen h prefix) (\<lambda>rn.
            tbind (t_delete db gen m rn prefix key) (\<lambda>(dirty, nn).
              if \<not> dirty then TOk (False, rn) else TOk (True, nn))))"

text \<open>The exported operations.  The depth is bounded by the length of the hexadecimal key: between two
  steps along the key at most one node is resolved.\<close>

definition depth_bound :: "bytes \<Rightarrow> nat" where
  "depth_bound k = 2 * length k + 2"

definition TryGet :: "node_db \<Rightarrow> bytes \<Rightarrow> Trie \<Rightarrow> (bytes option \<times> Trie) tres" where
  "TryGet db key t =
     (let k = keybytesToHex key in
      tbind (tryGet db (tr_cachegen t) (depth_bound k) (tr_root t) k 0) (\<lambda>(value, newroot, did).
        TOk (value, if did then t\<lparr>tr_root := newroot\<rparr> else t)))"

definition TryDelete :: "node_db \<Rightarrow> bytes \<Rightarrow> Trie \<Rightarrow> Trie tres" where
  "TryDelete db key t =
     (let k = keybytesToHex key in
      tbind (t_delete db (tr_cachegen t) (depth_bound k) (tr_root t) [] k) (\<lambda>(_, n). TOk (t\<lparr>tr_root := n\<rparr>)))"

definition TryUpdate :: "node_db \<Rightarrow> bytes \<Rightarrow> bytes \<Rightarrow> Trie \<Rightarrow> Trie tres" where
  "TryUpdate db key val t =
     (let k = keybytesToHex key in
      if length val \<noteq> 0
      then tbind (t_insert db (tr_cachegen t) (depth_bound k) (tr_root t) [] k (ValueNode val))
             (\<lambda>(_, n). TOk (t\<lparr>tr_root := n\<rparr>))
      else tbind (t_delete db (tr_cachegen t) (depth_bound k) (tr_root t) [] k) (\<lambda>(_, n). TOk (t\<lparr>tr_root := n\<rparr>)))"

definition emptyRoot :: bytes where
  "emptyRoot = Hash_Bytes 0x56e81f171bcc55a6ff8345e692c0f86e5b48e01b996cadc001622fb5e363b421"

definition trie_New :: "bytes \<Rightarrow> node_db \<Rightarrow> Trie tres" where
  "trie_New root db =
     (if root \<noteq> replicate 32 0 \<and> root \<noteq> emptyRoot
      then tbind (resolveHash db 0 root []) (\<lambda>n. TOk \<lparr>tr_root = n, tr_cachegen = 0, tr_cachelimit = 0\<rparr>)
      else TOk \<lparr>tr_root = NilNode, tr_cachegen = 0, tr_cachelimit = 0\<rparr>)"

definition newHasher :: "(bytes \<Rightarrow> bytes) \<Rightarrow> db_put \<Rightarrow> 16 word \<Rightarrow> 16 word \<Rightarrow> hasher" where
  "newHasher sha put gen limit = \<lparr>ha_sha = sha, ha_put = put, ha_cachegen = gen, ha_cachelimit = limit\<rparr>"

definition hashRoot ::
    "(bytes \<Rightarrow> bytes) \<Rightarrow> db_put \<Rightarrow> Trie \<Rightarrow> node_db option \<Rightarrow> (node \<times> node \<times> node_db option) tres" where
  "hashRoot sha put t db =
     (if tr_root t = NilNode then TOk (HashNode emptyRoot, NilNode, db)
      else node_hash (newHasher sha put (tr_cachegen t) (tr_cachelimit t)) (tr_root t) db True)"

definition hash_bytes_of :: "node \<Rightarrow> bytes tres" where
  "hash_bytes_of n = (case n of HashNode h \<Rightarrow> TOk h | _ \<Rightarrow> TPanic)"

definition trie_Hash :: "(bytes \<Rightarrow> bytes) \<Rightarrow> Trie \<Rightarrow> (bytes \<times> Trie) tres" where
  "trie_Hash sha t =
     tbind (hashRoot sha (\<lambda>_ _ _. None) t None) (\<lambda>(hash, cached, _).
       tbind (hash_bytes_of hash) (\<lambda>h. TOk (h, t\<lparr>tr_root := cached\<rparr>)))"

definition CommitTo :: "(bytes \<Rightarrow> bytes) \<Rightarrow> db_put \<Rightarrow> node_db \<Rightarrow> Trie \<Rightarrow> (bytes \<times> Trie \<times> node_db) tres" where
  "CommitTo sha put db t =
     tbind (hashRoot sha put t (Some db)) (\<lambda>(hash, cached, db').
       tbind (hash_bytes_of hash) (\<lambda>h.
         TOk (h, t\<lparr>tr_root := cached, tr_cachegen := tr_cachegen t + 1\<rparr>, the db')))"

text \<open>The variants that log an error instead of returning it.\<close>

definition trie_Get :: "node_db \<Rightarrow> bytes \<Rightarrow> Trie \<Rightarrow> (bytes option \<times> Trie) tres" where
  "trie_Get db key t = (case TryGet db key t of TErr e \<Rightarrow> TOk (None, t) | r \<Rightarrow> r)"

definition trie_Update :: "node_db \<Rightarrow> bytes \<Rightarrow> bytes \<Rightarrow> Trie \<Rightarrow> Trie tres" where
  "trie_Update db key val t = (case TryUpdate db key val t of TErr e \<Rightarrow> TOk t | r \<Rightarrow> r)"

definition trie_Delete :: "node_db \<Rightarrow> bytes \<Rightarrow> Trie \<Rightarrow> Trie tres" where
  "trie_Delete db key t = (case TryDelete db key t of TErr e \<Rightarrow> TOk t | r \<Rightarrow> r)"

definition SetCacheLimit :: "16 word \<Rightarrow> Trie \<Rightarrow> Trie" where
  "SetCacheLimit l t = t\<lparr>tr_cachelimit := l\<rparr>"

section \<open>proof.go\<close>

text \<open>\<open>Prove\<close> collects the nodes on the path; a hash node on the path is replaced by the node it stands for.\<close>

fun prove_path :: "node_db \<Rightarrow> 16 word \<Rightarrow> nat \<Rightarrow> node \<Rightarrow> bytes \<Rightarrow> node list tres" where
  "prove_path db gen 0 tn key = TFuel"
| "prove_path db gen (Suc m) tn key =
     (if key = [] \<or> tn = NilNode then TOk []
      else case tn of
          ShortNode k c f \<Rightarrow>
            if length key < length k \<or> k \<noteq> take (length k) key then TOk [tn]
            else tbind (prove_path db gen m c (drop (length k) key)) (\<lambda>ns. TOk (tn # ns))
        | FullNode cs f \<Rightarrow>
            tbind (child cs (key ! 0)) (\<lambda>c. tbind (prove_path db gen m c (drop 1 key)) (\<lambda>ns. TOk (tn # ns)))
        | HashNode h \<Rightarrow> tbind (resolveHash db gen h []) (\<lambda>c. prove_path db gen m c key)
        | _ \<Rightarrow> TPanic)"

fun prove_encode :: "hasher \<Rightarrow> nat \<Rightarrow> node list \<Rightarrow> bytes list tres" where
  "prove_encode h i [] = TOk []"
| "prove_encode h i (n # ns) =
     tbind (hashChildren h n None) (\<lambda>(n', _).
       tbind (store h n' None False) (\<lambda>(hn, _).
         tbind (prove_encode h (Suc i) ns) (\<lambda>rest.
           if (case hn of HashNode _ \<Rightarrow> True | _ \<Rightarrow> False) \<or> i = 0
           then (case EncodeToBytes (node_val n') of None \<Rightarrow> TOk ([] # rest) | Some enc \<Rightarrow> TOk (enc # rest))
           else TOk rest)))"

definition Prove :: "(bytes \<Rightarrow> bytes) \<Rightarrow> node_db \<Rightarrow> bytes \<Rightarrow> Trie \<Rightarrow> bytes list tres" where
  "Prove sha db key t =
     (let k = keybytesToHex key in
      case prove_path db (tr_cachegen t) (depth_bound k) (tr_root t) k of
        TErr e \<Rightarrow> TOk []
      | TOk ns \<Rightarrow> prove_encode (newHasher sha (\<lambda>_ _ _. None) 0 0) 0 ns
      | TPanic \<Rightarrow> TPanic
      | TFuel \<Rightarrow> TFuel)"

function trie_get :: "node \<Rightarrow> bytes \<Rightarrow> (bytes option \<times> node) tres" where
  "trie_get (ShortNode k c f) key =
     (if length key < length k \<or> k \<noteq> take (length k) key then TOk (None, NilNode)
      else trie_get c (drop (length k) key))"
| "trie_get (FullNode cs f) key =
     (if key = [] \<or> \<not> unat (key ! 0) < length cs then TPanic
      else trie_get (cs ! unat (key ! 0)) (drop 1 key))"
| "trie_get (HashNode h) key = TOk (Some key, HashNode h)"
| "trie_get NilNode key = TOk (Some key, NilNode)"
| "trie_get (ValueNode v) key = TOk (None, ValueNode v)"
  by pat_completeness auto
termination
  by (relation "measure (size \<circ> fst)") (auto simp: less_Suc_eq_le intro!: size_list_estimation' [OF nth_mem])

datatype proof_error = BadProofHash nat | BadProofNode nat | KeyMismatch nat | AdditionalNodes | UnexpectedEnd

text \<open>\<open>VerifyProof\<close> from proof node \<open>i\<close> on.  A node that \<open>get\<close> leaves as short or full node falls through the switch; the
  loop goes on with the same key and hash.\<close>

fun verify_loop ::
    "(bytes \<Rightarrow> bytes) \<Rightarrow> nat \<Rightarrow> bytes list \<Rightarrow> bytes \<Rightarrow> bytes \<Rightarrow> (proof_error + bytes option) tres" where
  "verify_loop sha i [] key wantHash = TOk (Inl UnexpectedEnd)"
| "verify_loop sha i (buf # rest) key wantHash =
     (if sha buf \<noteq> wantHash then TOk (Inl (BadProofHash i))
      else case decodeNode (Some wantHash) buf 0 of
          TPanic \<Rightarrow> TPanic | TFuel \<Rightarrow> TFuel
        | TErr e \<Rightarrow> TOk (Inl (BadProofNode i))
        | TOk n \<Rightarrow>
            tbind (trie_get n key) (\<lambda>(keyrest, cld).
              case cld of
                NilNode \<Rightarrow> if rest \<noteq> [] then TOk (Inl (KeyMismatch i)) else TOk (Inr None)
              | HashNode h \<Rightarrow> verify_loop sha (i + 1) rest (case keyrest of None \<Rightarrow> [] | Some k \<Rightarrow> k) h
              | ValueNode v \<Rightarrow> if rest \<noteq> [] then TOk (Inl AdditionalNodes) else TOk (Inr (Some v))
              | _ \<Rightarrow> verify_loop sha (i + 1) rest key wantHash))"

definition VerifyProof ::
    "(bytes \<Rightarrow> bytes) \<Rightarrow> bytes \<Rightarrow> bytes \<Rightarrow> bytes list \<Rightarrow> (proof_error + bytes option) tres" where
  "VerifyProof sha rootHash key prf = verify_loop sha 0 prf (keybytesToHex key) rootHash"

section \<open>secure_trie.go\<close>

text \<open>\<open>sec_owned\<close> says that \<open>secKeyCacheOwner\<close> points to the trie itself; a copy does not own the map.\<close>

record SecureTrie =
  sec_trie :: Trie
  sec_cache :: "bytes \<rightharpoonup> bytes"
  sec_owned :: bool

definition secureKeyPrefix :: bytes where
  "secureKeyPrefix = [0x73, 0x65, 0x63, 0x75, 0x72, 0x65, 0x2d, 0x6b, 0x65, 0x79, 0x2d]"

definition secKey :: "bytes \<Rightarrow> bytes" where
  "secKey key = secureKeyPrefix @ key"

definition NewSecure :: "bytes \<Rightarrow> node_db \<Rightarrow> 16 word \<Rightarrow> SecureTrie tres" where
  "NewSecure root db cachelimit =
     tbind (trie_New root db) (\<lambda>t.
       TOk \<lparr>sec_trie = SetCacheLimit cachelimit t, sec_cache = Map.empty, sec_owned = False\<rparr>)"

definition getSecKeyCache :: "SecureTrie \<Rightarrow> SecureTrie" where
  "getSecKeyCache t = (if sec_owned t then t else t\<lparr>sec_owned := True, sec_cache := Map.empty\<rparr>)"

definition sec_TryGet :: "(bytes \<Rightarrow> bytes) \<Rightarrow> node_db \<Rightarrow> bytes \<Rightarrow> SecureTrie \<Rightarrow> (bytes option \<times> SecureTrie) tres" where
  "sec_TryGet sha db key t =
     tbind (TryGet db (sha key) (sec_trie t)) (\<lambda>(v, tr). TOk (v, t\<lparr>sec_trie := tr\<rparr>))"

definition sec_TryUpdate ::
    "(bytes \<Rightarrow> bytes) \<Rightarrow> node_db \<Rightarrow> bytes \<Rightarrow> bytes \<Rightarrow> SecureTrie \<Rightarrow> SecureTrie tres" where
  "sec_TryUpdate sha db key val t =
     tbind (TryUpdate db (sha key) val (sec_trie t)) (\<lambda>tr.
       let t1 = getSecKeyCache (t\<lparr>sec_trie := tr\<rparr>) in TOk (t1\<lparr>sec_cache := (sec_cache t1)(sha key \<mapsto> key)\<rparr>))"

text \<open>The entry of the key cache is removed even when the deletion fails.\<close>

definition sec_TryDelete ::
    "(bytes \<Rightarrow> bytes) \<Rightarrow> node_db \<Rightarrow> bytes \<Rightarrow> SecureTrie \<Rightarrow> (trie_error option \<times> SecureTrie) tres" where
  "sec_TryDelete sha db key t =
     (let t1 = getSecKeyCache t; t2 = t1\<lparr>sec_cache := (sec_cache t1)(sha key := None)\<rparr> in
      case TryDelete db (sha key) (sec_trie t2) of
        TOk tr \<Rightarrow> TOk (None, t2\<lparr>sec_trie := tr\<rparr>)
      | TErr e \<Rightarrow> TOk (Some e, t2)
      | TPanic \<Rightarrow> TPanic
      | TFuel \<Rightarrow> TFuel)"

definition sec_GetKey :: "node_db \<Rightarrow> bytes \<Rightarrow> SecureTrie \<Rightarrow> bytes option \<times> SecureTrie" where
  "sec_GetKey db shaKey t =
     (let t1 = getSecKeyCache t in
      (case sec_cache t1 shaKey of Some key \<Rightarrow> Some key | None \<Rightarrow> db (secKey shaKey), t1))"

definition sec_Copy :: "SecureTrie \<Rightarrow> SecureTrie" where
  "sec_Copy t = t\<lparr>sec_owned := False\<rparr>"

fun put_preimages :: "db_put \<Rightarrow> (bytes \<rightharpoonup> bytes) \<Rightarrow> bytes list \<Rightarrow> node_db \<Rightarrow> node_db option" where
  "put_preimages put m [] db = Some db"
| "put_preimages put m (hk # hks) db =
     (case put db (secKey hk) (the (m hk)) of None \<Rightarrow> None | Some db' \<Rightarrow> put_preimages put m hks db')"

text \<open>\<open>order\<close> lists the keys of the cache in the order in which the map is ranged over.\<close>

definition sec_CommitTo ::
    "(bytes \<Rightarrow> bytes) \<Rightarrow> db_put \<Rightarrow> bytes list \<Rightarrow> node_db \<Rightarrow> SecureTrie \<Rightarrow> (bytes \<times> SecureTrie \<times> node_db) tres" where
  "sec_CommitTo sha put order db t =
     (let t1 = getSecKeyCache t in
      case put_preimages put (sec_cache t1) order db of
        None \<Rightarrow> TErr PutError
      | Some db1 \<Rightarrow>
          tbind (CommitTo sha put db1 (sec_trie t1)) (\<lambda>(h, tr, db2).
            TOk (h, t1\<lparr>sec_trie := tr, sec_cache := Map.empty\<rparr>, db2)))"

end
