(* ===== verification/Trie_Map.thy ===== *)
theory Trie_Map
  imports Trie
begin

text \<open>
  What a Merkle Patricia trie means: tries without hashes and cache flags as finite maps from
  terminated nibble keys to values.  The invariant \<open>minimal\<close> is the minimal form that \<open>delete\<close> restores;
  insertion and deletion preserve it and act as map update, and a trie in minimal form is
  determined by its contents.
\<close>

section \<open>Keys\<close>

fun hexkey :: "bytes \<Rightarrow> bool" where
  "hexkey [] = False"
| "hexkey (x # xs) = ((x = 16 \<and> xs = []) \<or> (x < 16 \<and> hexkey xs))"

abbreviation nibbles :: "bytes \<Rightarrow> bool" where
  "nibbles p \<equiv> \<forall>x\<in>set p. x < 16"

lemma hexkey_append: "hexkey (p @ q) \<longleftrightarrow> (if q = [] then hexkey p else nibbles p \<and> hexkey q)"
  by (induction p) auto

lemma hexkey_not_Nil: "hexkey k \<Longrightarrow> k \<noteq> []"
  by auto

lemma hexkey_not_nibbles: "hexkey k \<Longrightarrow> \<not> nibbles k"
  by (induction k) auto

lemma hexkey_prefix_free: "hexkey k \<Longrightarrow> hexkey k' \<Longrightarrow> take (length k) k' = k \<Longrightarrow> k' = k"
proof -
  assume k: "hexkey k" "hexkey k'" "take (length k) k' = k"
  then have "hexkey (k @ drop (length k) k')"
    by (metis append_take_drop_id)
  then have "drop (length k) k' = []"
    using k(1) hexkey_not_nibbles by (auto simp: hexkey_append split: if_splits)
  then show "k' = k"
    using k(3) by (metis append_Nil2 append_take_drop_id)
qed

lemma hexkey_after: "nibbles p \<Longrightarrow> hexkey k \<Longrightarrow> take (length p) k = p \<Longrightarrow> hexkey (drop (length p) k)"
  by (metis append_take_drop_id hexkey_append hexkey_not_nibbles)

lemma hexkey_nth_le: "hexkey k \<Longrightarrow> x \<in> set k \<Longrightarrow> x \<le> 16"
  by (induction k) auto

lemma unat_nibble: "x < (16 :: byte) \<longleftrightarrow> unat x < 16"
  by (simp add: word_less_nat_alt)

lemma unat_index: "x \<le> (16 :: byte) \<Longrightarrow> unat x < 17"
  by (simp add: word_le_nat_alt)

lemma unat_byte_eq: "unat x = unat y \<longleftrightarrow> x = (y :: byte)"
  by (metis unsigned_word_eqI)

lemma prefixLen_le: "prefixLen a b \<le> length a \<and> prefixLen a b \<le> length b"
  by (induction a b rule: prefixLen.induct) auto

lemma prefixLen_take: "take (prefixLen a b) a = take (prefixLen a b) b"
  by (induction a b rule: prefixLen.induct) auto

lemma prefixLen_differ:
  "prefixLen a b < length a \<Longrightarrow> prefixLen a b < length b \<Longrightarrow> a ! prefixLen a b \<noteq> b ! prefixLen a b"
  by (induction a b rule: prefixLen.induct) auto

lemma prefixLen_full: "prefixLen a b = length b \<longleftrightarrow> take (length b) a = b"
  by (induction a b rule: prefixLen.induct) auto

section \<open>Tries without hashes\<close>

datatype ptrie = PNil | PVal bytes | PShort bytes ptrie | PFull "ptrie list"

inductive minimal :: "ptrie \<Rightarrow> bool" where
  leaf: "hexkey k \<Longrightarrow> v \<noteq> [] \<Longrightarrow> minimal (PShort k (PVal v))"
| ext: "nibbles k \<Longrightarrow> k \<noteq> [] \<Longrightarrow> minimal (PFull cs) \<Longrightarrow> minimal (PShort k (PFull cs))"
| full: "length cs = 17 \<Longrightarrow> (\<And>i. i < 16 \<Longrightarrow> cs ! i = PNil \<or> minimal (cs ! i)) \<Longrightarrow>
    cs ! 16 = PNil \<or> (\<exists>v. v \<noteq> [] \<and> cs ! 16 = PVal v) \<Longrightarrow>
    i < 17 \<Longrightarrow> j < 17 \<Longrightarrow> i \<noteq> j \<Longrightarrow> cs ! i \<noteq> PNil \<Longrightarrow> cs ! j \<noteq> PNil \<Longrightarrow> minimal (PFull cs)"

inductive_cases minimal_PNilE [elim!]: "minimal PNil"
inductive_cases minimal_PValE [elim!]: "minimal (PVal v)"
inductive_cases minimal_PShortE: "minimal (PShort k t)"
inductive_cases minimal_PFullE: "minimal (PFull cs)"

lemma minimal_short:
  assumes "minimal (PShort k c)"
  obtains (leaf) v where "hexkey k" "v \<noteq> []" "c = PVal v"
  | (ext) cs where "nibbles k" "k \<noteq> []" "c = PFull cs" "minimal (PFull cs)"
  using assms by (blast elim: minimal_PShortE)

lemma minimal_full:
  assumes "minimal (PFull cs)"
  obtains i j where "length cs = 17" "\<And>i. i < 16 \<Longrightarrow> cs ! i = PNil \<or> minimal (cs ! i)"
    "cs ! 16 = PNil \<or> (\<exists>v. v \<noteq> [] \<and> cs ! 16 = PVal v)"
    "i < 17" "j < 17" "i \<noteq> j" "cs ! i \<noteq> PNil" "cs ! j \<noteq> PNil"
  using assms by (blast elim: minimal_PFullE)

definition wf0 :: "ptrie \<Rightarrow> bool" where
  "wf0 N \<longleftrightarrow> N = PNil \<or> minimal N"

text \<open>A subtree together with the rest of a key that leads into it.\<close>

definition at_key :: "ptrie \<Rightarrow> bytes \<Rightarrow> bool" where
  "at_key N k \<longleftrightarrow> (k = [] \<and> (N = PNil \<or> (\<exists>v. v \<noteq> [] \<and> N = PVal v))) \<or> (hexkey k \<and> wf0 N)"

function pget :: "ptrie \<Rightarrow> bytes \<Rightarrow> bytes option" where
  "pget PNil key = None"
| "pget (PVal v) key = (if key = [] then Some v else None)"
| "pget (PShort k t) key = (if take (length k) key = k then pget t (drop (length k) key) else None)"
| "pget (PFull cs) key =
     (if key \<noteq> [] \<and> unat (key ! 0) < length cs then pget (cs ! unat (key ! 0)) (drop 1 key) else None)"
  by pat_completeness auto
termination
  by (relation "measure (size \<circ> fst)") (auto simp: less_Suc_eq_le intro!: size_list_estimation' [OF nth_mem])

definition pleaf :: "bytes \<Rightarrow> ptrie \<Rightarrow> ptrie" where
  "pleaf k v = (if k = [] then v else PShort k v)"

definition pext :: "bytes \<Rightarrow> ptrie \<Rightarrow> ptrie" where
  "pext k t = (if k = [] then t else PShort k t)"

definition pbranch :: "bytes \<Rightarrow> ptrie \<Rightarrow> bytes \<Rightarrow> ptrie \<Rightarrow> ptrie" where
  "pbranch k c key val =
     (let m = prefixLen key k in
      pext (take m key) (PFull ((replicate 17 PNil)
        [unat (k ! m) := pleaf (drop (m + 1) k) c, unat (key ! m) := pleaf (drop (m + 1) key) val])))"

function pinsert :: "ptrie \<Rightarrow> bytes \<Rightarrow> ptrie \<Rightarrow> ptrie" where
  "pinsert PNil key val = pleaf key val"
| "pinsert (PVal v) key val = val"
| "pinsert (PShort k c) key val =
     (if key = [] then val
      else if take (length k) key = k then PShort k (pinsert c (drop (length k) key) val)
      else pbranch k c key val)"
| "pinsert (PFull cs) key val =
     (if key = [] then val
      else if unat (key ! 0) < length cs
           then PFull (cs[unat (key ! 0) := pinsert (cs ! unat (key ! 0)) (drop 1 key) val])
           else PFull cs)"
  by pat_completeness auto
termination
  by (relation "measure (size \<circ> fst)") (auto simp: less_Suc_eq_le intro!: size_list_estimation' [OF nth_mem])

fun pjoin :: "bytes \<Rightarrow> ptrie \<Rightarrow> ptrie" where
  "pjoin k (PShort k' t) = PShort (k @ k') t"
| "pjoin k t = PShort k t"

definition pothers :: "ptrie list \<Rightarrow> nat list" where
  "pothers cs = filter (\<lambda>i. cs ! i \<noteq> PNil) [0..<length cs]"

definition preduce :: "ptrie list \<Rightarrow> ptrie" where
  "preduce cs = (case pothers cs of [i] \<Rightarrow> pjoin [of_nat i] (cs ! i) | _ \<Rightarrow> PFull cs)"

function pdelete :: "ptrie \<Rightarrow> bytes \<Rightarrow> ptrie" where
  "pdelete PNil key = PNil"
| "pdelete (PVal v) key = PNil"
| "pdelete (PShort k c) key =
     (if take (length k) key \<noteq> k then PShort k c
      else if length key = length k then PNil
      else pjoin k (pdelete c (drop (length k) key)))"
| "pdelete (PFull cs) key =
     (if key \<noteq> [] \<and> unat (key ! 0) < length cs
      then preduce (cs[unat (key ! 0) := pdelete (cs ! unat (key ! 0)) (drop 1 key)])
      else PFull cs)"
  by pat_completeness auto
termination
  by (relation "measure (size \<circ> fst)") (auto simp: less_Suc_eq_le intro!: size_list_estimation' [OF nth_mem])

lemma minimal_full_child:
  assumes "minimal (PFull cs)" "hexkey (x # xs)"
  shows "unat x < length cs \<and> at_key (cs ! unat x) xs"
  using assms by (auto elim!: minimal_PFullE simp: at_key_def wf0_def unat_nibble)

lemma at_key_cases:
  assumes "at_key N k"
  obtains (end_nil) "k = []" "N = PNil" | (end_val) v where "k = []" "N = PVal v" "v \<noteq> []"
  | (nil) "hexkey k" "N = PNil" | (tree) "hexkey k" "minimal N"
  using assms by (auto simp: at_key_def wf0_def)

lemma at_key_short_child:
  assumes "minimal (PShort k C)" "hexkey key" "take (length k) key = k"
  shows "at_key C (drop (length k) key)"
  using assms(1)
proof (cases rule: minimal_short)
  case (leaf v)
  then have "key = k"
    using hexkey_prefix_free [OF leaf(1) assms(2,3)] by simp
  then show ?thesis
    using leaf by (auto simp: at_key_def)
next
  case (ext cs)
  then show ?thesis
    using hexkey_after [OF ext(1) assms(2,3)] by (simp add: at_key_def wf0_def)
qed

section \<open>Insertion\<close>

lemma prefixLen_split: "x \<noteq> y \<Longrightarrow> prefixLen (p @ y # ys) (p @ x # xs) = length p"
  by (induction p) auto

lemma split_keys:
  assumes "hexkey key" "hexkey k \<or> nibbles k" "take (length k) key \<noteq> k"
  shows "\<exists>p x xs y ys. key = p @ y # ys \<and> k = p @ x # xs \<and> x \<noteq> y"
proof -
  let ?m = "prefixLen key k"
  have mk: "?m < length k"
    using assms(3) prefixLen_le [of key k] prefixLen_full [of key k] by linarith
  have "?m \<noteq> length key"
  proof
    assume "?m = length key"
    then have pre: "take (length key) k = key"
      using prefixLen_take [of key k] by simp
    show False
    proof (cases "hexkey k")
      case True
      then show ?thesis
        using pre assms hexkey_prefix_free [of key k] by simp
    next
      case False
      then have "nibbles key"
        using assms(2) pre by (metis in_set_takeD)
      then show ?thesis
        using assms(1) hexkey_not_nibbles by blast
    qed
  qed
  then have mkey: "?m < length key"
    using prefixLen_le [of key k] by linarith
  have "key = take ?m key @ key ! ?m # drop (Suc ?m) key" "k = take ?m key @ k ! ?m # drop (Suc ?m) k"
    using id_take_nth_drop [OF mkey] id_take_nth_drop [OF mk] prefixLen_take [of key k] by simp_all
  then show ?thesis
    using prefixLen_differ [OF mkey mk] by metis
qed

lemma pbranch_split: "x \<noteq> y \<Longrightarrow> pbranch (p @ x # xs) c (p @ y # ys) val =
    pext p (PFull ((replicate 17 PNil)[unat x := pleaf xs c, unat y := pleaf ys val]))"
  by (simp add: pbranch_def prefixLen_split nth_append Let_def)

text \<open>What may stand at index \<open>x\<close> of a full node.\<close>

definition slot :: "byte \<Rightarrow> ptrie \<Rightarrow> bool" where
  "slot x c \<longleftrightarrow> (x < 16 \<and> minimal c) \<or> (x = 16 \<and> (\<exists>v. v \<noteq> [] \<and> c = PVal v))"

lemma slot_not_nil: "slot x c \<Longrightarrow> c \<noteq> PNil"
  by (auto simp: slot_def)

lemma slot_index: "slot x c \<Longrightarrow> unat x < 17"
  by (auto simp: slot_def unat_nibble)

lemma slot_leaf: "hexkey (x # xs) \<Longrightarrow> v \<noteq> [] \<Longrightarrow> slot x (pleaf xs (PVal v))"
  by (auto simp: slot_def pleaf_def intro: minimal.leaf)

lemma slot_short: "minimal (PShort (p @ x # xs) c) \<Longrightarrow> slot x (pleaf xs c)"
  by (auto elim!: minimal_PShortE simp: hexkey_append slot_def pleaf_def intro: minimal.leaf minimal.ext)

lemma minimal_branch:
  assumes "slot x a" "slot y b" "x \<noteq> y"
  shows "minimal (PFull ((replicate 17 PNil)[unat x := a, unat y := b]))" (is "minimal (PFull ?cs)")
proof (rule minimal.full [where i = "unat x" and j = "unat y"])
  show "?cs ! i = PNil \<or> minimal (?cs ! i)" if "i < 16" for i
    using assms that by (auto simp: slot_def nth_list_update_if)
  show "?cs ! 16 = PNil \<or> (\<exists>v. v \<noteq> [] \<and> ?cs ! 16 = PVal v)"
    using assms by (auto simp: slot_def nth_list_update_if unat_nibble)
qed (use assms slot_index [OF assms(1)] slot_index [OF assms(2)] slot_not_nil in
     \<open>auto simp: nth_list_update_if unat_byte_eq\<close>)

lemma minimal_pext: "nibbles p \<Longrightarrow> minimal (PFull cs) \<Longrightarrow> minimal (pext p (PFull cs))"
  by (auto simp: pext_def intro: minimal.ext)

lemma pget_pext: "pget (pext p t) k = (if take (length p) k = p then pget t (drop (length p) k) else None)"
  by (simp add: pext_def)

lemma minimal_full_update:
  assumes "minimal (PFull cs)" "slot x c"
  shows "minimal (PFull (cs[unat x := c]))"
proof -
  from assms(1) obtain i j where
    cs: "length cs = 17" "\<And>i. i < 16 \<Longrightarrow> cs ! i = PNil \<or> minimal (cs ! i)"
        "cs ! 16 = PNil \<or> (\<exists>v. v \<noteq> [] \<and> cs ! 16 = PVal v)"
    and ij: "i < 17" "j < 17" "i \<noteq> j" "cs ! i \<noteq> PNil" "cs ! j \<noteq> PNil"
    by (auto elim!: minimal_PFullE)
  show ?thesis
  proof (rule minimal.full [where i = i and j = j])
    show "cs[unat x := c] ! i = PNil \<or> minimal (cs[unat x := c] ! i)" if "i < 16" for i
      using assms(2) cs that by (auto simp: slot_def nth_list_update_if)
    show "cs[unat x := c] ! 16 = PNil \<or> (\<exists>v. v \<noteq> [] \<and> cs[unat x := c] ! 16 = PVal v)"
      using assms(2) cs by (auto simp: slot_def nth_list_update_if unat_nibble)
  qed (use cs ij slot_not_nil [OF assms(2)] in \<open>auto simp: nth_list_update_if\<close>)
qed

lemma pinsert_minimal:
  assumes "at_key N k" "v \<noteq> []"
  shows "if k = [] then pinsert N k (PVal v) = PVal v
         else minimal (pinsert N k (PVal v)) \<and> (\<forall>cs. N = PFull cs \<longrightarrow> (\<exists>ds. pinsert N k (PVal v) = PFull ds))"
  using assms
proof (induction N k "PVal v" rule: pinsert.induct)
  case (1 key)
  then show ?case
    by (auto simp: at_key_def pleaf_def intro: minimal.leaf)
next
  case (2 w key)
  then show ?case
    by (auto simp: at_key_def wf0_def)
next
  case (3 k c key)
  then have key: "hexkey key" and w: "minimal (PShort k c)"
    by (auto simp: at_key_def wf0_def)
  show ?case
  proof (cases "take (length k) key = k")
    case True
    from w show ?thesis
    proof (cases rule: minimal_short)
      case (leaf u)
      then have "key = k"
        using hexkey_prefix_free [OF _ key True] by simp
      then show ?thesis
        using leaf 3(3) key by (auto intro: minimal.leaf)
    next
      case (ext cs)
      then have "hexkey (drop (length k) key)"
        using hexkey_after key True by blast
      then show ?thesis
        using ext 3 True key by (auto simp: at_key_def wf0_def intro: minimal.ext)
    qed
  next
    case False
    then obtain p x xs y ys where s: "key = p @ y # ys" "k = p @ x # xs" "x \<noteq> y"
      using split_keys [of key k] key w by (blast elim: minimal_PShortE)
    then have "nibbles p" "hexkey (y # ys)"
      using key by (auto simp: hexkey_append)
    then have "minimal (pbranch k c key (PVal v))"
      unfolding s pbranch_split [OF s(3)]
      using minimal_pext minimal_branch slot_short w s slot_leaf 3(3) by metis
    then show ?thesis
      using False key by auto
  qed
next
  case (4 cs key)
  then obtain x xs where key: "key = x # xs" "hexkey (x # xs)" and w: "minimal (PFull cs)"
    by (cases key) (auto simp: at_key_def wf0_def)
  note ch = minimal_full_child [OF w key(2)]
  have "slot x (pinsert (cs ! unat x) xs (PVal v))"
    using 4 key ch by (auto simp: slot_def split: if_splits)
  then show ?case
    using minimal_full_update [OF w] ch key by auto
qed

lemma pget_short_append: "pget (PShort (p @ x # xs) c) (p @ z # zs) = (if z = x then pget (pleaf xs c) zs else None)"
  by (auto simp: pleaf_def)

lemma pget_short_not_prefix: "take (length p) k' \<noteq> p \<Longrightarrow> pget (PShort (p @ q) c) k' = None"
proof -
  assume "take (length p) k' \<noteq> p"
  moreover have "take (length p) (take (length (p @ q)) k') = take (length p) k'"
    by (simp add: min_def)
  ultimately have "take (length (p @ q)) k' \<noteq> p @ q"
    by (metis append_eq_conv_conj)
  then show ?thesis
    by simp
qed

lemma pget_pleaf:
  assumes "at_key PNil k" "at_key PNil k'"
  shows "pget (pleaf k (PVal v)) k' = (if k' = k then Some v else None)"
  using assms hexkey_prefix_free [of k k'] by (auto simp: pleaf_def at_key_def)

lemma pget_branch:
  assumes "x \<noteq> y" "unat x < 17" "unat y < 17"
  shows "pget (PFull ((replicate 17 PNil)[unat x := a, unat y := b])) (z # zs) =
    (if z = y then pget b zs else if z = x then pget a zs else None)"
  using assms by (auto simp: nth_list_update_if unat_byte_eq)

lemma pget_pbranch:
  assumes key: "hexkey (p @ y # ys)" "hexkey k'" and x: "x \<le> 16" "x \<noteq> y"
  shows "pget (pbranch (p @ x # xs) c (p @ y # ys) (PVal v)) k' =
    (if k' = p @ y # ys then Some v else pget (PShort (p @ x # xs) c) k')"
proof (cases "take (length p) k' = p")
  case True
  have p: "nibbles p" "hexkey (y # ys)"
    using key(1) by (auto simp: hexkey_append)
  obtain z zs where k': "k' = p @ z # zs" "hexkey (z # zs)"
    using hexkey_after [OF p(1) key(2) True] True by (metis append_take_drop_id hexkey.elims(2))
  have "unat y < 17" "unat x < 17"
    using p(2) x(1) by (auto intro!: unat_index)
  moreover have "z = y \<Longrightarrow> at_key PNil ys \<and> at_key PNil zs"
    using p(2) k'(2) by (auto simp: at_key_def wf0_def)
  ultimately show ?thesis
    unfolding pbranch_split [OF x(2)] pget_pext k'(1)
    using x(2) by (simp add: pget_branch pget_pleaf pget_short_append del: pget.simps)
next
  case False
  then show ?thesis
    unfolding pbranch_split [OF x(2)] pget_pext pget_short_not_prefix [OF False] by auto
qed

lemma pget_pinsert:
  assumes "at_key N k" "at_key N k'" "(k = []) = (k' = [])"
  shows "pget (pinsert N k (PVal v)) k' = (if k' = k then Some v else pget N k')"
  using assms
proof (induction N k "PVal v" arbitrary: k' rule: pinsert.induct)
  case (1 key)
  then show ?case
    by (simp only: pinsert.simps pget_pleaf pget.simps)
next
  case (2 w key)
  then have "key = []" "k' = []"
    by (auto elim!: at_key_cases)
  then show ?case
    by simp
next
  case (3 k c key)
  then have key: "hexkey key" "hexkey k'" and w: "minimal (PShort k c)"
    by (auto elim!: at_key_cases)
  show ?case
  proof (cases "take (length k) key = k")
    case True
    from w show ?thesis
    proof (cases rule: minimal_short)
      case (leaf u)
      then have "key = k" "take (length k) k' = k \<Longrightarrow> k' = k"
        using hexkey_prefix_free True key by blast+
      then show ?thesis
        using leaf key by (auto simp: hexkey_not_Nil)
    next
      case (ext cs)
      have eq: "take (length k) k' = k \<Longrightarrow> drop (length k) k' = drop (length k) key \<longleftrightarrow> k' = key"
        using True by (metis append_take_drop_id)
      have "hexkey (drop (length k) key)" "take (length k) k' = k \<Longrightarrow> hexkey (drop (length k) k')"
        using ext hexkey_after key True by blast+
      then show ?thesis
        using 3(1) [OF _ True, of "drop (length k) k'"] ext True key eq
        by (auto simp: at_key_def wf0_def hexkey_not_Nil)
    qed
  next
    case False
    then obtain p x xs y ys where s: "key = p @ y # ys" "k = p @ x # xs" "x \<noteq> y"
      using split_keys [of key k] key(1) w by (blast elim: minimal_PShortE)
    have "x \<le> 16"
      using w s(2) by (auto elim!: minimal_PShortE simp: hexkey_append)
    then show ?thesis
      using pget_pbranch [of p y ys k' x xs c v] key s False by auto
  qed
next
  case (4 cs key)
  have hk: "hexkey key" "hexkey k'" and w: "minimal (PFull cs)"
    using 4(2,3) by (auto elim!: at_key_cases)
  then obtain x xs x' xs' where key: "key = x # xs" "k' = x' # xs'"
    by (metis hexkey.elims(2))
  note ch = minimal_full_child [OF w hk(1) [unfolded key]] minimal_full_child [OF w hk(2) [unfolded key]]
  show ?case
  proof (cases "x' = x")
    case True
    have "(xs = []) = (xs' = [])"
      using hk True by (auto simp: key)
    then show ?thesis
      using 4(1) [of xs'] ch True by (simp add: key)
  next
    case False
    then show ?thesis
      using ch by (simp add: key nth_list_update_if unat_byte_eq)
  qed
qed

section \<open>Deletion\<close>

lemma pget_pjoin: "pget (pjoin k t) key = pget (PShort k t) key"
proof (cases t)
  case (PShort k' t')
  have "take (length (k @ k')) key = k @ k' \<longleftrightarrow>
      take (length k) key = k \<and> take (length k') (drop (length k) key) = k'"
    by (cases "length k \<le> length key") (auto simp: take_add dest: arg_cong [of _ _ length])
  then show ?thesis
    by (simp add: PShort add.commute)
qed auto

lemma minimal_pjoin:
  assumes "nibbles k" "k \<noteq> []" "minimal t"
  shows "minimal (pjoin k t)"
proof (cases t)
  case (PShort k' t')
  from assms(3) [unfolded PShort] show ?thesis
    by (cases rule: minimal_short) (use assms PShort in \<open>auto simp: hexkey_append intro!: minimal.leaf minimal.ext\<close>)
qed (use assms in \<open>auto intro: minimal.ext\<close>)

lemma minimal_pjoin_slot: "slot x c \<Longrightarrow> minimal (pjoin [x] c)"
  by (auto simp: slot_def minimal_pjoin intro!: minimal.leaf)

lemma preduce_cases:
  assumes "i0 < length cs" "cs ! i0 \<noteq> PNil"
  obtains (one) i where "i < length cs" "cs ! i \<noteq> PNil" "\<And>j. j < length cs \<Longrightarrow> j \<noteq> i \<Longrightarrow> cs ! j = PNil"
      "preduce cs = pjoin [of_nat i] (cs ! i)"
  | (more) i j where "i < length cs" "j < length cs" "i \<noteq> j" "cs ! i \<noteq> PNil" "cs ! j \<noteq> PNil" "preduce cs = PFull cs"
proof -
  have mem: "\<And>j. j \<in> set (pothers cs) \<longleftrightarrow> j < length cs \<and> cs ! j \<noteq> PNil"
    by (auto simp: pothers_def)
  have dist: "distinct (pothers cs)"
    by (simp add: pothers_def)
  consider (nil) "pothers cs = []" | (one) i where "pothers cs = [i]" | (more) i j r where "pothers cs = i # j # r"
    by (metis neq_Nil_conv)
  then show thesis
  proof cases
    case nil
    then show thesis
      using mem [of i0] assms by simp
  next
    case (one i)
    show thesis
      by (rule that(1) [of i]) (use one mem in \<open>auto simp: preduce_def\<close>)
  next
    case (more i j r)
    show thesis
      by (rule that(2) [of i j]) (use more mem [of i] mem [of j] dist in \<open>auto simp: preduce_def\<close>)
  qed
qed

lemma pget_preduce:
  assumes "length cs = 17" "i0 < 17" "cs ! i0 \<noteq> PNil" "unat z < 17"
  shows "pget (preduce cs) (z # zs) = pget (cs ! unat z) zs"
proof -
  have "i0 < length cs"
    using assms by simp
  then show ?thesis
    using assms(3)
  proof (cases rule: preduce_cases)
    case (one i)
    have "z = of_nat i \<longleftrightarrow> unat z = i"
      using one(1) assms(1) by (auto simp: unat_of_nat)
    then show ?thesis
      using one(3) [of "unat z"] assms by (auto simp: one(4) pget_pjoin)
  qed (use assms in simp)
qed

lemma minimal_preduce:
  assumes "minimal (PFull cs)" "c = PNil \<or> slot x c" "unat x < 17"
  shows "minimal (preduce (cs[unat x := c]))" (is "minimal (preduce ?ds)")
proof -
  from assms(1) obtain i j where cs: "length cs = 17" "\<And>i. i < 16 \<Longrightarrow> cs ! i = PNil \<or> minimal (cs ! i)"
    "cs ! 16 = PNil \<or> (\<exists>v. v \<noteq> [] \<and> cs ! 16 = PVal v)"
    and ij: "i < 17" "j < 17" "i \<noteq> j" "cs ! i \<noteq> PNil" "cs ! j \<noteq> PNil"
    by (auto elim!: minimal_PFullE)
  have ch: "?ds ! n = PNil \<or> minimal (?ds ! n)" if "n < 16" for n
    using cs that assms(2) by (auto simp: nth_list_update_if slot_def)
  have ch16: "?ds ! 16 = PNil \<or> (\<exists>v. v \<noteq> [] \<and> ?ds ! 16 = PVal v)"
    using cs assms(2) by (auto simp: nth_list_update_if slot_def unat_nibble)
  obtain i0 where i0: "i0 < length ?ds" "?ds ! i0 \<noteq> PNil"
    using ij cs(1) by (metis length_list_update nth_list_update_neq)
  from i0 show ?thesis
  proof (cases rule: preduce_cases)
    case (one n)
    then have "slot (of_nat n) (?ds ! n)"
      using ch [of n] ch16 cs(1) by (cases "n = 16") (auto simp: slot_def unat_nibble unat_of_nat)
    then show ?thesis
      using minimal_pjoin_slot one(4) by simp
  next
    case (more n m)
    show ?thesis
      unfolding more(6) by (rule minimal.full [of _ n m]) (use ch ch16 more cs(1) in simp_all)
  qed
qed

lemma pdelete_minimal:
  assumes "at_key N k"
  shows "if k = [] then pdelete N k = PNil
         else wf0 (pdelete N k) \<and> (\<forall>cs. N = PFull cs \<longrightarrow> minimal (pdelete N k))"
  using assms
proof (induction N k rule: pdelete.induct)
  case (1 key)
  then show ?case
    by (simp add: wf0_def)
next
  case (2 v key)
  then show ?case
    by (auto elim!: at_key_cases)
next
  case (3 k c key)
  then have key: "hexkey key" and w: "minimal (PShort k c)"
    by (auto elim!: at_key_cases)
  show ?case
  proof (cases "take (length k) key = k \<and> length key \<noteq> length k")
    case True
    from w show ?thesis
    proof (cases rule: minimal_short)
      case (leaf u)
      then show ?thesis
        using True hexkey_prefix_free [OF _ key, of k] by auto
    next
      case (ext cs)
      then have "hexkey (drop (length k) key)"
        using hexkey_after key True by blast
      then have "minimal (pdelete c (drop (length k) key))"
        using 3(1) True ext by (auto simp: at_key_def wf0_def hexkey_not_Nil)
      then show ?thesis
        using True minimal_pjoin ext key by (auto simp: wf0_def)
    qed
  next
    case False
    then show ?thesis
      using w key by (auto simp: wf0_def)
  qed
next
  case (4 cs key)
  have hk: "hexkey key" and w: "minimal (PFull cs)"
    using 4(2) by (auto elim!: at_key_cases)
  then obtain x xs where key: "key = x # xs"
    by (metis hexkey.elims(2))
  note ch = minimal_full_child [OF w hk [unfolded key]]
  let ?c = "pdelete (cs ! unat x) xs"
  have "?c = PNil \<or> slot x ?c"
    using 4(1) ch hk by (auto simp: key wf0_def slot_def split: if_splits)
  then have "minimal (preduce (cs[unat x := ?c]))"
    using minimal_preduce [OF w, of ?c x] ch w by (auto elim!: minimal_PFullE)
  then show ?case
    using ch by (simp add: key wf0_def)
qed

lemma pget_pdelete:
  assumes "at_key N k" "at_key N k'" "(k = []) = (k' = [])"
  shows "pget (pdelete N k) k' = (if k' = k then None else pget N k')"
  using assms
proof (induction N k arbitrary: k' rule: pdelete.induct)
  case (1 key)
  then show ?case
    by simp
next
  case (2 w key)
  then have "key = []" "k' = []"
    by (auto elim!: at_key_cases)
  then show ?case
    by simp
next
  case (3 k c key)
  then have key: "hexkey key" "hexkey k'" and w: "minimal (PShort k c)"
    by (auto elim!: at_key_cases)
  show ?case
  proof (cases "take (length k) key = k")
    case True
    from w show ?thesis
    proof (cases rule: minimal_short)
      case (leaf u)
      then have "key = k" "take (length k) k' = k \<Longrightarrow> k' = k"
        using hexkey_prefix_free True key by blast+
      then show ?thesis
        using leaf by auto
    next
      case (ext cs)
      have eq: "take (length k) k' = k \<Longrightarrow> drop (length k) k' = drop (length k) key \<longleftrightarrow> k' = key"
        using True by (metis append_take_drop_id)
      have "hexkey (drop (length k) key)" "take (length k) k' = k \<Longrightarrow> hexkey (drop (length k) k')"
        using ext hexkey_after key True by blast+
      moreover from this have "length key \<noteq> length k"
        by auto
      moreover have "at_key c q" if "hexkey q" for q
        using ext that by (simp add: at_key_def wf0_def)
      ultimately have "take (length k) k' = k \<Longrightarrow> pget (pdelete c (drop (length k) key)) (drop (length k) k') =
          (if k' = key then None else pget c (drop (length k) k'))"
        using 3(1) [of "drop (length k) k'"] True eq hexkey_not_Nil by metis
      then show ?thesis
        using True \<open>length key \<noteq> length k\<close> by (auto simp: pget_pjoin)
    qed
  next
    case False
    then show ?thesis
      by auto
  qed
next
  case (4 cs key)
  have hk: "hexkey key" "hexkey k'" and w: "minimal (PFull cs)"
    using 4(2,3) by (auto elim!: at_key_cases)
  then obtain x xs x' xs' where key: "key = x # xs" "k' = x' # xs'"
    by (metis hexkey.elims(2))
  note ch = minimal_full_child [OF w hk(1) [unfolded key]] minimal_full_child [OF w hk(2) [unfolded key]]
  let ?ds = "cs[unat x := pdelete (cs ! unat x) xs]"
  obtain i0 where "length ?ds = 17" "i0 < 17" "?ds ! i0 \<noteq> PNil"
    using w by (metis minimal_full length_list_update nth_list_update_neq)
  then have "pget (preduce ?ds) k' = pget (?ds ! unat x') xs'"
    using pget_preduce ch by (simp add: key)
  moreover have "(xs = []) = (xs' = [])" if "x' = x"
    using hk that by (auto simp: key)
  ultimately show ?case
    using 4(1) [of xs'] ch by (cases "x' = x") (simp_all add: key unat_byte_eq)
qed

section \<open>Canonical form\<close>

text \<open>Two keys that differ at their first nibble, both present.\<close>

definition splits :: "ptrie \<Rightarrow> bool" where
  "splits N \<longleftrightarrow> (\<exists>x xs y ys. hexkey (x # xs) \<and> hexkey (y # ys) \<and> x \<noteq> y \<and> pget N (x # xs) \<noteq> None \<and> pget N (y # ys) \<noteq> None)"

lemma full_child_key:
  assumes "length cs = 17" "\<And>i. i < 16 \<Longrightarrow> cs ! i = PNil \<or> (\<exists>k. hexkey k \<and> pget (cs ! i) k \<noteq> None)"
    "cs ! 16 = PNil \<or> (\<exists>v. v \<noteq> [] \<and> cs ! 16 = PVal v)" "i < 17" "cs ! i \<noteq> PNil"
  shows "\<exists>xs. hexkey (of_nat i # xs) \<and> pget (PFull cs) (of_nat i # xs) \<noteq> None"
proof (cases "i < 16")
  case True
  then obtain k where "hexkey k" "pget (cs ! i) k \<noteq> None"
    using assms by blast
  then show ?thesis
    using True assms(1) by (intro exI [of _ k]) (simp add: unat_nibble unat_of_nat)
next
  case False
  then have "i = 16"
    using assms(4) by simp
  then show ?thesis
    using assms by (intro exI [of _ "[]"]) auto
qed

lemma minimal_has_key: "minimal N \<Longrightarrow> (\<exists>k. hexkey k \<and> pget N k \<noteq> None) \<and> (\<forall>cs. N = PFull cs \<longrightarrow> splits N)"
proof (induction rule: minimal.induct)
  case (leaf k v)
  then show ?case
    by (auto intro!: exI [of _ k])
next
  case (ext k cs)
  then obtain q where "hexkey q" "pget (PFull cs) q \<noteq> None"
    by blast
  then have "hexkey (k @ q) \<and> pget (PShort k (PFull cs)) (k @ q) \<noteq> None"
    using ext(1) by (auto simp: hexkey_append)
  then show ?case
    by blast
next
  case (full cs i j)
  have key: "\<exists>xs. hexkey (of_nat n # xs) \<and> pget (PFull cs) (of_nat n # xs) \<noteq> None" if "n < 17" "cs ! n \<noteq> PNil" for n
    using full_child_key [OF full.hyps(1) _ full.hyps(2) that] full.IH by blast
  obtain xs ys where "hexkey (of_nat i # xs)" "pget (PFull cs) (of_nat i # xs) \<noteq> None"
      "hexkey (of_nat j # ys)" "pget (PFull cs) (of_nat j # ys) \<noteq> None"
    using key [of i] key [of j] full by blast
  moreover have "(of_nat i :: byte) \<noteq> of_nat j"
  proof
    assume "(of_nat i :: byte) = of_nat j"
    then have "unat (of_nat i :: byte) = unat (of_nat j :: byte)"
      by simp
    then show False
      using full by (simp add: unat_of_nat)
  qed
  ultimately show ?case
    unfolding splits_def by blast
qed

lemma full_two_keys:
  assumes "minimal (PFull cs)"
  obtains x xs y ys where "hexkey (x # xs)" "hexkey (y # ys)" "x \<noteq> y"
    "pget (PFull cs) (x # xs) \<noteq> None" "pget (PFull cs) (y # ys) \<noteq> None"
  using minimal_has_key [OF assms] unfolding splits_def by blast

lemma pget_short_SomeD: "pget (PShort k c) q \<noteq> None \<Longrightarrow> take (length k) q = k \<and> pget c (drop (length k) q) \<noteq> None"
  by (auto split: if_splits)

lemma full_not_short:
  assumes "minimal (PFull cs)" "\<And>q. hexkey q \<Longrightarrow> pget (PFull cs) q = pget (PShort k c) q" "k \<noteq> []"
  shows False
proof -
  obtain x xs y ys where "hexkey (x # xs)" "hexkey (y # ys)" "x \<noteq> y"
      "pget (PShort k c) (x # xs) \<noteq> None" "pget (PShort k c) (y # ys) \<noteq> None"
    using full_two_keys [OF assms(1)] assms(2) by metis
  then have "take (length k) (x # xs) = k" "take (length k) (y # ys) = k" "x \<noteq> y"
    using pget_short_SomeD by blast+
  then show False
    using assms(3) by (cases k) auto
qed

lemma leaf_not_ext:
  assumes "hexkey k" "minimal (PFull cs)" "nibbles k'"
    "\<And>q. hexkey q \<Longrightarrow> pget (PShort k (PVal v)) q = pget (PShort k' (PFull cs)) q"
  shows False
proof -
  obtain x xs y ys where xy: "hexkey (x # xs)" "hexkey (y # ys)" "x \<noteq> y"
      "pget (PFull cs) (x # xs) \<noteq> None" "pget (PFull cs) (y # ys) \<noteq> None"
    using full_two_keys [OF assms(2)] .
  have "q = k" if "hexkey (drop (length k') q)" "take (length k') q = k'" "pget (PFull cs) (drop (length k') q) \<noteq> None" for q
  proof -
    have "hexkey q"
      using that assms(3) by (metis append_take_drop_id hexkey_append hexkey.simps(1))
    moreover from this have "pget (PShort k (PVal v)) q \<noteq> None"
      using that assms(4) [of q] by simp
    ultimately show ?thesis
      using hexkey_prefix_free [OF assms(1)] pget_short_SomeD by blast
  qed
  from this [of "k' @ x # xs"] this [of "k' @ y # ys"] show False
    using xy by auto
qed

lemma ext_prefix_le:
  assumes "minimal (PFull cs)" "nibbles k"
    "\<And>q. hexkey q \<Longrightarrow> pget (PShort k (PFull cs)) q = pget (PShort k' c') q"
  shows "take (length k') k = k'"
proof -
  obtain x xs y ys where xy: "hexkey (x # xs)" "hexkey (y # ys)" "x \<noteq> y"
      "pget (PFull cs) (x # xs) \<noteq> None" "pget (PFull cs) (y # ys) \<noteq> None"
    using full_two_keys [OF assms(1)] .
  have "take (length k') (k @ z # zs) = k'" if "hexkey (z # zs)" "pget (PFull cs) (z # zs) \<noteq> None" for z zs
  proof -
    have "hexkey (k @ z # zs)"
      using that(1) assms(2) by (simp add: hexkey_append)
    then have "pget (PShort k' c') (k @ z # zs) \<noteq> None"
      using that(2) assms(3) by (metis append_eq_conv_conj pget.simps(3))
    then show ?thesis
      using pget_short_SomeD by blast
  qed
  then have "take (length k') (k @ x # xs) = k'" "take (length k') (k @ y # ys) = k'"
    using xy by blast+
  then show ?thesis
    using xy(3) by (auto simp: take_Cons' split: if_splits) (metis list.inject same_append_eq)
qed

lemma minimal_unique:
  assumes "minimal N" "minimal M" "\<And>k. hexkey k \<Longrightarrow> pget N k = pget M k"
  shows "N = M"
  using assms
proof (induction arbitrary: M rule: minimal.induct)
  case (leaf k v)
  show ?case
  proof (cases M)
    case (PShort k' c')
    from leaf(3) [unfolded PShort] show ?thesis
    proof (cases rule: minimal_short)
      case (leaf w)
      have "pget (PShort k' c') k = Some v"
        using leaf.prems(2) [of k] leaf.hyps by (simp add: PShort)
      then show ?thesis
        using leaf leaf.hyps PShort hexkey_prefix_free [of k' k] by (auto split: if_splits)
    next
      case (ext cs)
      then show ?thesis
        using leaf_not_ext [OF leaf.hyps(1) ext(4) ext(1), of v] leaf.prems(2) PShort by simp
    qed
  next
    case (PFull ds)
    then show ?thesis
      using full_not_short [of ds k "PVal v"] leaf by (metis hexkey_not_Nil)
  qed (use leaf.prems(1) in auto)
next
  case (ext k cs)
  show ?case
  proof (cases M)
    case (PShort k' c')
    from ext.prems(1) [unfolded PShort] show ?thesis
    proof (cases rule: minimal_short)
      case (leaf w)
      then show ?thesis
        using leaf_not_ext [of k' cs k w] ext.hyps ext.prems(2) PShort by simp
    next
      case (ext ds)
      have eq: "pget (PShort k (PFull cs)) q = pget (PShort k' (PFull ds)) q" if "hexkey q" for q
        using ext.prems(2) that PShort ext by blast
      have "take (length k') k = k'" "take (length k) k' = k"
        using ext_prefix_le [OF ext.hyps(3,1) eq] ext_prefix_le [OF ext(4,1) eq [symmetric]] by blast+
      then have k: "k' = k"
        by (metis append_take_drop_id nle_le take_all_iff length_take min.absorb2 min.cobounded1)
      have "pget (PFull cs) q = pget (PFull ds) q" if "hexkey q" for q
      proof -
        have "hexkey (k @ q)"
          using that ext.hyps(1) hexkey_not_Nil by (simp add: hexkey_append)
        then show ?thesis
          using eq [of "k @ q"] by (simp add: k del: pget.simps(4))
      qed
      then show ?thesis
        using ext.IH [OF ext(4)] k PShort ext by blast
    qed
  next
    case (PFull ds)
    then show ?thesis
      using full_not_short [of ds k "PFull cs"] ext by metis
  qed (use ext.prems(1) in auto)
next
  case (full cs i j)
  show ?case
  proof (cases M)
    case (PShort k' c')
    have "minimal (PFull cs)"
      using minimal.full [OF full.hyps(1) _ full.hyps(2-)] full.IH by blast
    moreover have "k' \<noteq> []"
      using full.prems(1) PShort by (auto elim!: minimal_PShortE)
    ultimately show ?thesis
      using full_not_short [of cs k' c'] full.prems(2) PShort by blast
  next
    case (PFull ds)
    have ds: "length ds = 17" "\<And>i. i < 16 \<Longrightarrow> ds ! i = PNil \<or> minimal (ds ! i)"
        "ds ! 16 = PNil \<or> (\<exists>v. v \<noteq> [] \<and> ds ! 16 = PVal v)"
      using full.prems(1) PFull by (auto elim!: minimal_PFullE)
    have same: "pget (cs ! n) q = pget (ds ! n) q" if "n < 17" "hexkey (of_nat n # q)" for n q
      using full.prems(2) [OF that(2)] that(1) PFull ds(1) full.hyps(1) by (simp add: unat_of_nat)
    have "cs ! n = ds ! n" if "n < 17" for n
    proof (cases "n < 16")
      case True
      then have eq: "pget (cs ! n) q = pget (ds ! n) q" if "hexkey q" for q
        using same [of n q] that by (simp add: unat_nibble unat_of_nat)
      show ?thesis
        using full.IH [OF True] ds(2) [OF True] eq minimal_has_key by (metis pget.simps(1))
    next
      case False
      then have "n = 16"
        using that by simp
      then show ?thesis
        using same [of 16 "[]"] full.hyps(2) ds(3) by auto
    qed
    then show ?thesis
      using PFull ds(1) full.hyps(1) by (simp add: list_eq_iff_nth_eq)
  qed (use full.prems(1) in auto)
qed

lemma wf0_unique:
  assumes "wf0 N" "wf0 M" "\<And>k. hexkey k \<Longrightarrow> pget N k = pget M k"
  shows "N = M"
  using assms minimal_unique [of N M] minimal_has_key unfolding wf0_def by (metis pget.simps(1))

end
