(* ===== verification/Trie_Codec.thy ===== *)
theory Trie_Codec
  imports Trie_Map
begin

text \<open>
  Key encodings and stored nodes: the three encodings of keys are inverse to each other, the
  reference encoding of a trie node, and the decoder applied to it.
\<close>

unbundle bit_operations_syntax

section \<open>Key encodings\<close>

lemma byte_div16: "(x :: byte) div 16 = drop_bit 4 x"
  by (simp add: drop_bit_eq_div)

lemma byte_mod16: "(x :: byte) mod 16 = take_bit 4 x"
  by (simp add: take_bit_eq_mod)

lemma nibble_take_bit: "x < (16 :: byte) \<longleftrightarrow> take_bit 4 x = x"
proof -
  have "take_bit 4 x = x \<longleftrightarrow> x mod 16 = x"
    by (simp add: byte_mod16)
  also have "\<dots> \<longleftrightarrow> unat x mod 16 = unat x"
    by (simp add: word_unat_eq_iff unat_mod)
  also have "\<dots> \<longleftrightarrow> unat x < 16"
    by (metis mod_less mod_less_divisor zero_less_numeral)
  finally show ?thesis
    by (simp add: unat_nibble)
qed

lemma nibble_bit: "x < (16 :: byte) \<Longrightarrow> bit x n \<Longrightarrow> n < 4"
  by (metis bit_take_bit_iff nibble_take_bit)

lemma join_nibbles:
  assumes "a < (16 :: byte)" "b < 16"
  shows "(push_bit 4 a OR b) div 16 = a" "(push_bit 4 a OR b) mod 16 = b"
proof -
  have "n < 4" if "bit a n" for n
    using that assms(1) nibble_bit by blast
  then show "(push_bit 4 a OR b) div 16 = a"
    unfolding byte_div16 using nibble_bit [OF assms(2)]
    by (intro bit_word_eqI) (auto simp: bit_simps)
  show "(push_bit 4 a OR b) mod 16 = b"
    unfolding byte_mod16 using nibble_bit [OF assms(2)]
    by (intro bit_word_eqI) (auto simp: bit_simps)
qed

lemma split_nibbles: "push_bit 4 ((x :: byte) div 16) OR (x mod 16) = x"
  unfolding byte_div16 byte_mod16 by (intro bit_word_eqI) (auto simp: bit_simps not_less)

lemma unat_byte_less: "unat (x :: byte) < 256"
  using unsigned_less [of x] by simp

lemma div_nibble: "(x :: byte) div 16 < 16" "(x :: byte) mod 16 < 16"
  using unat_byte_less [of x] by (simp_all add: unat_nibble unat_div unat_mod)

abbreviation unpack :: "bytes \<Rightarrow> bytes" where
  "unpack bs \<equiv> concat (map (\<lambda>b. [b div 16, b mod 16]) bs)"

lemma unpack_nibbles: "nibbles (unpack bs)"
  using div_nibble by auto

lemma length_unpack: "length (unpack bs) = 2 * length bs"
  by (induction bs) auto

lemma unpack_decodeNibbles: "nibbles ns \<Longrightarrow> even (length ns) \<Longrightarrow> unpack (decodeNibbles ns) = ns"
  by (induction ns rule: decodeNibbles.induct) (auto simp: join_nibbles)

lemma decodeNibbles_unpack: "decodeNibbles (unpack bs) = bs"
  by (induction bs) (auto simp: split_nibbles)

lemma length_decodeNibbles: "length (decodeNibbles ns) = length ns div 2"
  by (induction ns rule: decodeNibbles.induct) auto

lemma keybytesToHex_unpack: "keybytesToHex bs = unpack bs @ [16]"
  by (simp add: keybytesToHex_def)

lemma hexkey_keybytesToHex: "hexkey (keybytesToHex bs)"
  using unpack_nibbles by (simp add: keybytesToHex_unpack hexkey_append)

lemma inj_keybytesToHex: "keybytesToHex a = keybytesToHex b \<longleftrightarrow> a = b"
proof
  assume "keybytesToHex a = keybytesToHex b"
  then have "decodeNibbles (unpack a) = decodeNibbles (unpack b)"
    by (simp add: keybytesToHex_unpack)
  then show "a = b"
    by (simp only: decodeNibbles_unpack)
qed simp

lemma length_keybytesToHex: "length (keybytesToHex bs) = 2 * length bs + 1"
  by (simp add: keybytesToHex_unpack length_unpack)

lemma hasTerm_hexkey: "hexkey k \<Longrightarrow> hasTerm k \<and> (\<exists>ns. nibbles ns \<and> k = ns @ [16])"
proof (induction k)
  case (Cons x xs)
  show ?case
  proof (cases "xs = []")
    case True
    then show ?thesis
      using Cons.prems by (auto simp: hasTerm_def)
  next
    case False
    then obtain ns where ns: "x < 16" "nibbles ns" "xs = ns @ [16]"
      using Cons by auto
    then have "nibbles (x # ns) \<and> x # xs = (x # ns) @ [16]"
      by simp
    then show ?thesis
      using ns by (auto simp: hasTerm_def nth_append)
  qed
qed simp

lemma hasTerm_nibbles: "nibbles k \<Longrightarrow> \<not> hasTerm k"
proof
  assume "nibbles k" "hasTerm k"
  then have "16 \<in> set k"
    unfolding hasTerm_def by (metis diff_less nth_mem zero_less_one)
  then show False
    using \<open>nibbles k\<close> by auto
qed

lemma hexToKeybytes_keybytesToHex: "hexToKeybytes (keybytesToHex bs) = Some bs"
proof -
  have "hasTerm (keybytesToHex bs)"
    using hasTerm_hexkey hexkey_keybytesToHex by blast
  then show ?thesis
    by (simp add: hexToKeybytes_def keybytesToHex_unpack length_unpack decodeNibbles_unpack)
qed

text \<open>The first byte of the compact form holds a flag nibble and the first nibble of an odd key.\<close>

definition compact_flag :: "bool \<Rightarrow> bytes \<Rightarrow> byte" where
  "compact_flag t ns = (if t then 2 else 0) + (if odd (length ns) then 1 else 0)"

definition compact_first :: "bytes \<Rightarrow> byte" where
  "compact_first ns = (if odd (length ns) then hd ns else 0)"

definition compact_rest :: "bytes \<Rightarrow> bytes" where
  "compact_rest ns = (if odd (length ns) then tl ns else ns)"

lemma hexToCompact_parts:
  assumes "nibbles ns"
  shows "hexToCompact (ns @ (if t then [16] else [])) =
    (push_bit 4 (compact_flag t ns) OR compact_first ns) # decodeNibbles (compact_rest ns)"
proof -
  have "hasTerm (ns @ [16])"
    by (simp add: hasTerm_def nth_append)
  moreover have "ns \<noteq> []" if "odd (length ns)"
    using that by auto
  ultimately show ?thesis
    using hasTerm_nibbles [OF assms]
    by (auto simp: hexToCompact_def compact_flag_def compact_first_def compact_rest_def drop_Suc hd_conv_nth
      or.assoc [symmetric] Let_def)
qed

lemma compactToHex_join:
  assumes "f < 16" "n < 16" "nibbles r" "even (length r)"
  shows "compactToHex ((push_bit 4 f OR n) # decodeNibbles r) =
    Some (drop (unat (2 - (f AND 1))) (f # n # r @ (if f \<ge> 2 then [16] else [])))"
  by (simp add: compactToHex_def keybytesToHex_unpack join_nibbles [OF assms(1,2)] unpack_decodeNibbles [OF assms(3,4)] Let_def)

lemma compactToHex_parts:
  assumes "nibbles ns"
  shows "compactToHex ((push_bit 4 (compact_flag t ns) OR compact_first ns) # decodeNibbles (compact_rest ns)) =
    Some (ns @ (if t then [16] else []))"
proof -
  have r: "nibbles (compact_rest ns)" "even (length (compact_rest ns))"
    using assms by (cases ns; auto simp: compact_rest_def)+
  have f: "compact_flag t ns < 16" "compact_first ns < 16"
    using assms by (cases ns; auto simp: compact_flag_def compact_first_def)+
  have le: "\<not> (2 :: byte) \<le> 1" "\<not> (2 :: byte) \<le> 0"
    by (simp_all add: word_le_nat_alt)
  have "odd (length ns) \<Longrightarrow> hd ns # tl ns = ns"
    by (metis even_zero hd_Cons_tl list.size(3))
  then show ?thesis
    unfolding compactToHex_join [OF f r]
    by (cases t; cases "odd (length ns)") (simp_all add: compact_flag_def compact_first_def compact_rest_def le)
qed

lemma compactToHex_hexToCompact:
  assumes "hexkey k \<or> nibbles k"
  shows "compactToHex (hexToCompact k) = Some k"
  using assms
proof
  assume "hexkey k"
  then obtain ns where "nibbles ns" "k = ns @ [16]"
    using hasTerm_hexkey by blast
  then show ?thesis
    using hexToCompact_parts [of ns True] compactToHex_parts [of ns True] by simp
next
  assume "nibbles k"
  then show ?thesis
    using hexToCompact_parts [of k False] compactToHex_parts [of k False] by simp
qed

lemma length_hexToCompact: "length (hexToCompact k) \<le> length k + 1"
  by (auto simp: hexToCompact_def length_decodeNibbles Let_def)

lemma hexToCompact_not_Nil: "hexToCompact k \<noteq> []"
  by (simp add: hexToCompact_def Let_def)

section \<open>The reference encoding of a trie\<close>

fun is_tree :: "ptrie \<Rightarrow> bool" where
  "is_tree (PShort k c) = True"
| "is_tree (PFull cs) = True"
| "is_tree N = False"

definition collapse :: "(bytes \<Rightarrow> bytes) \<Rightarrow> ptrie \<Rightarrow> rlp_val \<Rightarrow> rlp_val" where
  "collapse sha c v = (if is_tree c \<and> 32 \<le> length (rlp_enc v) then RBytes (sha (rlp_enc v)) else v)"

fun pval :: "(bytes \<Rightarrow> bytes) \<Rightarrow> ptrie \<Rightarrow> rlp_val" where
  "pval sha PNil = RBytes []"
| "pval sha (PVal v) = RBytes v"
| "pval sha (PShort k c) = RList [RBytes (hexToCompact k), collapse sha c (pval sha c)]"
| "pval sha (PFull cs) = RList (map (\<lambda>c. collapse sha c (pval sha c)) cs)"

definition pref :: "(bytes \<Rightarrow> bytes) \<Rightarrow> ptrie \<Rightarrow> rlp_val" where
  "pref sha c = collapse sha c (pval sha c)"

definition penc :: "(bytes \<Rightarrow> bytes) \<Rightarrow> ptrie \<Rightarrow> bytes" where
  "penc sha N = rlp_enc (pval sha N)"

lemma pval_tree [simp]:
  "pval sha (PShort k c) = RList [RBytes (hexToCompact k), pref sha c]"
  "pval sha (PFull cs) = RList (map (pref sha) cs)"
  by (simp_all add: pref_def)

declare pval.simps(3,4) [simp del]

lemma pref_simps [simp]: "pref sha PNil = RBytes []" "pref sha (PVal v) = RBytes v"
  by (simp_all add: pref_def collapse_def)

lemma pref_tree: "is_tree c \<Longrightarrow> pref sha c = (if 32 \<le> length (penc sha c) then RBytes (sha (penc sha c)) else pval sha c)"
  by (simp add: pref_def collapse_def penc_def)

lemma pval_tree_list: "is_tree c \<Longrightarrow> \<exists>vs. pval sha c = RList vs"
  by (cases c) auto

lemma minimal_is_tree: "minimal c \<Longrightarrow> is_tree c"
  by (auto elim: minimal.cases)

lemma pref_encodable [simp]: "encodable (pval sha N)" "encodable (pref sha N)"
proof -
  show "encodable (pval sha N)"
    by (induction N) (auto simp: pref_def collapse_def list_all_iff)
  then show "encodable (pref sha N)"
    by (simp add: pref_def collapse_def)
qed

section \<open>Sizes\<close>

fun small :: "ptrie \<Rightarrow> bool" where
  "small PNil = True"
| "small (PVal v) = (length v < 2 ^ 32)"
| "small (PShort k c) = (length k < 2 ^ 32 \<and> small c)"
| "small (PFull cs) = (length cs = 17 \<and> (\<forall>c\<in>set cs. small c))"

lemma length_nat_bytes_small: "n < 2 ^ 40 \<Longrightarrow> length (nat_bytes n) \<le> 5"
  using length_nat_bytes_le_iff [of n 5] by simp

lemma length_head_small: "n < 2 ^ 40 \<Longrightarrow> length (rlp_head a b n) \<le> 6"
  using length_nat_bytes_small [of n] by (simp add: rlp_head_def)

lemma length_enc_string_small: "length b < 2 ^ 40 \<Longrightarrow> length (enc_string b) \<le> length b + 6"
  using length_head_small [of "length b"] by (simp add: enc_string_def)

lemma length_enc_list_small:
  "length (concat (map rlp_enc vs)) < 2 ^ 40 \<Longrightarrow> length (rlp_enc (RList vs)) \<le> length (concat (map rlp_enc vs)) + 6"
  using length_head_small [of "length (concat (map rlp_enc vs))"] by (simp add: Let_def)

locale keccak_size =
  fixes sha :: "bytes \<Rightarrow> bytes"
  assumes sha_length: "length (sha x) = 32"
begin

lemma length_pref: "small c \<Longrightarrow> length (rlp_enc (pref sha c)) < 2 ^ 32 + 64"
proof (cases "is_tree c")
  case True
  then show ?thesis
    using length_enc_string_small [of "sha (penc sha c)"] sha_length
    by (auto simp: pref_tree penc_def)
next
  case False
  assume "small c"
  moreover from False obtain v where "c = PNil \<and> v = [] \<or> c = PVal v"
    by (cases c) auto
  ultimately show ?thesis
    using length_enc_string_small [of v] by auto
qed

lemma length_penc: "small N \<Longrightarrow> length (penc sha N) < 2 ^ 40"
proof (cases N)
  case (PShort k c)
  assume "small N"
  then have "length (hexToCompact k) < 2 ^ 32 + 1" "length (rlp_enc (pref sha c)) < 2 ^ 32 + 64"
    using length_hexToCompact [of k] length_pref [of c] PShort by simp_all
  then show ?thesis
    using length_enc_string_small [of "hexToCompact k"]
      length_enc_list_small [of "[RBytes (hexToCompact k), pref sha c]"]
    by (simp add: PShort penc_def del: rlp_enc.simps(5))
next
  case (PFull cs)
  assume s: "small N"
  have "sum_list (map (\<lambda>c. length (rlp_enc (pref sha c))) cs) \<le> sum_list (map (\<lambda>c. 2 ^ 32 + 64) cs)"
    using s length_pref by (intro sum_list_mono) (auto simp: PFull less_imp_le)
  then have "length (concat (map rlp_enc (map (pref sha) cs))) \<le> 17 * (2 ^ 32 + 64)"
    using s by (simp add: length_concat comp_def PFull sum_list_triv)
  then show ?thesis
    using length_enc_list_small [of "map (pref sha) cs"] by (simp add: PFull penc_def del: rlp_enc.simps(5))
next
  case (PVal v)
  assume "small N"
  then show ?thesis
    using length_enc_string_small [of v] by (simp add: PVal penc_def)
qed (simp add: penc_def enc_string_def rlp_head_def)

end

section \<open>Decoding what was stored\<close>

text \<open>The node that decoding the encoding of a trie yields: children with a large encoding are left as hash nodes.\<close>

definition loaded_flag :: "16 word \<Rightarrow> bytes option \<Rightarrow> nodeFlag" where
  "loaded_flag gen h = \<lparr>fl_hash = h, fl_gen = gen, fl_dirty = False\<rparr>"

fun load :: "(bytes \<Rightarrow> bytes) \<Rightarrow> 16 word \<Rightarrow> bytes option \<Rightarrow> ptrie \<Rightarrow> node" where
  "load sha gen h PNil = NilNode"
| "load sha gen h (PVal v) = ValueNode v"
| "load sha gen h (PShort k c) =
     ShortNode k (if is_tree c \<and> 32 \<le> length (penc sha c) then HashNode (sha (penc sha c)) else load sha gen None c)
       (loaded_flag gen h)"
| "load sha gen h (PFull cs) =
     FullNode (map (\<lambda>c. if is_tree c \<and> 32 \<le> length (penc sha c) then HashNode (sha (penc sha c)) else load sha gen None c) cs)
       (loaded_flag gen h)"

definition load_ref :: "(bytes \<Rightarrow> bytes) \<Rightarrow> 16 word \<Rightarrow> ptrie \<Rightarrow> node" where
  "load_ref sha gen c = (if is_tree c \<and> 32 \<le> length (penc sha c) then HashNode (sha (penc sha c)) else load sha gen None c)"

lemma load_tree:
  "load sha gen h (PShort k c) = ShortNode k (load_ref sha gen c) (loaded_flag gen h)"
  "load sha gen h (PFull cs) = FullNode (map (load_ref sha gen) cs) (loaded_flag gen h)"
  by (simp_all add: load_ref_def)

lemma load_ref_leaf [simp]: "load_ref sha gen PNil = NilNode" "load_ref sha gen (PVal v) = ValueNode v"
  by (simp_all add: load_ref_def)

declare load.simps(3,4) [simp del]
declare load_tree [simp]

lemma SplitString_enc: "length (enc_string b @ rest) < 2 ^ 64 \<Longrightarrow> SplitString (enc_string b @ rest) = ROk (b, rest)"
  using Split_string [of b rest] by (auto simp: SplitString_def)

lemma SplitList_enc:
  "length (rlp_enc (RList vs) @ rest) < 2 ^ 64 \<Longrightarrow> SplitList (rlp_enc (RList vs) @ rest) = ROk (concat (map rlp_enc vs), rest)"
  using Split_list [of vs rest] by (simp add: SplitList_def)

lemma Split_string_kind:
  assumes "length (enc_string b @ rest) < 2 ^ 64" "length b \<noteq> 1"
  shows "rlp_Split (enc_string b @ rest) = ROk (String, b, rest)"
  using assms readKind_string [of b rest] rlp_Split_head [of "rlp_head 0x80 0xB7 (length b)" b rest String]
  by (simp add: enc_string_def)

lemma decode_node_list:
  assumes "length (rlp_enc (RList vs) @ rest) < 2 ^ 64" "length vs = 2 \<or> length vs = 17"
  shows "decode_node (Suc n) h (rlp_enc (RList vs) @ rest) gen =
    (let dec = (\<lambda>b. decode_node n None b gen); elems = concat (map rlp_enc vs) in
     if length vs = 2 then decodeShort_with dec h elems gen else decodeFull_with dec h elems gen)"
proof -
  have l: "length (concat (map rlp_enc vs)) < 2 ^ 64"
    using assms(1) by (simp add: Let_def)
  have "CountValues (concat (map rlp_enc vs)) = ROk (length vs)"
    using CountValues_loop_enc [OF order_refl l, of 0] by (simp add: CountValues_def)
  moreover have "rlp_enc (RList vs) \<noteq> []"
    by (rule rlp_enc_nonempty)
  ultimately show ?thesis
    using SplitList_enc [OF assms(1)] assms(2)
    by (auto simp: of_rlp_def Let_def simp del: rlp_enc.simps(5))
qed

text \<open>A decoder of embedded nodes that is right for the trees whose encoding is within \<open>n\<close> bytes.\<close>

definition decodes_to :: "(bytes \<Rightarrow> bytes) \<Rightarrow> (bytes \<Rightarrow> node tres) \<Rightarrow> 16 word \<Rightarrow> bytes \<Rightarrow> ptrie \<Rightarrow> bool" where
  "decodes_to sha dec gen rest c \<longleftrightarrow> dec (penc sha c @ rest) = TOk (load sha gen None c)"

context keccak_size
begin

lemma decodeRef_pref:
  assumes "length (rlp_enc (pref sha c) @ rest) < 2 ^ 64"
    "c = PNil \<or> (is_tree c \<and> (length (penc sha c) < 32 \<longrightarrow> decodes_to sha dec gen rest c))"
  shows "decodeRef_with dec (rlp_enc (pref sha c) @ rest) = TOk (load_ref sha gen c, rest)"
proof (cases "is_tree c")
  case False
  then have "c = PNil"
    using assms(2) by auto
  then show ?thesis
    using Split_string_kind [of "[]" rest] assms(1) by (simp add: decodeRef_with_def of_rlp_def)
next
  case tree: True
  show ?thesis
  proof (cases "32 \<le> length (penc sha c)")
    case True
    then show ?thesis
      using Split_string_kind [of "sha (penc sha c)" rest] assms(1) tree sha_length [of "penc sha c"]
      by (auto simp: decodeRef_with_def of_rlp_def pref_tree load_ref_def)
  next
    case False
    obtain vs where vs: "pval sha c = RList vs"
      using pval_tree_list [OF tree] by blast
    have e: "rlp_enc (pref sha c) = penc sha c" "rlp_enc (RList vs) = penc sha c"
      using tree False vs by (simp_all add: pref_tree penc_def)
    have "dec (penc sha c @ rest) = TOk (load sha gen None c)"
      using assms(2) tree False by (auto simp: decodes_to_def)
    then show ?thesis
      using Split_list [of vs rest] assms(1) tree False unfolding e
      by (simp add: decodeRef_with_def of_rlp_def load_ref_def)
  qed
qed

lemma decodeFull_loop_prefs:
  assumes "length (concat (map rlp_enc (map (pref sha) cs)) @ rest) < 2 ^ 64"
    "\<And>c. c \<in> set cs \<Longrightarrow> c = PNil \<or> is_tree c"
    "\<And>c rest'. c \<in> set cs \<Longrightarrow> is_tree c \<Longrightarrow>
       length (penc sha c @ rest') \<le> length (concat (map rlp_enc (map (pref sha) cs)) @ rest) \<Longrightarrow> decodes_to sha dec gen rest' c"
  shows "decodeFull_loop dec (length cs) (concat (map rlp_enc (map (pref sha) cs)) @ rest) =
    TOk (map (load_ref sha gen) cs, rest)"
  using assms
proof (induction cs)
  case (Cons c cs)
  let ?r = "concat (map rlp_enc (map (pref sha) cs)) @ rest"
  have "decodes_to sha dec gen ?r c" if "is_tree c" "length (penc sha c) < 32"
    using that Cons.prems(3) [of c ?r] by (simp add: pref_tree penc_def)
  then have "decodeRef_with dec (rlp_enc (pref sha c) @ ?r) = TOk (load_ref sha gen c, ?r)"
    using decodeRef_pref [of c ?r dec gen] Cons.prems(1) Cons.prems(2) [of c] by auto
  moreover have "decodeFull_loop dec (length cs) ?r = TOk (map (load_ref sha gen) cs, rest)"
    by (rule Cons.IH) (use Cons.prems in auto)
  ultimately show ?case
    by simp
qed simp

text \<open>Decoding the encoding of a trie in minimal form, whatever follows it in the buffer.\<close>

lemma decode_node_penc:
  assumes "minimal N" "small N" "length (penc sha N @ rest) < n" "length (penc sha N @ rest) < 2 ^ 64"
  shows "decode_node n h (penc sha N @ rest) gen = TOk (load sha gen h N)"
  using assms
proof (induction arbitrary: n h rest rule: minimal.induct)
  case (leaf k v)
  let ?vs = "[RBytes (hexToCompact k), RBytes v]"
  have pe: "penc sha (PShort k (PVal v)) = rlp_enc (RList ?vs)"
    by (simp add: penc_def)
  obtain m where n: "n = Suc m"
    using leaf.prems(2) by (cases n) auto
  have l: "length (enc_string (hexToCompact k) @ enc_string v) < 2 ^ 64"
    using leaf.prems(3) by (simp add: penc_def Let_def)
  have "SplitString (enc_string v) = ROk (v, [])"
    using SplitString_enc [of v "[]"] l by simp
  then show ?case
    using SplitString_enc [OF l] compactToHex_hexToCompact leaf.hyps(1) hasTerm_hexkey [OF leaf.hyps(1)]
      decode_node_list [of ?vs rest m h gen] leaf.prems(3)
    unfolding n pe by (simp add: decodeShort_with_def of_rlp_def loaded_flag_def Let_def del: rlp_enc.simps(5))
next
  case (ext k cs)
  let ?c = "PFull cs"
  let ?vs = "[RBytes (hexToCompact k), pref sha ?c]"
  have pe: "penc sha (PShort k ?c) = rlp_enc (RList ?vs)"
    by (simp add: penc_def)
  obtain m where n: "n = Suc m"
    using ext.prems(2) by (cases n) auto
  have l: "length (enc_string (hexToCompact k) @ rlp_enc (pref sha ?c)) < 2 ^ 64"
    using ext.prems(3) by (simp add: pe Let_def)
  have "length (rlp_enc (pref sha ?c)) < m"
    using ext.prems(2) by (simp add: pe Let_def n rlp_head_def split: if_splits)
  then have "decodes_to sha (\<lambda>b. decode_node m None b gen) gen [] ?c" if "length (penc sha ?c) < 32"
    using that ext.IH [of "[]" m None] ext.prems(1) l by (simp add: decodes_to_def pref_tree penc_def)
  then have "decodeRef_with (\<lambda>b. decode_node m None b gen) (rlp_enc (pref sha ?c)) = TOk (load_ref sha gen ?c, [])"
    using decodeRef_pref [of ?c "[]" _ gen] l by simp
  then show ?case
    using SplitString_enc [OF l] compactToHex_hexToCompact [of k] ext.hyps(1) hasTerm_nibbles [OF ext.hyps(1)]
      decode_node_list [of ?vs rest m h gen] ext.prems(3)
    unfolding n pe by (simp add: decodeShort_with_def of_rlp_def loaded_flag_def Let_def del: rlp_enc.simps(5) pval_tree)
next
  case (full cs i j)
  let ?vs = "map (pref sha) cs" and ?ds = "take 16 cs"
  have pe: "penc sha (PFull cs) = rlp_enc (RList ?vs)"
    by (simp add: penc_def)
  obtain m where n: "n = Suc m"
    using full.prems(2) by (cases n) auto
  obtain v where last: "cs = ?ds @ [cs ! 16]" "pref sha (cs ! 16) = RBytes v"
      "load_ref sha gen (cs ! 16) = (if length v > 0 then ValueNode v else NilNode)"
    using full.hyps(1,2) take_Suc_conv_app_nth [of 16 cs] by fastforce
  have elems: "concat (map rlp_enc ?vs) = concat (map rlp_enc (map (pref sha) ?ds)) @ enc_string v"
    using arg_cong [OF last(1), of "\<lambda>c. concat (map rlp_enc (map (pref sha) c))"] last(2) by simp
  have l: "length (concat (map rlp_enc (map (pref sha) ?ds)) @ enc_string v) < 2 ^ 64"
      "length (concat (map rlp_enc (map (pref sha) ?ds)) @ enc_string v) < m"
    using full.prems(2,3) unfolding elems [symmetric] by (simp_all add: pe Let_def n rlp_head_def split: if_splits)
  have child: "c = PNil \<or> minimal c \<and> (\<forall>n h rest. small c \<longrightarrow> length (penc sha c @ rest) < n \<longrightarrow>
      length (penc sha c @ rest) < 2 ^ 64 \<longrightarrow> decode_node n h (penc sha c @ rest) gen = TOk (load sha gen h c))"
    if c: "c \<in> set ?ds" for c
  proof -
    obtain i where "i < 16" "c = cs ! i"
      using c full.hyps(1) by (auto simp: in_set_conv_nth)
    then show ?thesis
      using full.IH [of i] by auto
  qed
  have "decodes_to sha (\<lambda>b. decode_node m None b gen) gen rest' c"
    if "c \<in> set ?ds" "is_tree c" "length (penc sha c @ rest') \<le> length (concat (map rlp_enc (map (pref sha) ?ds)) @ enc_string v)"
    for c rest'
  proof -
    have "small c"
      using that(1) full.prems(1) by (auto dest: in_set_takeD)
    moreover have "c \<noteq> PNil"
      using that(2) by auto
    moreover have "length (penc sha c @ rest') < m" "length (penc sha c @ rest') < 2 ^ 64"
      using that(3) l by linarith+
    ultimately show ?thesis
      using child [OF that(1)] unfolding decodes_to_def by blast
  qed
  then have "decodeFull_loop (\<lambda>b. decode_node m None b gen) (length ?ds) (concat (map rlp_enc ?vs)) =
      TOk (map (load_ref sha gen) ?ds, enc_string v)"
    unfolding elems using child minimal_is_tree l(1) by (intro decodeFull_loop_prefs) blast+
  moreover have "SplitString (enc_string v) = ROk (v, [])"
    using SplitString_enc [of v "[]"] l by simp
  moreover have "map (load_ref sha gen) cs = map (load_ref sha gen) ?ds @ [if length v > 0 then ValueNode v else NilNode]"
    using arg_cong [OF last(1), of "map (load_ref sha gen)"] last(3) by simp
  ultimately show ?case
    using decode_node_list [of ?vs rest m h gen] full.prems(3) full.hyps(1)
    unfolding n pe by (simp add: decodeFull_with_def of_rlp_def loaded_flag_def Let_def del: rlp_enc.simps(5))
qed

end

end
