(* ===== verification/Trie_Refine.thy ===== *)
theory Trie_Refine
  imports Trie_Codec
begin

text \<open>
  The operations of \<open>trie.go\<close> implement those of tries without hashes: a node in memory, with parts of
  it still in the database, represents a trie; lookup, insertion and deletion commute with that.
\<close>

section \<open>Stored tries\<close>

fun subs :: "ptrie \<Rightarrow> ptrie set" where
  "subs (PShort k c) = insert (PShort k c) (subs c)"
| "subs (PFull cs) = insert (PFull cs) (\<Union>c\<in>set cs. subs c)"
| "subs N = {}"

definition saved :: "(bytes \<Rightarrow> bytes) \<Rightarrow> node_db \<Rightarrow> bool \<Rightarrow> ptrie \<Rightarrow> bool" where
  "saved sha db r N \<longleftrightarrow>
     (\<forall>M\<in>subs N. 32 \<le> length (penc sha M) \<longrightarrow> db (sha (penc sha M)) = Some (penc sha M)) \<and>
     (r \<longrightarrow> db (sha (penc sha N)) = Some (penc sha N))"

definition ok_flag :: "(bytes \<Rightarrow> bytes) \<Rightarrow> node_db \<Rightarrow> bool \<Rightarrow> nodeFlag \<Rightarrow> ptrie \<Rightarrow> bool" where
  "ok_flag sha db r f N \<longleftrightarrow>
     (\<forall>h. fl_hash f = Some h \<longrightarrow> h = sha (penc sha N) \<and> (r \<or> 32 \<le> length (penc sha N))) \<and>
     (\<not> fl_dirty f \<longrightarrow> saved sha db r N)"

text \<open>\<open>rep r n N\<close>: the node \<open>n\<close> stands for \<open>N\<close>; \<open>r\<close> marks the root, which is hashed and stored whatever its size.\<close>

inductive rep :: "(bytes \<Rightarrow> bytes) \<Rightarrow> node_db \<Rightarrow> bool \<Rightarrow> node \<Rightarrow> ptrie \<Rightarrow> bool" for sha db where
  nil: "rep sha db r NilNode PNil"
| val: "rep sha db r (ValueNode v) (PVal v)"
| short: "rep sha db False n N \<Longrightarrow> ok_flag sha db r f (PShort k N) \<Longrightarrow> rep sha db r (ShortNode k n f) (PShort k N)"
| full: "length ns = length Ns \<Longrightarrow> (\<And>i. i < length Ns \<Longrightarrow> rep sha db False (ns ! i) (Ns ! i)) \<Longrightarrow>
    ok_flag sha db r f (PFull Ns) \<Longrightarrow> rep sha db r (FullNode ns f) (PFull Ns)"
| hash: "is_tree N \<Longrightarrow> r \<or> 32 \<le> length (penc sha N) \<Longrightarrow> saved sha db r N \<Longrightarrow> rep sha db r (HashNode (sha (penc sha N))) N"

inductive_cases rep_NilE [elim!]: "rep sha db r NilNode N"
inductive_cases rep_ValueE [elim!]: "rep sha db r (ValueNode v) N"
inductive_cases rep_ShortE: "rep sha db r (ShortNode k n f) N"
inductive_cases rep_FullE: "rep sha db r (FullNode ns f) N"
inductive_cases rep_HashE: "rep sha db r (HashNode h) N"
inductive_cases rep_PNilE [elim!]: "rep sha db r n PNil"
inductive_cases rep_PValE [elim!]: "rep sha db r n (PVal v)"

fun is_hash :: "node \<Rightarrow> bool" where
  "is_hash (HashNode h) = True"
| "is_hash n = False"

lemma rep_nil_iff: "rep sha db r n N \<Longrightarrow> n = NilNode \<longleftrightarrow> N = PNil"
  by (auto elim: rep.cases)

lemma rep_PNil [simp]: "rep sha db r n PNil \<longleftrightarrow> n = NilNode"
  by (auto intro: rep.nil elim: rep.cases)

lemma rep_PVal [simp]: "rep sha db r n (PVal v) \<longleftrightarrow> n = ValueNode v"
  by (auto intro: rep.val elim: rep.cases)

lemma rep_PShort: "rep sha db r n (PShort k N) \<Longrightarrow> \<not> is_hash n \<Longrightarrow>
    \<exists>c f. n = ShortNode k c f \<and> rep sha db False c N \<and> ok_flag sha db r f (PShort k N)"
  by (auto elim: rep.cases)

lemma rep_PFull: "rep sha db r n (PFull Ns) \<Longrightarrow> \<not> is_hash n \<Longrightarrow>
    \<exists>ns f. n = FullNode ns f \<and> length ns = length Ns \<and> (\<forall>i<length Ns. rep sha db False (ns ! i) (Ns ! i)) \<and>
      ok_flag sha db r f (PFull Ns)"
  by (auto elim: rep.cases)

lemma ok_newFlag [simp]: "ok_flag sha db r (newFlag gen) N"
  by (simp add: ok_flag_def newFlag_def)

lemma ok_flag_gen [simp]: "ok_flag sha db r (f\<lparr>fl_gen := g\<rparr>) N = ok_flag sha db r f N"
  by (simp add: ok_flag_def)

lemma saved_short: "saved sha db r (PShort k c) \<Longrightarrow> saved sha db False c"
  by (auto simp: saved_def)

lemma saved_full: "saved sha db r (PFull cs) \<Longrightarrow> c \<in> set cs \<Longrightarrow> saved sha db False c"
  by (auto simp: saved_def)

lemma subs_self: "is_tree N \<Longrightarrow> N \<in> subs N"
  by (cases N) auto

lemma saved_lookup:
  "saved sha db r N \<Longrightarrow> is_tree N \<Longrightarrow> r \<or> 32 \<le> length (penc sha N) \<Longrightarrow> db (sha (penc sha N)) = Some (penc sha N)"
  using subs_self by (auto simp: saved_def)

lemma ok_loaded_flag:
  assumes "saved sha db r N" "h = None \<or> (h = Some (sha (penc sha N)) \<and> (r \<or> 32 \<le> length (penc sha N)))"
  shows "ok_flag sha db r (loaded_flag gen h) N"
  using assms by (auto simp: ok_flag_def loaded_flag_def)

lemma rep_load_ref:
  assumes "saved sha db False c" "rep sha db False (load sha gen None c) c"
  shows "rep sha db False (load_ref sha gen c) c"
  using assms rep.hash [of c False] by (auto simp: load_ref_def)

lemma rep_load:
  assumes "minimal N" "saved sha db r N" "h = None \<or> (h = Some (sha (penc sha N)) \<and> (r \<or> 32 \<le> length (penc sha N)))"
  shows "rep sha db r (load sha gen h N) N"
  using assms
proof (induction arbitrary: r h rule: minimal.induct)
  case (leaf k v)
  then show ?case
    by (simp add: rep.short ok_loaded_flag)
next
  case (ext k cs)
  have "rep sha db False (load_ref sha gen (PFull cs)) (PFull cs)"
    using ext.IH [of False None] saved_short [OF ext.prems(1)] by (auto intro: rep_load_ref)
  then show ?case
    using ext.prems by (simp add: rep.short ok_loaded_flag del: load_tree(2))
next
  case (full cs i j)
  have "rep sha db False (load_ref sha gen (cs ! n)) (cs ! n)" if "n < 17" for n
  proof (cases "n < 16")
    case True
    have "saved sha db False (cs ! n)"
      using full.prems(1) full.hyps(1) that by (auto intro: saved_full)
    then show ?thesis
      using full.IH [OF True] by (auto intro: rep_load_ref)
  next
    case False
    then have "n = 16"
      using that by simp
    then show ?thesis
      using full.hyps(2) by auto
  qed
  then show ?case
    using full.prems full.hyps(1) by (auto intro!: rep.full ok_loaded_flag)
qed

lemma preduce_minimal: "minimal (PFull cs) \<Longrightarrow> preduce cs = PFull cs"
proof -
  assume "minimal (PFull cs)"
  then obtain i j where ij: "length cs = 17" "i < 17" "j < 17" "i \<noteq> j" "cs ! i \<noteq> PNil" "cs ! j \<noteq> PNil"
    by (auto elim!: minimal_PFullE)
  then have "i < length cs"
    by simp
  then show ?thesis
    using ij(5)
  proof (cases rule: preduce_cases)
    case (one n)
    then show ?thesis
      using ij by (metis)
  qed
qed

section \<open>The scan for a single child\<close>

lemma single_child_used: "p \<ge> 0 \<Longrightarrow> single_child cs k p = (if \<forall>c\<in>set cs. c = NilNode then p else - 2)"
  by (induction cs arbitrary: k) auto

lemma single_child_one:
  assumes "k \<ge> 0" "i < length cs" "cs ! i \<noteq> NilNode" "\<And>j. j < length cs \<Longrightarrow> j \<noteq> i \<Longrightarrow> cs ! j = NilNode"
  shows "single_child cs k (- 1) = k + int i"
  using assms
proof (induction cs arbitrary: k i)
  case (Cons c cs)
  show ?case
  proof (cases i)
    case 0
    have "\<forall>c\<in>set cs. c = NilNode"
    proof
      fix d
      assume "d \<in> set cs"
      then obtain j where "j < length cs" "d = cs ! j"
        by (auto simp: in_set_conv_nth)
      then show "d = NilNode"
        using Cons.prems(4) [of "Suc j"] 0 by simp
    qed
    then show ?thesis
      using Cons.prems 0 by (simp add: single_child_used)
  next
    case (Suc n)
    have "cs ! j = NilNode" if "j < length cs" "j \<noteq> n" for j
      using Cons.prems(4) [of "Suc j"] that Suc by simp
    then have "single_child cs (k + 1) (- 1) = k + 1 + int n"
      using Cons.prems Suc by (intro Cons.IH) auto
    moreover have "c = NilNode"
      using Cons.prems(4) [of 0] Suc by simp
    ultimately show ?thesis
      using Suc by simp
  qed
qed simp

lemma single_child_two:
  assumes "k \<ge> 0" "i < length cs" "j < length cs" "i < j" "cs ! i \<noteq> NilNode" "cs ! j \<noteq> NilNode"
  shows "single_child cs k (- 1) = - 2"
  using assms
proof (induction cs arbitrary: k i j)
  case (Cons c cs)
  obtain j' where j: "j = Suc j'"
    using Cons.prems(4) by (cases j) auto
  show ?case
  proof (cases "c = NilNode")
    case True
    then obtain i' where i: "i = Suc i'"
      using Cons.prems(5) by (cases i) auto
    have "single_child cs (k + 1) (- 1) = - 2"
      by (rule Cons.IH [of _ i' j']) (use Cons.prems i j in auto)
    then show ?thesis
      using True by simp
  next
    case False
    have "cs ! j' \<in> set cs" "cs ! j' \<noteq> NilNode"
      using Cons.prems j by auto
    then show ?thesis
      using False Cons.prems(1) by (auto simp: single_child_used)
  qed
qed simp

text \<open>What \<open>delete\<close> makes of a full node after the deletion in a child.\<close>

definition reduce :: "node_db \<Rightarrow> 16 word \<Rightarrow> bytes \<Rightarrow> node list \<Rightarrow> (bool \<times> node) tres" where
  "reduce db gen prefix cs' =
    (let pos = single_child cs' 0 (- 1) in
     if pos \<ge> 0 then
       (let one = TOk (True, ShortNode [of_int pos] (cs' ! nat pos) (newFlag gen)) in
        if pos \<noteq> 16 then
          tbind (resolve db gen (cs' ! nat pos) prefix) (\<lambda>cnode.
            case cnode of
              ShortNode ck cv cf \<Rightarrow> TOk (True, ShortNode (of_int pos # ck) cv (newFlag gen))
            | _ \<Rightarrow> one)
        else one)
     else TOk (True, FullNode cs' (newFlag gen)))"

lemma t_delete_full: "t_delete db gen (Suc m) (FullNode cs f) prefix (x # xs) =
    tbind (child cs x) (\<lambda>c. tbind (t_delete db gen m c (prefix @ [x]) xs) (\<lambda>(dirty, nn).
      if \<not> dirty then TOk (False, FullNode cs f) else tbind (set_child cs x nn) (reduce db gen prefix)))"
  by (simp add: reduce_def [abs_def] cong: if_cong)

section \<open>Lookup, insertion and deletion\<close>

lemma drop_eq_Cons: "drop i xs = y # ys \<Longrightarrow> i < length xs \<and> xs ! i = y \<and> drop (Suc i) xs = ys"
proof -
  assume d: "drop i xs = y # ys"
  then have "i < length xs"
    by (rule contrapos_pp) simp
  then show ?thesis
    using d Cons_nth_drop_Suc [of i xs] by simp
qed

context keccak_size
begin

lemma resolveHash_rep:
  assumes "rep sha db r (HashNode h) N" "minimal N" "small N"
  shows "\<exists>n. resolveHash db gen h p = TOk n \<and> rep sha db r n N \<and> \<not> is_hash n"
proof -
  from assms(1) have h: "h = sha (penc sha N)" "r \<or> 32 \<le> length (penc sha N)" "saved sha db r N"
    using minimal_is_tree [OF assms(2)] by (auto elim: rep_HashE)
  then have "db h = Some (penc sha N)"
    using saved_lookup minimal_is_tree [OF assms(2)] by blast
  moreover have "decodeNode (Some h) (penc sha N) gen = TOk (load sha gen (Some h) N)"
    using decode_node_penc [OF assms(2,3), of "[]"] length_penc [OF assms(3)]
    by (simp add: decodeNode_def del: decode_node.simps)
  ultimately have "resolveHash db gen h p = TOk (load sha gen (Some h) N)"
    by (simp add: resolveHash_def mustDecodeNode_def)
  moreover have "\<not> is_hash (load sha gen (Some h) N)"
    using assms(2) by (cases N) auto
  ultimately show ?thesis
    using rep_load [OF assms(2) h(3), of "Some h" gen] h by blast
qed

lemma at_key_hash: "rep sha db r (HashNode h) N \<Longrightarrow> at_key N k \<Longrightarrow> minimal N \<and> hexkey k"
  by (auto simp: at_key_def wf0_def elim!: rep_HashE)

lemma tryGet_rep:
  assumes "rep sha db r n N" "at_key N (drop pos key)" "small N" "pos \<le> length key"
    "2 * length (drop pos key) + (if is_hash n then 2 else 1) \<le> m"
  shows "\<exists>n' did. tryGet db gen m n key pos = TOk (pget N (drop pos key), n', did) \<and> rep sha db r n' N \<and> (\<not> did \<longrightarrow> n' = n)"
  using assms
proof (induction m arbitrary: r n N pos)
  case (Suc m)
  from Suc.prems(1) show ?case
  proof (cases rule: rep.cases)
    case (short c C f k)
    have w: "hexkey (drop pos key)" "minimal (PShort k C)"
      using Suc.prems(2) by (auto simp: short at_key_def wf0_def)
    show ?thesis
    proof (cases "take (length k) (drop pos key) = k")
      case False
      then show ?thesis
        using Suc.prems(1) by (auto simp: short subslice_def)
    next
      case True
      have len: "pos + length k \<le> length key" "k \<noteq> []"
        using arg_cong [OF True, of length] w(2) Suc.prems(4) by (auto elim: minimal_short)
      have at: "at_key C (drop (length k) (drop pos key))"
        using w(2)
      proof (cases rule: minimal_short)
        case (leaf v)
        then have "drop pos key = k"
          using hexkey_prefix_free [OF leaf(1) w(1) True] by simp
        then show ?thesis
          using leaf by (auto simp: at_key_def)
      next
        case (ext cs)
        then show ?thesis
          using hexkey_after [OF ext(1) w(1) True] by (simp add: at_key_def wf0_def)
      qed
      have "2 * length (drop (pos + length k) key) + (if is_hash c then 2 else 1) \<le> m"
        using Suc.prems(5) len by (cases k) (auto simp: short)
      then obtain n' did where "tryGet db gen m c key (pos + length k) = TOk (pget C (drop (pos + length k) key), n', did)"
          "rep sha db False n' C" "\<not> did \<longrightarrow> n' = c"
        using Suc.IH [OF short(3), of "pos + length k"] at Suc.prems(3,4) len by (auto simp: short add.commute)
      then show ?thesis
        using True len Suc.prems(1) short(4)
        by (auto simp: short subslice_def add.commute not_less intro: rep.short)
    qed
  next
    case (full ns Ns f)
    obtain x xs where key: "drop pos key = x # xs" "hexkey (x # xs)" and w: "minimal (PFull Ns)"
      using Suc.prems(2) by (cases "drop pos key") (auto simp: full at_key_def wf0_def)
    have pos: "pos < length key" "key ! pos = x" "drop (Suc pos) key = xs"
      using drop_eq_Cons [OF key(1)] by blast+
    note ch = minimal_full_child [OF w key(2)]
    have small: "small (Ns ! unat x)"
      using Suc.prems(3) ch by (auto simp: full)
    have "2 * length xs + (if is_hash (ns ! unat x) then 2 else 1) \<le> m"
      using Suc.prems(5) by (auto simp: full key(1))
    then obtain n' did where "tryGet db gen m (ns ! unat x) key (Suc pos) = TOk (pget (Ns ! unat x) xs, n', did)"
        "rep sha db False n' (Ns ! unat x)" "\<not> did \<longrightarrow> n' = ns ! unat x"
      using Suc.IH [OF full(4), of "unat x" "Suc pos"] ch small pos full(3) by auto
    then show ?thesis
      using ch pos key(1) full Suc.prems(1)
      by (auto simp: child_def set_child_def nth_list_update_if not_le intro!: rep.full)
  next
    case (hash)
    have w: "minimal N" "hexkey (drop pos key)"
      using at_key_hash Suc.prems(1,2) hash(1) by blast+
    obtain c where c: "resolveHash db gen (sha (penc sha N)) (take pos key) = TOk c" "rep sha db r c N" "\<not> is_hash c"
      using resolveHash_rep [OF _ w(1) Suc.prems(3)] Suc.prems(1) hash(1) by metis
    obtain n' did where "tryGet db gen m c key pos = TOk (pget N (drop pos key), n', did)" "rep sha db r n' N"
      using Suc.IH [OF c(2) Suc.prems(2,3,4)] Suc.prems(5) c(3) hash(1) by auto
    then show ?thesis
      using c(1) hash(1) by auto
  qed (use Suc.prems in \<open>auto simp: at_key_def wf0_def\<close>)
qed (auto split: if_splits)

lemma t_insert_nil: "t_insert db gen (Suc m) NilNode prefix key val =
    TOk (True, if key = [] then val else ShortNode key val (newFlag gen))"
  by simp

lemma rep_pleaf: "rep sha db False c C \<Longrightarrow>
    rep sha db False (if k = [] then c else ShortNode k c (newFlag gen)) (pleaf k C)"
  by (auto simp: pleaf_def intro: rep.short)

lemma t_insert_branch:
  assumes "rep sha db False c C" "hexkey (p @ y # ys)" "x \<le> 16" "x \<noteq> y" "0 < m"
  shows "\<exists>n'. t_insert db gen (Suc m) (ShortNode (p @ x # xs) c f) prefix (p @ y # ys) (ValueNode v) = TOk (True, n') \<and>
    rep sha db r n' (pbranch (p @ x # xs) C (p @ y # ys) (PVal v))"
proof -
  obtain j where m: "m = Suc j"
    using assms(5) by (cases m) auto
  have xy: "unat x < 17" "unat y < 17"
    using assms(2,3) by (auto simp: hexkey_append intro!: unat_index)
  let ?a = "if xs = [] then c else ShortNode xs c (newFlag gen)"
  let ?b = "if ys = [] then ValueNode v else ShortNode ys (ValueNode v) (newFlag gen)"
  let ?ns = "(replicate 17 NilNode)[unat x := ?a, unat y := ?b]"
  have "rep sha db r' (FullNode ?ns (newFlag gen))
      (PFull ((replicate 17 PNil)[unat x := pleaf xs C, unat y := pleaf ys (PVal v)]))" for r'
    using rep_pleaf [OF assms(1), of xs gen] rep_pleaf [of db "ValueNode v" "PVal v" ys gen]
    by (intro rep.full) (auto simp: nth_list_update_if)
  then show ?thesis
    unfolding pbranch_split [OF assms(4)] m t_insert.simps(2) [of db gen "Suc j" "ShortNode (p @ x # xs) c f"]
    using xy assms(4)
    by (simp add: prefixLen_split nth_append set_child_def pext_def Let_def t_insert_nil rep.short del: t_insert.simps)
qed

text \<open>The shape of a result: unchanged, or a new node.\<close>

lemma changed_or_same:
  assumes "t = TOk (if d then (True, x) else (False, y))" "d \<Longrightarrow> rep sha db r x P" "rep sha db r y N" "\<not> d \<longrightarrow> P = N"
  shows "\<exists>n' d. t = TOk (d, n') \<and> rep sha db r n' P \<and> (\<not> d \<longrightarrow> P = N)"
  using assms by (cases d) auto

lemma rep_full_update:
  assumes "length ns = length Ns" "\<And>i. i < length Ns \<Longrightarrow> rep sha db False (ns ! i) (Ns ! i)" "rep sha db False n P"
  shows "rep sha db r (FullNode (ns[i := n]) (newFlag gen)) (PFull (Ns[i := P]))"
  using assms by (intro rep.full) (auto simp: nth_list_update_if)

lemma t_insert_rep:
  assumes "rep sha db r n N" "at_key N key" "small N" "v \<noteq> []"
    "2 * length key + (if is_hash n then 2 else 1) \<le> m"
  shows "\<exists>n' d. t_insert db gen m n prefix key (ValueNode v) = TOk (d, n') \<and> rep sha db r n' (pinsert N key (PVal v)) \<and>
    (\<not> d \<longrightarrow> pinsert N key (PVal v) = N)"
  using assms
proof (induction m arbitrary: r n N key prefix)
  case (Suc m)
  from Suc.prems(1) show ?case
  proof (cases rule: rep.cases)
    case nil
    then show ?thesis
      by (auto simp add: t_insert_nil pleaf_def rep.short simp del: t_insert.simps)
  next
    case (val w)
    then have "key = []"
      using Suc.prems(2) by (auto simp: at_key_def wf0_def)
    then show ?thesis
      by (auto simp: val)
  next
    case (short c C f k)
    have w: "hexkey key" "minimal (PShort k C)"
      using Suc.prems(2) by (auto simp: short at_key_def wf0_def)
    then have ne: "key \<noteq> []" "k \<noteq> []"
      by (auto elim: minimal_short)
    show ?thesis
    proof (cases "take (length k) key = k")
      case False
      then obtain p x xs y ys where s: "key = p @ y # ys" "k = p @ x # xs" "x \<noteq> y"
        using split_keys [of key k] w by (blast elim: minimal_PShortE)
      have "x \<le> 16"
        using w(2) s(2) by (auto elim!: minimal_PShortE simp: hexkey_append)
      moreover have "0 < m"
        using Suc.prems(5) ne by (auto simp: s(1) short)
      ultimately obtain n' where "t_insert db gen (Suc m) n prefix key (ValueNode v) = TOk (True, n')"
          "rep sha db r n' (pbranch k C key (PVal v))"
        using t_insert_branch [OF short(3), of p y ys x m gen xs f prefix v r] w(1) s short(1) by metis
      then show ?thesis
        using False ne by (auto simp: short)
    next
      case True
      have len: "length k \<le> length key" "prefixLen key k = length k"
        using prefixLen_full [of key k] prefixLen_le [of key k] True by auto
      have "2 * length (drop (length k) key) + (if is_hash c then 2 else 1) \<le> m"
        using Suc.prems(5) ne(2) len by (cases k) (auto simp: short)
      then obtain n' d where r: "t_insert db gen m c (prefix @ k) (drop (length k) key) (ValueNode v) = TOk (d, n')"
          "rep sha db False n' (pinsert C (drop (length k) key) (PVal v))"
          "\<not> d \<longrightarrow> pinsert C (drop (length k) key) (PVal v) = C"
        using Suc.IH [OF short(3) at_key_short_child [OF w(2,1) True], of "prefix @ k"] Suc.prems(3,4) short(2) by auto
      have "t_insert db gen (Suc m) n prefix key (ValueNode v) =
          TOk (if d then (True, ShortNode k n' (newFlag gen)) else (False, n))"
        using True ne len r(1) by (simp add: short(1) Let_def)
      moreover have p: "pinsert N key (PVal v) = PShort k (pinsert C (drop (length k) key) (PVal v))"
        using True ne by (simp add: short(2))
      moreover have "rep sha db r (ShortNode k n' (newFlag gen)) (PShort k (pinsert C (drop (length k) key) (PVal v)))"
        using r(2) by (simp add: rep.short)
      ultimately show ?thesis
        unfolding p using r(3) short(2) by (intro changed_or_same [OF _ _ Suc.prems(1)]) simp_all
    qed
  next
    case (full ns Ns f)
    obtain x xs where key: "key = x # xs" "hexkey (x # xs)" and w: "minimal (PFull Ns)"
      using Suc.prems(2) by (cases key) (auto simp: full at_key_def wf0_def)
    note ch = minimal_full_child [OF w key(2)]
    have small: "small (Ns ! unat x)"
      using Suc.prems(3) ch by (auto simp: full)
    have "2 * length xs + (if is_hash (ns ! unat x) then 2 else 1) \<le> m"
      using Suc.prems(5) by (auto simp: full key(1))
    then obtain n' d where r: "t_insert db gen m (ns ! unat x) (prefix @ [x]) xs (ValueNode v) = TOk (d, n')"
        "rep sha db False n' (pinsert (Ns ! unat x) xs (PVal v))" "\<not> d \<longrightarrow> pinsert (Ns ! unat x) xs (PVal v) = Ns ! unat x"
      using Suc.IH [OF full(4), of "unat x" xs "prefix @ [x]"] ch small Suc.prems(4) by auto
    let ?P = "PFull (Ns[unat x := pinsert (Ns ! unat x) xs (PVal v)])"
    have t: "t_insert db gen (Suc m) n prefix key (ValueNode v) =
        TOk (if d then (True, FullNode (ns[unat x := n']) (newFlag gen)) else (False, n))"
      using r(1) ch full(3) by (simp add: full(1) key child_def set_child_def)
    have "rep sha db r (FullNode (ns[unat x := n']) (newFlag gen)) ?P"
      using rep_full_update r(2) full(3,4) by blast
    moreover have p: "pinsert N key (PVal v) = ?P"
      using ch by (simp add: full(2) key)
    ultimately show ?thesis
      unfolding p using r(3) full(2) by (intro changed_or_same [OF t _ Suc.prems(1)]) simp_all
  next
    case hash
    have w: "minimal N" "hexkey key"
      using at_key_hash Suc.prems(1,2) hash(1) by blast+
    obtain c where c: "resolveHash db gen (sha (penc sha N)) prefix = TOk c" "rep sha db r c N" "\<not> is_hash c"
      using resolveHash_rep [OF _ w(1) Suc.prems(3)] Suc.prems(1) hash(1) by metis
    obtain n' d where "t_insert db gen m c prefix key (ValueNode v) = TOk (d, n')"
        "rep sha db r n' (pinsert N key (PVal v))" "\<not> d \<longrightarrow> pinsert N key (PVal v) = N"
      using Suc.IH [OF c(2) Suc.prems(2,3,4), of prefix] Suc.prems(5) c(3) hash(1) by auto
    then show ?thesis
      using c hash(1) w(2) hexkey_not_Nil [OF w(2)] by (cases d) auto
  qed
qed (auto split: if_splits)

lemma resolve_rep:
  assumes "rep sha db False n N" "minimal N" "is_hash n \<longrightarrow> small N"
  shows "\<exists>c. resolve db gen n p = TOk c \<and> rep sha db False c N \<and> \<not> is_hash c"
proof (cases "is_hash n")
  case True
  then obtain h where "n = HashNode h"
    by (cases n) auto
  then show ?thesis
    using resolveHash_rep [of db False h N gen p] assms by (auto simp: resolve_def)
next
  case False
  then have "resolve db gen n p = TOk n"
    by (cases n) (auto simp: resolve_def)
  then show ?thesis
    using False assms(1) by blast
qed

lemma reduce_one:
  assumes "rep sha db False n N" "slot (of_nat i) N" "i < 17" "is_hash n \<longrightarrow> small N"
    "cs ! i = n" "single_child cs 0 (- 1) = int i"
  shows "\<exists>n'. reduce db gen p cs = TOk (True, n') \<and> rep sha db r n' (pjoin [of_nat i] N)"
proof (cases "i = 16")
  case True
  then obtain v where "N = PVal v"
    using assms(2) by (auto simp: slot_def)
  then show ?thesis
    using assms True by (auto simp: reduce_def intro: rep.short)
next
  case False
  then have w: "minimal N"
    using assms(2,3) by (auto simp: slot_def word_unat_eq_iff unat_of_nat)
  obtain c where c: "resolve db gen n p = TOk c" "rep sha db False c N" "\<not> is_hash c"
    using resolve_rep [OF assms(1) w assms(4)] by blast
  have one: "rep sha db r (ShortNode [of_nat i] n (newFlag gen)) (PShort [of_nat i] N)"
    using assms(1) by (simp add: rep.short)
  show ?thesis
  proof (cases N)
    case (PShort k C)
    then obtain d f where "c = ShortNode k d f" "rep sha db False d C"
      using rep_PShort c(2,3) by blast
    then show ?thesis
      using c(1) assms(5,6) False PShort by (auto simp: reduce_def intro: rep.short)
  next
    case (PFull Ns)
    then obtain ns f where "c = FullNode ns f"
      using rep_PFull c(2,3) by blast
    then show ?thesis
      using c(1) assms(5,6) False PFull one by (auto simp: reduce_def)
  qed (use w in auto)
qed

lemma reduce_rep:
  assumes "length ns = 17" "length Ns = 17" "\<And>i. i < 17 \<Longrightarrow> rep sha db False (ns ! i) (Ns ! i)"
    "\<And>i. i < 17 \<Longrightarrow> Ns ! i = PNil \<or> slot (of_nat i) (Ns ! i)" "\<And>i. i < 17 \<Longrightarrow> is_hash (ns ! i) \<longrightarrow> small (Ns ! i)"
    "i0 < 17" "Ns ! i0 \<noteq> PNil"
  shows "\<exists>n'. reduce db gen p ns = TOk (True, n') \<and> rep sha db r n' (preduce Ns)"
proof -
  have nil: "ns ! i = NilNode \<longleftrightarrow> Ns ! i = PNil" if "i < 17" for i
    using rep_nil_iff assms(3) that by blast
  have "i0 < length Ns"
    using assms by simp
  then show ?thesis
    using assms(7)
  proof (cases rule: preduce_cases)
    case (one i)
    have "single_child ns 0 (- 1) = 0 + int i"
      by (rule single_child_one) (use one assms(1,2) nil in auto)
    then show ?thesis
      using reduce_one [of db "ns ! i" "Ns ! i" i ns gen p r] one assms(2-5) by auto
  next
    case (more i j)
    have "single_child ns 0 (- 1) = - 2"
      by (rule single_child_two [of _ "min i j" _ "max i j"])
         (use more assms(1,2) nil in \<open>auto simp: min_def max_def\<close>)
    moreover have "rep sha db r (FullNode ns (newFlag gen)) (PFull Ns)"
      using assms(1-3) by (intro rep.full) auto
    ultimately show ?thesis
      using more(6) by (simp add: reduce_def)
  qed
qed

lemma changed_or_same_node:
  assumes "t = TOk (if d then (True, x) else (False, y))" "rep sha db r x P" "rep sha db r y N" "\<not> d \<longrightarrow> P = N"
    "\<not> is_hash x" "\<not> is_hash y"
  shows "\<exists>n' d. t = TOk (d, n') \<and> rep sha db r n' P \<and> (\<not> d \<longrightarrow> P = N) \<and> \<not> is_hash n'"
  using assms by (cases d) auto

lemma rep_pjoin:
  assumes "rep sha db False n N" "\<not> is_hash n"
  shows "rep sha db r (case n of ShortNode k' v' f' \<Rightarrow> ShortNode (k @ k') v' (newFlag gen) | _ \<Rightarrow> ShortNode k n (newFlag gen))
    (pjoin k N)"
  using assms by (cases rule: rep.cases) (auto intro!: rep.short rep.full)

lemma slot_full_child: "minimal (PFull cs) \<Longrightarrow> i < 17 \<Longrightarrow> cs ! i = PNil \<or> slot (of_nat i) (cs ! i)"
proof -
  assume w: "minimal (PFull cs)" and i: "i < 17"
  show ?thesis
    using w i by (cases "i < 16") (auto elim!: minimal_PFullE simp: slot_def unat_nibble unat_of_nat not_less le_eq_less_or_eq)
qed

lemma slot_pdelete:
  assumes "minimal (PFull cs)" "hexkey (x # xs)"
  shows "pdelete (cs ! unat x) xs = PNil \<or> slot x (pdelete (cs ! unat x) xs)"
proof -
  have "at_key (cs ! unat x) xs"
    using minimal_full_child [OF assms] by blast
  then show ?thesis
    using pdelete_minimal [of "cs ! unat x" xs] assms(2) by (auto simp: slot_def wf0_def split: if_splits)
qed

lemma t_delete_rep:
  assumes "rep sha db r n N" "at_key N key" "small N" "2 * length key + (if is_hash n then 2 else 1) \<le> m"
  shows "\<exists>n' d. t_delete db gen m n prefix key = TOk (d, n') \<and> rep sha db r n' (pdelete N key) \<and>
    (\<not> d \<longrightarrow> pdelete N key = N) \<and> \<not> is_hash n'"
  using assms
proof (induction m arbitrary: r n N key prefix)
  case (Suc m)
  from Suc.prems(1) show ?case
  proof (cases rule: rep.cases)
    case nil
    then show ?thesis
      by auto
  next
    case (val w)
    then show ?thesis
      by auto
  next
    case (short c C f k)
    have w: "hexkey key" "minimal (PShort k C)"
      using Suc.prems(2) by (auto simp: short at_key_def wf0_def)
    have pl: "prefixLen key k < length k \<longleftrightarrow> take (length k) key \<noteq> k"
      using prefixLen_full [of key k] prefixLen_le [of key k] by linarith
    show ?thesis
    proof (cases "take (length k) key = k \<and> length key \<noteq> length k")
      case False
      then show ?thesis
        using pl prefixLen_full [of key k] Suc.prems(1) by (auto simp: short Let_def)
    next
      case True
      have len: "length k < length key" "prefixLen key k = length k"
        using prefixLen_full [of key k] prefixLen_le [of key k] True by auto
      obtain cs where C: "nibbles k" "k \<noteq> []" "C = PFull cs" "minimal C"
        using w(2) by (cases rule: minimal_short) (use True hexkey_prefix_free w(1) in auto)
      have "2 * length (drop (length k) key) + (if is_hash c then 2 else 1) \<le> m"
        using Suc.prems(4) C(2) len by (cases k) (auto simp: short)
      then obtain n' d where r: "t_delete db gen m c (prefix @ k) (drop (length k) key) = TOk (d, n')"
          "rep sha db False n' (pdelete C (drop (length k) key))" "\<not> d \<longrightarrow> pdelete C (drop (length k) key) = C" "\<not> is_hash n'"
        using Suc.IH [OF short(3) at_key_short_child [OF w(2,1)], of "prefix @ k"] True Suc.prems(3) short(2) by auto
      let ?P = "pjoin k (pdelete C (drop (length k) key))"
      let ?n = "case n' of ShortNode k' v' f' \<Rightarrow> ShortNode (k @ k') v' (newFlag gen) | _ \<Rightarrow> ShortNode k n' (newFlag gen)"
      have p: "pdelete N key = ?P"
        using True by (simp add: short(2))
      have t: "t_delete db gen (Suc m) n prefix key = TOk (if d then (True, ?n) else (False, n))"
        using True len r(1) by (auto simp: short(1) Let_def split: node.splits)
      have "\<not> is_hash ?n"
        by (cases n') auto
      moreover have "\<not> d \<longrightarrow> ?P = N"
        using r(3) C(3) short(2) by auto
      moreover have "\<not> is_hash n"
        by (simp add: short(1))
      ultimately show ?thesis
        unfolding p by (intro changed_or_same_node [OF t rep_pjoin [OF r(2,4)] Suc.prems(1)])
    qed
  next
    case (full ns Ns f)
    obtain x xs where key: "key = x # xs" "hexkey (x # xs)" and w: "minimal (PFull Ns)"
      using Suc.prems(2) by (cases key) (auto simp: full at_key_def wf0_def)
    note ch = minimal_full_child [OF w key(2)]
    have sm: "length Ns = 17" "\<And>i. i < 17 \<Longrightarrow> small (Ns ! i)"
      using Suc.prems(3) by (auto simp: full(2))
    have "2 * length xs + (if is_hash (ns ! unat x) then 2 else 1) \<le> m"
      using Suc.prems(4) by (auto simp: full key(1))
    then obtain n' d where r: "t_delete db gen m (ns ! unat x) (prefix @ [x]) xs = TOk (d, n')"
        "rep sha db False n' (pdelete (Ns ! unat x) xs)" "\<not> d \<longrightarrow> pdelete (Ns ! unat x) xs = Ns ! unat x" "\<not> is_hash n'"
      using Suc.IH [OF full(4), of "unat x" xs "prefix @ [x]"] ch sm by auto
    let ?Ms = "Ns[unat x := pdelete (Ns ! unat x) xs]"
    have p: "pdelete N key = preduce ?Ms"
      using ch by (simp add: full(2) key)
    obtain i0 where i0: "i0 < 17" "?Ms ! i0 \<noteq> PNil"
      using w by (metis minimal_full nth_list_update_neq)
    have "\<exists>n2. reduce db gen prefix (ns[unat x := n']) = TOk (True, n2) \<and> rep sha db r n2 (preduce ?Ms)"
    proof (rule reduce_rep [OF _ _ _ _ _ i0])
      show "?Ms ! i = PNil \<or> slot (of_nat i) (?Ms ! i)" if "i < 17" for i
        using slot_pdelete [OF w key(2)] slot_full_child [OF w that] by (cases "i = unat x") (auto simp: sm(1) that nth_list_update_if)
    qed (use r full(3,4) sm in \<open>auto simp: nth_list_update_if\<close>)
    then obtain n2 where n2: "reduce db gen prefix (ns[unat x := n']) = TOk (True, n2)" "rep sha db r n2 (preduce ?Ms)"
      by blast
    have t: "t_delete db gen (Suc m) n prefix key = TOk (if d then (True, n2) else (False, n))"
      using r(1) ch full(3) n2(1) by (simp add: full(1) key t_delete_full child_def set_child_def del: t_delete.simps)
    have nh: "\<not> is_hash n2"
      using n2(1) by (auto simp: reduce_def Let_def split: if_splits node.splits elim!: tbind.elims)
    have "\<not> d \<longrightarrow> preduce ?Ms = N"
      using r(3) preduce_minimal [OF w] full(2) by auto
    moreover have "\<not> is_hash n"
      by (simp add: full(1))
    ultimately show ?thesis
      unfolding p using nh by (intro changed_or_same_node [OF t n2(2) Suc.prems(1)])
  next
    case hash
    have w: "minimal N" "hexkey key"
      using at_key_hash Suc.prems(1,2) hash(1) by blast+
    obtain c where c: "resolveHash db gen (sha (penc sha N)) prefix = TOk c" "rep sha db r c N" "\<not> is_hash c"
      using resolveHash_rep [OF _ w(1) Suc.prems(3)] Suc.prems(1) hash(1) by metis
    obtain n' d where "t_delete db gen m c prefix key = TOk (d, n')"
        "rep sha db r n' (pdelete N key)" "\<not> d \<longrightarrow> pdelete N key = N" "\<not> is_hash n'"
      using Suc.IH [OF c(2) Suc.prems(2,3), of prefix] Suc.prems(4) c(3) hash(1) by auto
    then show ?thesis
      using c hash(1) by (cases d) auto
  qed
qed (auto split: if_splits)

end

section \<open>Tries as maps from byte strings\<close>

definition contents :: "ptrie \<Rightarrow> (bytes \<rightharpoonup> bytes) \<Rightarrow> bool" where
  "contents N m \<longleftrightarrow> (\<forall>b. pget N (keybytesToHex b) = m b) \<and>
     (\<forall>k. hexkey k \<longrightarrow> pget N k \<noteq> None \<longrightarrow> k \<in> range keybytesToHex)"

text \<open>Sizes of keys and values for which lengths stay within 64 bits.\<close>

definition sizes :: "(bytes \<rightharpoonup> bytes) \<Rightarrow> bool" where
  "sizes m \<longleftrightarrow> (\<forall>k v. m k = Some v \<longrightarrow> length k < 2 ^ 30 \<and> length v < 2 ^ 32)"

definition bounded :: "ptrie \<Rightarrow> bool" where
  "bounded N \<longleftrightarrow> (\<forall>k v. hexkey k \<longrightarrow> pget N k = Some v \<longrightarrow> length k < 2 ^ 32 \<and> length v < 2 ^ 32)"

definition trie_holds :: "(bytes \<Rightarrow> bytes) \<Rightarrow> node_db \<Rightarrow> Trie \<Rightarrow> (bytes \<rightharpoonup> bytes) \<Rightarrow> bool" where
  "trie_holds sha db t m \<longleftrightarrow> sizes m \<and> (\<exists>N. rep sha db True (tr_root t) N \<and> wf0 N \<and> contents N m)"

lemma bounded_contents: "contents N m \<Longrightarrow> sizes m \<Longrightarrow> bounded N"
  unfolding bounded_def
proof (intro allI impI)
  fix k v
  assume c: "contents N m" "sizes m" "hexkey k" "pget N k = Some v"
  then obtain b where b: "k = keybytesToHex b"
    unfolding contents_def by (metis imageE option.distinct(1))
  then have "m b = Some v"
    using c by (simp add: contents_def)
  then have "length b < 2 ^ 30" "length v < 2 ^ 32"
    using c(2) unfolding sizes_def by blast+
  then show "length k < 2 ^ 32 \<and> length v < 2 ^ 32"
    by (simp add: b length_keybytesToHex)
qed

lemma bounded_short:
  assumes "bounded (PShort k c)" "nibbles k"
  shows "bounded c"
  unfolding bounded_def
proof (intro allI impI)
  fix q v
  assume "hexkey q" "pget c q = Some v"
  then have "hexkey (k @ q)" "pget (PShort k c) (k @ q) = Some v"
    using assms(2) hexkey_not_Nil by (auto simp: hexkey_append)
  then show "length q < 2 ^ 32 \<and> length v < 2 ^ 32"
    using assms(1) unfolding bounded_def by fastforce
qed

lemma bounded_full:
  assumes "bounded (PFull cs)" "length cs = 17" "i < 16"
  shows "bounded (cs ! i)"
  unfolding bounded_def
proof (intro allI impI)
  fix q v
  assume "hexkey q" "pget (cs ! i) q = Some v"
  then have "hexkey (of_nat i # q)" "pget (PFull cs) (of_nat i # q) = Some v"
    using assms(2,3) by (simp_all add: unat_nibble unat_of_nat)
  then show "length q < 2 ^ 32 \<and> length v < 2 ^ 32"
    using assms(1) unfolding bounded_def by fastforce
qed

lemma bounded_small: "minimal N \<Longrightarrow> bounded N \<Longrightarrow> small N"
proof (induction rule: minimal.induct)
  case (leaf k v)
  have "pget (PShort k (PVal v)) k = Some v"
    by simp
  then show ?case
    using leaf.prems leaf.hyps(1) unfolding bounded_def small.simps by blast
next
  case (ext k cs)
  have "minimal (PShort k (PFull cs))"
    using ext.hyps minimal.ext by blast
  then obtain q v where q: "hexkey q" "pget (PShort k (PFull cs)) q = Some v"
    using minimal_has_key by blast
  then have "take (length k) q = k"
    using pget_short_SomeD [of k "PFull cs" q] by blast
  then have "length k \<le> length q"
    by (metis length_take min.cobounded1)
  moreover have "length q < 2 ^ 32"
    using ext.prems q unfolding bounded_def by blast
  ultimately have "length k < 2 ^ 32"
    by linarith
  then show ?case
    using ext.IH bounded_short [OF ext.prems ext.hyps(1)] by simp
next
  case (full cs i j)
  have "small (cs ! n)" if "n < 17" for n
  proof (cases "n < 16")
    case True
    then show ?thesis
      using full.IH bounded_full [OF full.prems full.hyps(1)] by (metis small.simps(1))
  next
    case False
    then have "n = 16"
      using that by simp
    moreover have "small (PVal v)" if "cs ! 16 = PVal v" for v
    proof -
      have "hexkey [16]" "pget (PFull cs) [16] = Some v"
        using that full.hyps(1) by simp_all
      then show ?thesis
        using full.prems unfolding bounded_def small.simps by blast
    qed
    ultimately show ?thesis
      using full.hyps(2) by auto
  qed
  then show ?case
    using full.hyps(1) by (auto simp: in_set_conv_nth)
qed

lemma wf0_small: "wf0 N \<Longrightarrow> contents N m \<Longrightarrow> sizes m \<Longrightarrow> small N"
  using bounded_contents bounded_small by (auto simp: wf0_def)

lemma contents_unique: "wf0 N \<Longrightarrow> wf0 M \<Longrightarrow> contents N m \<Longrightarrow> contents M m \<Longrightarrow> N = M"
proof (rule wf0_unique)
  fix k
  assume c: "contents N m" "contents M m" "hexkey k"
  show "pget N k = pget M k"
  proof (cases "k \<in> range keybytesToHex")
    case True
    then show ?thesis
      using c by (auto simp: contents_def)
  next
    case False
    then show ?thesis
      using c unfolding contents_def by metis
  qed
qed

lemma at_key_root: "wf0 N \<Longrightarrow> at_key N (keybytesToHex b)"
  by (simp add: at_key_def hexkey_keybytesToHex)

lemma wf0_pinsert: "wf0 N \<Longrightarrow> v \<noteq> [] \<Longrightarrow> wf0 (pinsert N (keybytesToHex b) (PVal v))"
  using pinsert_minimal [OF at_key_root, of N v b] hexkey_not_Nil [OF hexkey_keybytesToHex]
  by (auto simp: wf0_def split: if_splits)

lemma wf0_pdelete: "wf0 N \<Longrightarrow> wf0 (pdelete N (keybytesToHex b))"
  using pdelete_minimal [OF at_key_root, of N b] hexkey_not_Nil [OF hexkey_keybytesToHex]
  by (auto split: if_splits)

lemma keybytesToHex_not_Nil [simp]: "keybytesToHex b \<noteq> []"
  using hexkey_not_Nil [OF hexkey_keybytesToHex] .

lemma contents_pinsert:
  assumes "wf0 N" "contents N m"
  shows "contents (pinsert N (keybytesToHex b) (PVal v)) (m(b \<mapsto> v))"
proof -
  have "pget (pinsert N (keybytesToHex b) (PVal v)) k = (if k = keybytesToHex b then Some v else pget N k)" if "hexkey k" for k
    using that assms(1) by (intro pget_pinsert) (auto simp: at_key_def hexkey_keybytesToHex)
  then show ?thesis
    using assms(2) unfolding contents_def by (auto simp: hexkey_keybytesToHex inj_keybytesToHex split: if_splits)
qed

lemma contents_pdelete:
  assumes "wf0 N" "contents N m"
  shows "contents (pdelete N (keybytesToHex b)) (m(b := None))"
proof -
  have "pget (pdelete N (keybytesToHex b)) k = (if k = keybytesToHex b then None else pget N k)" if "hexkey k" for k
    using that assms(1) by (intro pget_pdelete) (auto simp: at_key_def hexkey_keybytesToHex)
  then show ?thesis
    using assms(2) unfolding contents_def by (auto simp: hexkey_keybytesToHex inj_keybytesToHex split: if_splits)
qed

lemma sizes_upd: "sizes m \<Longrightarrow> length k < 2 ^ 30 \<Longrightarrow> length v < 2 ^ 32 \<Longrightarrow> sizes (m(k \<mapsto> v))"
  by (simp add: sizes_def)

lemma sizes_del: "sizes m \<Longrightarrow> sizes (m(k := None))"
  by (simp add: sizes_def)

lemma trie_holds_empty: "trie_holds sha db \<lparr>tr_root = NilNode, tr_cachegen = g, tr_cachelimit = l\<rparr> Map.empty"
  by (auto simp: trie_holds_def sizes_def contents_def wf0_def intro!: exI [of _ PNil])

context keccak_size
begin

lemma TryGet_holds:
  assumes "trie_holds sha db t m"
  shows "\<exists>t'. TryGet db k t = TOk (m k, t') \<and> trie_holds sha db t' m"
proof -
  from assms obtain N where N: "sizes m" "rep sha db True (tr_root t) N" "wf0 N" "contents N m"
    by (auto simp: trie_holds_def)
  let ?k = "keybytesToHex k"
  have "\<exists>n' did. tryGet db (tr_cachegen t) (depth_bound ?k) (tr_root t) ?k 0 = TOk (pget N (drop 0 ?k), n', did) \<and>
      rep sha db True n' N \<and> (\<not> did \<longrightarrow> n' = tr_root t)"
    by (rule tryGet_rep [OF N(2)]) (simp_all add: at_key_root N(3) wf0_small [OF N(3,4,1)] depth_bound_def)
  then obtain n' did where r: "tryGet db (tr_cachegen t) (depth_bound ?k) (tr_root t) ?k 0 = TOk (pget N ?k, n', did)"
      "rep sha db True n' N" "\<not> did \<longrightarrow> n' = tr_root t"
    unfolding drop_0 by blast
  have "pget N ?k = m k"
    using N(4) by (simp add: contents_def)
  then show ?thesis
    using r N by (auto simp: TryGet_def trie_holds_def Let_def)
qed

lemma TryDelete_holds:
  assumes "trie_holds sha db t m"
  shows "\<exists>t'. TryDelete db k t = TOk t' \<and> trie_holds sha db t' (m(k := None))"
proof -
  from assms obtain N where N: "sizes m" "rep sha db True (tr_root t) N" "wf0 N" "contents N m"
    by (auto simp: trie_holds_def)
  let ?k = "keybytesToHex k"
  have "2 * length ?k + (if is_hash (tr_root t) then 2 else 1) \<le> depth_bound ?k"
    by (simp add: depth_bound_def)
  from t_delete_rep [OF N(2) at_key_root [OF N(3)] wf0_small [OF N(3,4,1)] this]
  obtain n' d where r: "t_delete db (tr_cachegen t) (depth_bound ?k) (tr_root t) [] ?k = TOk (d, n')"
      "rep sha db True n' (pdelete N ?k)"
    by blast
  then show ?thesis
    using N wf0_pdelete contents_pdelete sizes_del by (auto simp: TryDelete_def trie_holds_def Let_def)
qed

lemma TryUpdate_holds:
  assumes "trie_holds sha db t m" "length k < 2 ^ 30" "length v < 2 ^ 32"
  shows "\<exists>t'. TryUpdate db k v t = TOk t' \<and> trie_holds sha db t' (m(k := if v = [] then None else Some v))"
proof (cases "v = []")
  case True
  then show ?thesis
    using TryDelete_holds [OF assms(1), of k] by (simp add: TryUpdate_def TryDelete_def)
next
  case False
  from assms obtain N where N: "sizes m" "rep sha db True (tr_root t) N" "wf0 N" "contents N m"
    by (auto simp: trie_holds_def)
  let ?k = "keybytesToHex k"
  have "2 * length ?k + (if is_hash (tr_root t) then 2 else 1) \<le> depth_bound ?k"
    by (simp add: depth_bound_def)
  from t_insert_rep [OF N(2) at_key_root [OF N(3)] wf0_small [OF N(3,4,1)] False this]
  obtain n' d where r: "t_insert db (tr_cachegen t) (depth_bound ?k) (tr_root t) [] ?k (ValueNode v) = TOk (d, n')"
      "rep sha db True n' (pinsert N ?k (PVal v))"
    by blast
  then show ?thesis
    using False N wf0_pinsert contents_pinsert sizes_upd assms(2,3) by (auto simp: TryUpdate_def trie_holds_def Let_def)
qed

end

end
