(* ===== verification/Trie_Commit.thy ===== *)
theory Trie_Commit
  imports Trie_Refine
begin

text \<open>
  Hashing and storing a trie: the hasher computes the reference hash of the trie a node stands for, and a
  commit stores every node that the hash refers to.
\<close>

section \<open>The database\<close>

text \<open>Nodes are stored under their hash, and \<open>S\<close> holds every encoding in sight.\<close>

definition addressed :: "(bytes \<Rightarrow> bytes) \<Rightarrow> bytes set \<Rightarrow> node_db \<Rightarrow> bool" where
  "addressed sha S d \<longleftrightarrow> (\<forall>k e. d k = Some e \<longrightarrow> length k = 32 \<longrightarrow> e \<in> S \<and> sha e = k)"

definition wdb :: "bool \<Rightarrow> node_db \<Rightarrow> node_db option" where
  "wdb wr d = (if wr then Some d else None)"

lemma saved_mono: "saved sha d r N \<Longrightarrow> d \<subseteq>\<^sub>m d' \<Longrightarrow> saved sha d' r N"
  unfolding saved_def map_le_def by (metis domIff option.distinct(1))

lemma ok_flag_mono: "ok_flag sha d r f N \<Longrightarrow> d \<subseteq>\<^sub>m d' \<Longrightarrow> ok_flag sha d' r f N"
  using saved_mono by (auto simp: ok_flag_def)

lemma rep_mono: "rep sha d r n N \<Longrightarrow> d \<subseteq>\<^sub>m d' \<Longrightarrow> rep sha d' r n N"
  by (induction rule: rep.induct) (auto intro: rep.intros ok_flag_mono saved_mono)

lemma addressed_put:
  assumes "addressed sha S d" "inj_on sha S" "e \<in> S" "length (sha e) = 32"
  shows "d \<subseteq>\<^sub>m d(sha e \<mapsto> e)" "addressed sha S (d(sha e \<mapsto> e))"
proof -
  have "d (sha e) = Some x \<Longrightarrow> x = e" for x
    using assms unfolding addressed_def inj_on_def by blast
  then show "d \<subseteq>\<^sub>m d(sha e \<mapsto> e)"
    by (auto simp: map_le_def)
  show "addressed sha S (d(sha e \<mapsto> e))"
    using assms by (auto simp: addressed_def)
qed

section \<open>The hasher\<close>

definition hashed :: "(bytes \<Rightarrow> bytes) \<Rightarrow> bool \<Rightarrow> node \<Rightarrow> ptrie \<Rightarrow> bool" where
  "hashed sha r c N \<longleftrightarrow>
     (if r \<or> 32 \<le> length (penc sha N) then c = HashNode (sha (penc sha N)) else node_val c = pval sha N)"

lemma hashed_val: "hashed sha False c N \<Longrightarrow> is_tree N \<Longrightarrow> node_val c = pref sha N"
  by (auto simp: hashed_def pref_tree split: if_splits)

text \<open>Nothing is asked of the database when nothing is written to it.\<close>

definition tracked :: "(bytes \<Rightarrow> bytes) \<Rightarrow> bool \<Rightarrow> bytes set \<Rightarrow> node_db \<Rightarrow> bool" where
  "tracked sha wr S d \<longleftrightarrow> (wr \<longrightarrow> addressed sha S d)"

definition hash_ok :: "(bytes \<Rightarrow> bytes) \<Rightarrow> hasher \<Rightarrow> bool \<Rightarrow> bytes set \<Rightarrow> bool \<Rightarrow> ptrie \<Rightarrow> bool" where
  "hash_ok sha h wr S r N \<longleftrightarrow> (\<forall>d n. rep sha d r n N \<longrightarrow> tracked sha wr S d \<longrightarrow>
     (\<exists>c n' d'. node_hash h n (wdb wr d) r = TOk (c, n', wdb wr d') \<and> hashed sha r c N \<and> rep sha d' r n' N \<and>
        d \<subseteq>\<^sub>m d' \<and> tracked sha wr S d' \<and> (wr \<longrightarrow> saved sha d' r N) \<and> (\<not> wr \<longrightarrow> d' = d)))"

locale trie_hasher = keccak_size +
  fixes h :: hasher and wr :: bool and S :: "bytes set"
  assumes sha_h: "ha_sha h = sha"
    and put_h: "wr \<Longrightarrow> ha_put h d k v = Some (d(k \<mapsto> v))"
    and inj_S: "wr \<Longrightarrow> inj_on sha S"
begin

lemma store_node:
  assumes "node_val X = pval sha N" "is_tree N" "small N" "X \<noteq> NilNode" "\<not> is_hash X" "cache X = (fl_hash f, fl_dirty f)"
    "ok_flag sha d r' f N"
  shows "store h X (wdb wr d') r =
    (if r \<or> 32 \<le> length (penc sha N)
     then TOk (HashNode (sha (penc sha N)), wdb wr (if wr then d'(sha (penc sha N) \<mapsto> penc sha N) else d'))
     else TOk (X, wdb wr d'))"
proof -
  have "EncodeToBytes (node_val X) = Some (penc sha N)"
    using EncodeToBytes_enc [of "pval sha N"] length_penc [OF assms(3)] assms(1) by (simp add: penc_def)
  moreover have "(case fl_hash f of None \<Rightarrow> ha_sha h (penc sha N) | Some x \<Rightarrow> x) = sha (penc sha N)"
    using assms(7) sha_h by (auto simp: ok_flag_def split: option.splits)
  ultimately show ?thesis
    using assms(4-6) by (cases X) (auto simp: store_def wdb_def put_h Let_def)
qed

text \<open>The state of the cached node after its collapsed form has been stored.\<close>

lemma finish_node:
  assumes X: "node_val X = pval sha N" "is_tree N" "small N" "X \<noteq> NilNode" "\<not> is_hash X" "cache X = (fl_hash f, fl_dirty f)"
    and f: "ok_flag sha d r f N" "d \<subseteq>\<^sub>m d1" and d1: "tracked sha wr S d1" "penc sha N \<in> S"
    and ch: "wr \<Longrightarrow> \<forall>M\<in>subs N - {N}. 32 \<le> length (penc sha M) \<longrightarrow> d1 (sha (penc sha M)) = Some (penc sha M)"
  shows "\<exists>c d2 hsh. finish_hash h X Y (wdb wr d1) r = TOk (c, set_cache hsh wr Y, wdb wr d2) \<and> hashed sha r c N \<and>
    d1 \<subseteq>\<^sub>m d2 \<and> tracked sha wr S d2 \<and> (wr \<longrightarrow> saved sha d2 r N) \<and> (\<not> wr \<longrightarrow> d2 = d1) \<and>
    ok_flag sha d2 r (f\<lparr>fl_hash := hsh, fl_dirty := (if wr then False else fl_dirty f)\<rparr>) N"
proof -
  define big where "big \<longleftrightarrow> r \<or> 32 \<le> length (penc sha N)"
  define d2 where "d2 = (if wr \<and> big then d1(sha (penc sha N) \<mapsto> penc sha N) else d1)"
  define hsh where "hsh = (if big then Some (sha (penc sha N)) else None)"
  define c where "c = (if big then HashNode (sha (penc sha N)) else X)"
  have "store h X (wdb wr d1) r = TOk (c, wdb wr d2)"
    using store_node [OF X f(1)] by (auto simp: big_def c_def d2_def)
  moreover have "(case c of HashNode x \<Rightarrow> Some x | _ \<Rightarrow> None) = hsh"
    using X(5) by (cases X) (auto simp: c_def hsh_def)
  moreover have "(wdb wr d1 \<noteq> None) = wr"
    by (simp add: wdb_def)
  ultimately have "finish_hash h X Y (wdb wr d1) r = TOk (c, set_cache hsh wr Y, wdb wr d2)"
    by (simp add: finish_hash_def)
  moreover have "hashed sha r c N"
    using X(1) by (auto simp: hashed_def c_def big_def)
  moreover have le: "d1 \<subseteq>\<^sub>m d2" "tracked sha wr S d2"
    unfolding d2_def using addressed_put [OF _ inj_S d1(2) sha_length, of d1] d1(1) by (simp_all add: tracked_def split: if_split)
  moreover have sv: "wr \<longrightarrow> saved sha d2 r N"
  proof
    assume wr
    then have "32 \<le> length (penc sha M) \<longrightarrow> d2 (sha (penc sha M)) = Some (penc sha M)" if "M \<in> subs N" for M
    proof (cases "M = N")
      case False
      then have "32 \<le> length (penc sha M) \<longrightarrow> d1 (sha (penc sha M)) = Some (penc sha M)"
        using ch \<open>wr\<close> that by blast
      then show ?thesis
        using le(1) by (metis domI map_le_def)
    qed (simp add: d2_def big_def \<open>wr\<close>)
    then show "saved sha d2 r N"
      using \<open>wr\<close> by (auto simp: saved_def d2_def big_def)
  qed
  moreover have "ok_flag sha d2 r (f\<lparr>fl_hash := hsh, fl_dirty := (if wr then False else fl_dirty f)\<rparr>) N"
  proof -
    have "\<not> fl_dirty f \<longrightarrow> saved sha d2 r N"
      using f(1) saved_mono map_le_trans [OF f(2) le(1)] unfolding ok_flag_def by blast
    then show ?thesis
      using sv by (simp add: ok_flag_def hsh_def big_def)
  qed
  moreover have "\<not> wr \<longrightarrow> d2 = d1"
    by (simp add: d2_def)
  ultimately show ?thesis
    by blast
qed

lemma use_cache_rep:
  assumes "rep sha d r n N" "\<not> is_hash n" "use_cache h n (wdb wr d) = Some (x, n')"
  shows "x = HashNode (sha (penc sha N)) \<and> (r \<or> 32 \<le> length (penc sha N)) \<and> rep sha d r n' N \<and> (wr \<longrightarrow> saved sha d r N)"
proof -
  obtain f where f: "cache n = (fl_hash f, fl_dirty f)" "ok_flag sha d r f N" "is_tree N"
      "\<And>a b. canUnload n a b \<Longrightarrow> \<not> fl_dirty f"
    using assms by (cases rule: rep.cases) (auto simp: use_cache_def flag_canUnload_def)
  then obtain hsh where hsh: "fl_hash f = Some hsh"
    using assms(3) by (cases "fl_hash f") (auto simp: use_cache_def)
  then have "hsh = sha (penc sha N)" "r \<or> 32 \<le> length (penc sha N)" "\<not> fl_dirty f \<longrightarrow> saved sha d r N"
    using f(2) by (auto simp: ok_flag_def)
  then show ?thesis
    using assms(1,3) f(1,3,4) hsh rep.hash [of N r sha d]
    by (auto simp: use_cache_def wdb_def split: if_splits)
qed

lemma hash_list_ok:
  assumes "list_all2 (rep sha d False) ns Ns" "tracked sha wr S d"
    "\<And>j. j < length Ns \<Longrightarrow> Ns ! j = PNil \<or> (i + j < 16 \<and> is_tree (Ns ! j) \<and> hash_ok sha h wr S False (Ns ! j)) \<or>
       (i + j = 16 \<and> (\<exists>v. Ns ! j = PVal v))"
  shows "\<exists>ccs kcs d'. hash_list h i ns (wdb wr d) = TOk (ccs, kcs, wdb wr d') \<and> map node_val ccs = map (pref sha) Ns \<and>
    list_all2 (rep sha d' False) kcs Ns \<and> d \<subseteq>\<^sub>m d' \<and> tracked sha wr S d' \<and> (wr \<longrightarrow> (\<forall>c\<in>set Ns. saved sha d' False c)) \<and>
    (\<not> wr \<longrightarrow> d' = d)"
  using assms
proof (induction Ns arbitrary: ns i d rule: list.induct)
  case Nil
  then have "ns = []"
    by simp
  then have "hash_list h i ns (wdb wr d) = TOk ([], [], wdb wr d)"
    by simp
  then show ?case
    using Nil.prems(2) by (intro exI [of _ "[]"] exI [of _ d]) simp
next
  case (Cons N Ns)
  then obtain n ns' where ns: "ns = n # ns'" "rep sha d False n N" "list_all2 (rep sha d False) ns' Ns"
    by (auto simp: list_all2_Cons2)
  have N: "N = PNil \<or> (i < 16 \<and> is_tree N \<and> hash_ok sha h wr S False N) \<or> (i = 16 \<and> (\<exists>v. N = PVal v))"
    using Cons.prems(3) [of 0] by simp
  have "\<exists>c k d1. (if n = NilNode then TOk (ValueNode [], NilNode, wdb wr d) else if i = 16 then TOk (n, n, wdb wr d)
        else node_hash h n (wdb wr d) False) = TOk (c, k, wdb wr d1) \<and> node_val c = pref sha N \<and> rep sha d1 False k N \<and>
      d \<subseteq>\<^sub>m d1 \<and> tracked sha wr S d1 \<and> (wr \<longrightarrow> saved sha d1 False N) \<and> (\<not> wr \<longrightarrow> d1 = d)"
    using N
  proof (elim disjE conjE exE)
    assume "N = PNil"
    then show ?thesis
      using ns(2) Cons.prems(2) by (auto simp: saved_def)
  next
    assume N: "i < 16" "is_tree N" "hash_ok sha h wr S False N"
    then have "n \<noteq> NilNode" "i \<noteq> 16"
      using rep_nil_iff [OF ns(2)] by auto
    then show ?thesis
      using N(3) hashed_val [OF _ N(2)] ns(2) Cons.prems(2) unfolding hash_ok_def by (metis (no_types, lifting))
  next
    fix v
    assume "i = 16" "N = PVal v"
    then show ?thesis
      using ns(2) Cons.prems(2) by (auto simp: saved_def)
  qed
  then obtain c k d1 where c: "(if n = NilNode then TOk (ValueNode [], NilNode, wdb wr d) else if i = 16 then TOk (n, n, wdb wr d)
        else node_hash h n (wdb wr d) False) = TOk (c, k, wdb wr d1)" "node_val c = pref sha N" "rep sha d1 False k N"
      "d \<subseteq>\<^sub>m d1" "tracked sha wr S d1" "wr \<longrightarrow> saved sha d1 False N" "\<not> wr \<longrightarrow> d1 = d"
    by blast
  have "list_all2 (rep sha d1 False) ns' Ns"
    using ns(3) rep_mono c(4) by (metis list_all2_mono)
  moreover have "Ns ! j = PNil \<or> (Suc i + j < 16 \<and> is_tree (Ns ! j) \<and> hash_ok sha h wr S False (Ns ! j)) \<or>
       (Suc i + j = 16 \<and> (\<exists>v. Ns ! j = PVal v))" if "j < length Ns" for j
    using Cons.prems(3) [of "Suc j"] that by auto
  ultimately obtain ccs kcs d2 where d2: "hash_list h (Suc i) ns' (wdb wr d1) = TOk (ccs, kcs, wdb wr d2)"
      "map node_val ccs = map (pref sha) Ns" "list_all2 (rep sha d2 False) kcs Ns" "d1 \<subseteq>\<^sub>m d2" "tracked sha wr S d2"
      "wr \<longrightarrow> (\<forall>c\<in>set Ns. saved sha d2 False c)" "\<not> wr \<longrightarrow> d2 = d1"
    using Cons.IH [OF _ c(5), of ns' "Suc i"] by blast
  have "hash_list h i ns (wdb wr d) = TOk (c # ccs, k # kcs, wdb wr d2)"
    unfolding ns(1) hash_list.simps c(1) by (simp add: d2(1))
  moreover have "rep sha d2 False k N" "wr \<longrightarrow> saved sha d2 False N" "d \<subseteq>\<^sub>m d2"
    using rep_mono [OF c(3) d2(4)] saved_mono c(6) d2(4) map_le_trans [OF c(4) d2(4)] by blast+
  ultimately show ?case
    using c(2,7) d2 by (intro exI [of _ "c # ccs"] exI [of _ "k # kcs"] exI [of _ d2]) auto
qed

lemma node_hash_hash: "node_hash h (HashNode x) db r = TOk (HashNode x, HashNode x, db)"
  by (simp add: finish_hash_def store_def)

text \<open>It is enough to look at loaded nodes whose cached hash cannot be used.\<close>

lemma hash_okI:
  assumes "is_tree N" "\<And>d n. rep sha d r n N \<Longrightarrow> \<not> is_hash n \<Longrightarrow> tracked sha wr S d \<Longrightarrow> use_cache h n (wdb wr d) = None \<Longrightarrow>
     (\<exists>c n' d'. node_hash h n (wdb wr d) r = TOk (c, n', wdb wr d') \<and> hashed sha r c N \<and> rep sha d' r n' N \<and>
        d \<subseteq>\<^sub>m d' \<and> tracked sha wr S d' \<and> (wr \<longrightarrow> saved sha d' r N) \<and> (\<not> wr \<longrightarrow> d' = d))"
  shows "hash_ok sha h wr S r N"
  unfolding hash_ok_def
proof (intro allI impI)
  fix d n
  assume rep: "rep sha d r n N" and d: "tracked sha wr S d"
  let ?goal = "\<exists>c n' d'. node_hash h n (wdb wr d) r = TOk (c, n', wdb wr d') \<and> hashed sha r c N \<and> rep sha d' r n' N \<and>
        d \<subseteq>\<^sub>m d' \<and> tracked sha wr S d' \<and> (wr \<longrightarrow> saved sha d' r N) \<and> (\<not> wr \<longrightarrow> d' = d)"
  show ?goal
  proof (cases "is_hash n")
    case True
    then obtain x where n: "n = HashNode x"
      by (cases n) auto
    then have "x = sha (penc sha N)" "r \<or> 32 \<le> length (penc sha N)" "saved sha d r N"
      using rep assms(1) by (auto elim: rep_HashE)
    then show ?thesis
      using rep d by (intro exI [of _ n] exI [of _ d]) (simp add: n node_hash_hash hashed_def del: node_hash.simps)
  next
    case False
    show ?thesis
    proof (cases "use_cache h n (wdb wr d)")
      case None
      then show ?thesis
        using assms(2) rep False d by blast
    next
      case (Some p)
      obtain x n' where p: "p = (x, n')"
        by fastforce
      have "node_hash h n (wdb wr d) r = TOk (x, n', wdb wr d)"
        using rep Some False assms(1) by (cases rule: rep.cases) (auto simp: p)
      then show ?thesis
        using use_cache_rep [OF rep False] Some d by (auto simp: p hashed_def)
    qed
  qed
qed

lemma subs_short: "penc sha ` subs (PShort k c) \<subseteq> S \<Longrightarrow> penc sha ` subs c \<subseteq> S"
  by auto

lemma subs_full: "penc sha ` subs (PFull cs) \<subseteq> S \<Longrightarrow> c \<in> set cs \<Longrightarrow> penc sha ` subs c \<subseteq> S"
  by auto

lemma hash_node_ok:
  assumes "minimal N" "small N" "penc sha ` subs N \<subseteq> S"
  shows "hash_ok sha h wr S r N"
  using assms
proof (induction arbitrary: r rule: minimal.induct)
  case (leaf k v)
  let ?N = "PShort k (PVal v)"
  show ?case
  proof (rule hash_okI)
    fix d n
    assume a: "rep sha d r n ?N" "\<not> is_hash n" "tracked sha wr S d" "use_cache h n (wdb wr d) = None"
    obtain f where n: "n = ShortNode k (ValueNode v) f" "ok_flag sha d r f ?N"
      using rep_PShort [OF a(1,2)] by auto
    have pS: "penc sha ?N \<in> S"
      using leaf.prems(2) by auto
    from finish_node [OF _ _ leaf.prems(1) _ _ _ n(2) map_le_refl a(3) pS,
        of "ShortNode (hexToCompact k) (ValueNode v) f" "ShortNode k (ValueNode v) f"]
    obtain c d2 hsh where "finish_hash h (ShortNode (hexToCompact k) (ValueNode v) f) n (wdb wr d) r =
          TOk (c, set_cache hsh wr n, wdb wr d2)" "hashed sha r c ?N" "d \<subseteq>\<^sub>m d2" "tracked sha wr S d2"
        "wr \<longrightarrow> saved sha d2 r ?N" "\<not> wr \<longrightarrow> d2 = d"
        "ok_flag sha d2 r (f\<lparr>fl_hash := hsh, fl_dirty := (if wr then False else fl_dirty f)\<rparr>) ?N"
      by (auto simp: n(1))
    then show "\<exists>c n' d'. node_hash h n (wdb wr d) r = TOk (c, n', wdb wr d') \<and> hashed sha r c ?N \<and> rep sha d' r n' ?N \<and>
        d \<subseteq>\<^sub>m d' \<and> tracked sha wr S d' \<and> (wr \<longrightarrow> saved sha d' r ?N) \<and> (\<not> wr \<longrightarrow> d' = d)"
      using a(4) n(1) by (intro exI [of _ c] exI [of _ "set_cache hsh wr n"] exI [of _ d2])
        (simp add: is_value_def rep.short)
  qed simp
next
  case (ext k cs)
  let ?C = "PFull cs"
  let ?N = "PShort k ?C"
  have IH: "hash_ok sha h wr S False ?C"
    using ext.IH ext.prems by (auto simp del: subs.simps(2))
  show ?case
  proof (rule hash_okI)
    fix d n
    assume a: "rep sha d r n ?N" "\<not> is_hash n" "tracked sha wr S d" "use_cache h n (wdb wr d) = None"
    obtain m f where n: "n = ShortNode k m f" "rep sha d False m ?C" "ok_flag sha d r f ?N"
      using rep_PShort [OF a(1,2)] by auto
    obtain cv kv d1 where c1: "node_hash h m (wdb wr d) False = TOk (cv, kv, wdb wr d1)" "hashed sha False cv ?C"
        "rep sha d1 False kv ?C" "d \<subseteq>\<^sub>m d1" "tracked sha wr S d1" "wr \<longrightarrow> saved sha d1 False ?C" "\<not> wr \<longrightarrow> d1 = d"
      using IH n(2) a(3) unfolding hash_ok_def by blast
    have pS: "penc sha ?N \<in> S"
      using ext.prems(2) by auto
    have ch: "\<forall>M\<in>subs ?N - {?N}. 32 \<le> length (penc sha M) \<longrightarrow> d1 (sha (penc sha M)) = Some (penc sha M)" if wr
      using c1(6) that by (auto simp: saved_def simp del: subs.simps(2))
    have val: "node_val (ShortNode (hexToCompact k) cv f) = pval sha ?N"
      using hashed_val [OF c1(2)] by simp
    from finish_node [OF val _ ext.prems(1) _ _ _ n(3) c1(4,5) pS, where Y = "ShortNode k kv f"] ch
    obtain c d2 hsh where fin: "finish_hash h (ShortNode (hexToCompact k) cv f) (ShortNode k kv f) (wdb wr d1) r =
          TOk (c, set_cache hsh wr (ShortNode k kv f), wdb wr d2)" "hashed sha r c ?N" "d1 \<subseteq>\<^sub>m d2" "tracked sha wr S d2"
        "wr \<longrightarrow> saved sha d2 r ?N" "\<not> wr \<longrightarrow> d2 = d1"
        "ok_flag sha d2 r (f\<lparr>fl_hash := hsh, fl_dirty := (if wr then False else fl_dirty f)\<rparr>) ?N"
      by auto
    have "\<not> is_value m"
      using n(2) by (auto simp: is_value_def elim: rep.cases)
    then have "node_hash h n (wdb wr d) r = TOk (c, set_cache hsh wr (ShortNode k kv f), wdb wr d2)"
      using a(4) n(1) c1(1) fin(1) by simp
    moreover have "rep sha d2 r (set_cache hsh wr (ShortNode k kv f)) ?N"
      using fin(7) rep_mono [OF c1(3) fin(3)] by (simp add: rep.short)
    ultimately show "\<exists>c n' d'. node_hash h n (wdb wr d) r = TOk (c, n', wdb wr d') \<and> hashed sha r c ?N \<and> rep sha d' r n' ?N \<and>
        d \<subseteq>\<^sub>m d' \<and> tracked sha wr S d' \<and> (wr \<longrightarrow> saved sha d' r ?N) \<and> (\<not> wr \<longrightarrow> d' = d)"
      using fin c1(7) map_le_trans [OF c1(4) fin(3)] by blast
  qed simp
next
  case (full cs i j)
  let ?N = "PFull cs"
  have kids: "cs ! j = PNil \<or> (0 + j < 16 \<and> is_tree (cs ! j) \<and> hash_ok sha h wr S False (cs ! j)) \<or>
       (0 + j = 16 \<and> (\<exists>v. cs ! j = PVal v))" if "j < length cs" for j
  proof (cases "j < 16")
    case True
    have "small (cs ! j)" "penc sha ` subs (cs ! j) \<subseteq> S"
      using full.prems(1) subs_full [OF full.prems(2)] nth_mem [OF that] by auto
    then show ?thesis
      using full.IH [OF True] minimal_is_tree True by auto
  next
    case False
    then show ?thesis
      using full.hyps(1,2) that by (auto simp: not_less le_eq_less_or_eq)
  qed
  show ?case
  proof (rule hash_okI)
    fix d n
    assume a: "rep sha d r n ?N" "\<not> is_hash n" "tracked sha wr S d" "use_cache h n (wdb wr d) = None"
    obtain ns f where n: "n = FullNode ns f" "list_all2 (rep sha d False) ns cs" "ok_flag sha d r f ?N"
      using rep_PFull [OF a(1,2)] by (auto simp: list_all2_conv_all_nth)
    obtain ccs kcs d1 where c1: "hash_list h 0 ns (wdb wr d) = TOk (ccs, kcs, wdb wr d1)" "map node_val ccs = map (pref sha) cs"
        "list_all2 (rep sha d1 False) kcs cs" "d \<subseteq>\<^sub>m d1" "tracked sha wr S d1" "wr \<longrightarrow> (\<forall>c\<in>set cs. saved sha d1 False c)"
        "\<not> wr \<longrightarrow> d1 = d"
      using hash_list_ok [OF n(2) a(3) kids] by blast
    have pS: "penc sha ?N \<in> S"
      using full.prems(2) by auto
    have ch: "\<forall>M\<in>subs ?N - {?N}. 32 \<le> length (penc sha M) \<longrightarrow> d1 (sha (penc sha M)) = Some (penc sha M)" if wr
      using c1(6) that by (auto simp: saved_def)
    have val: "node_val (FullNode ccs f) = pval sha ?N"
      using c1(2) by simp
    have tr: "is_tree ?N" "FullNode ccs f \<noteq> NilNode" "\<not> is_hash (FullNode ccs f)"
        "cache (FullNode ccs f) = (fl_hash f, fl_dirty f)"
      by simp_all
    from finish_node [OF val tr(1) full.prems(1) tr(2-4) n(3) c1(4,5) pS ch, where Y = "FullNode kcs f"]
    obtain c d2 hsh where fin: "finish_hash h (FullNode ccs f) (FullNode kcs f) (wdb wr d1) r =
          TOk (c, set_cache hsh wr (FullNode kcs f), wdb wr d2)" "hashed sha r c ?N" "d1 \<subseteq>\<^sub>m d2" "tracked sha wr S d2"
        "wr \<longrightarrow> saved sha d2 r ?N" "\<not> wr \<longrightarrow> d2 = d1"
        "ok_flag sha d2 r (f\<lparr>fl_hash := hsh, fl_dirty := (if wr then False else fl_dirty f)\<rparr>) ?N"
      by blast
    have "node_hash h n (wdb wr d) r = TOk (c, set_cache hsh wr (FullNode kcs f), wdb wr d2)"
      using a(4) n(1) c1(1) fin(1) by simp
    moreover have "rep sha d2 r (set_cache hsh wr (FullNode kcs f)) ?N"
      using fin(7) c1(3) rep_mono fin(3) by (auto simp: list_all2_conv_all_nth intro!: rep.full)
    ultimately show "\<exists>c n' d'. node_hash h n (wdb wr d) r = TOk (c, n', wdb wr d') \<and> hashed sha r c ?N \<and> rep sha d' r n' ?N \<and>
        d \<subseteq>\<^sub>m d' \<and> tracked sha wr S d' \<and> (wr \<longrightarrow> saved sha d' r ?N) \<and> (\<not> wr \<longrightarrow> d' = d)"
      using fin c1(7) map_le_trans [OF c1(4) fin(3)] by blast
  qed simp
qed

end

section \<open>Root hash, commit and reopening\<close>

definition root_hash :: "(bytes \<Rightarrow> bytes) \<Rightarrow> ptrie \<Rightarrow> bytes" where
  "root_hash sha N = (if N = PNil then emptyRoot else sha (penc sha N))"

text \<open>The encodings of all nodes of the trie with the given contents.\<close>

definition trie_encodings :: "(bytes \<Rightarrow> bytes) \<Rightarrow> (bytes \<rightharpoonup> bytes) \<Rightarrow> bytes set" where
  "trie_encodings sha m = {penc sha M |M N. M \<in> subs N \<and> wf0 N \<and> contents N m}"

definition plain_put :: db_put where
  "plain_put d k v = Some (d(k \<mapsto> v))"

lemma hashRoot_ok:
  assumes "\<And>x. length (sha x) = 32" "wr \<Longrightarrow> put = plain_put" "wr \<Longrightarrow> inj_on sha S" "penc sha ` subs N \<subseteq> S" "wr \<Longrightarrow> addressed sha S db"
    "rep sha db True (tr_root t) N" "wf0 N" "small N"
  shows "\<exists>n' d'. hashRoot sha put t (wdb wr db) = TOk (HashNode (root_hash sha N), n', wdb wr d') \<and> rep sha d' True n' N \<and>
    db \<subseteq>\<^sub>m d' \<and> (wr \<longrightarrow> addressed sha S d' \<and> (N \<noteq> PNil \<longrightarrow> saved sha d' True N)) \<and> (\<not> wr \<longrightarrow> d' = db)"
proof (cases "N = PNil")
  case True
  then show ?thesis
    using assms(5,6) by (auto simp: hashRoot_def root_hash_def)
next
  case False
  then have w: "minimal N" "tr_root t \<noteq> NilNode"
    using assms(6,7) rep_nil_iff by (auto simp: wf0_def)
  let ?h = "newHasher sha put (tr_cachegen t) (tr_cachelimit t)"
  have "trie_hasher sha ?h wr S"
    using assms(1-3) by unfold_locales (auto simp: newHasher_def plain_put_def)
  from trie_hasher.hash_node_ok [OF this w(1) assms(8,4)] have "hash_ok sha ?h wr S True N"
    by blast
  then obtain c n' d' where "node_hash ?h (tr_root t) (wdb wr db) True = TOk (c, n', wdb wr d')" "hashed sha True c N"
      "rep sha d' True n' N" "db \<subseteq>\<^sub>m d'" "tracked sha wr S d'" "wr \<longrightarrow> saved sha d' True N" "\<not> wr \<longrightarrow> d' = db"
    using assms(5,6) unfolding hash_ok_def tracked_def by blast
  then show ?thesis
    using w(2) False by (auto simp: hashRoot_def root_hash_def hashed_def tracked_def)
qed

lemma trie_Hash_ok:
  assumes "\<And>x. length (sha x) = 32" "rep sha db True (tr_root t) N" "wf0 N" "small N"
  shows "\<exists>n'. trie_Hash sha t = TOk (root_hash sha N, t\<lparr>tr_root := n'\<rparr>) \<and> rep sha db True n' N"
proof -
  obtain n' where "hashRoot sha (\<lambda>_ _ _. None) t (wdb False db) = TOk (HashNode (root_hash sha N), n', wdb False db)" "rep sha db True n' N"
    using hashRoot_ok [of sha False "\<lambda>_ _ _. None" UNIV N db t] assms by auto
  then show ?thesis
    by (intro exI [of _ n']) (simp add: trie_Hash_def hash_bytes_of_def wdb_def)
qed

lemma CommitTo_ok:
  assumes "\<And>x. length (sha x) = 32" "inj_on sha S" "penc sha ` subs N \<subseteq> S" "addressed sha S db"
    "rep sha db True (tr_root t) N" "wf0 N" "small N"
  shows "\<exists>n' d'. CommitTo sha plain_put db t =
      TOk (root_hash sha N, t\<lparr>tr_root := n', tr_cachegen := tr_cachegen t + 1\<rparr>, d') \<and>
    rep sha d' True n' N \<and> db \<subseteq>\<^sub>m d' \<and> addressed sha S d' \<and> (N \<noteq> PNil \<longrightarrow> saved sha d' True N)"
proof -
  obtain n' d' where "hashRoot sha plain_put t (wdb True db) = TOk (HashNode (root_hash sha N), n', wdb True d')" "rep sha d' True n' N"
      "db \<subseteq>\<^sub>m d'" "addressed sha S d'" "N \<noteq> PNil \<longrightarrow> saved sha d' True N"
    using hashRoot_ok [of sha True plain_put S N db t, OF assms(1) refl assms(2-7)] unfolding simp_thms by metis
  then show ?thesis
    by (intro exI [of _ n'] exI [of _ d']) (simp add: CommitTo_def hash_bytes_of_def wdb_def)
qed

lemma trie_New_ok:
  assumes "\<And>x. length (sha x) = 32" "saved sha db True N" "minimal N" "small N"
    "sha (penc sha N) \<noteq> replicate 32 0" "sha (penc sha N) \<noteq> emptyRoot"
  shows "\<exists>n. trie_New (sha (penc sha N)) db = TOk \<lparr>tr_root = n, tr_cachegen = 0, tr_cachelimit = 0\<rparr> \<and> rep sha db True n N"
proof -
  have "keccak_size sha"
    using assms(1) by unfold_locales
  moreover have "rep sha db True (HashNode (sha (penc sha N))) N"
    using assms(2) minimal_is_tree [OF assms(3)] by (simp add: rep.hash)
  ultimately obtain n where "resolveHash db 0 (sha (penc sha N)) [] = TOk n" "rep sha db True n N"
    using keccak_size.resolveHash_rep assms(3,4) by blast
  then show ?thesis
    using assms(5,6) by (simp add: trie_New_def)
qed

end
