(* ===== verification/Trie_Proofs.thy ===== *)
theory Trie_Proofs
  imports Trie_Commit
begin

text \<open>
  Merkle proofs: what \<open>Prove\<close> produces for a key is accepted by \<open>VerifyProof\<close> with the value of the key, and
  no accepted proof gives another value unless it exhibits a collision of the hash function.
\<close>

section \<open>Walking through a decoded node\<close>

text \<open>The result of \<open>get\<close>: the end of the path, or the next node that is stored on its own with the rest of the key.\<close>

datatype walk = Absent | Found bytes | Next ptrie bytes

function pwalk :: "(bytes \<Rightarrow> bytes) \<Rightarrow> ptrie \<Rightarrow> bytes \<Rightarrow> walk" where
  "pwalk sha PNil key = Absent"
| "pwalk sha (PVal v) key = Found v"
| "pwalk sha (PShort k c) key =
     (if take (length k) key \<noteq> k then Absent
      else if is_tree c \<and> 32 \<le> length (penc sha c) then Next c (drop (length k) key)
      else pwalk sha c (drop (length k) key))"
| "pwalk sha (PFull cs) key =
     (if key = [] \<or> \<not> unat (key ! 0) < length cs then Absent
      else let c = cs ! unat (key ! 0) in
        if is_tree c \<and> 32 \<le> length (penc sha c) then Next c (drop 1 key) else pwalk sha c (drop 1 key))"
  by pat_completeness auto
termination
  by (relation "measure (size \<circ> fst \<circ> snd)") (auto simp: less_Suc_eq_le intro!: size_list_estimation' [OF nth_mem])

definition walk_result :: "(bytes \<Rightarrow> bytes) \<Rightarrow> walk \<Rightarrow> node \<Rightarrow> bytes option \<Rightarrow> bool" where
  "walk_result sha w c kr \<longleftrightarrow>
     (case w of Absent \<Rightarrow> c = NilNode | Found v \<Rightarrow> c = ValueNode v | Next M k \<Rightarrow> c = HashNode (sha (penc sha M)) \<and> kr = Some k)"

lemma take_short_eq: "(length key < length k \<or> k \<noteq> take (length k) key) \<longleftrightarrow> take (length k) key \<noteq> k"
  by (metis length_take min.strict_order_iff)

lemma trie_get_load:
  assumes "at_key N key"
  shows "\<exists>kr c. trie_get (load sha gen h N) key = TOk (kr, c) \<and> walk_result sha (pwalk sha N key) c kr"
  using assms
proof (induction sha N key arbitrary: h rule: pwalk.induct)
  case (3 sha k c key)
  have w: "hexkey key" "minimal (PShort k c)"
    using 3(2) by (auto simp: at_key_def wf0_def)
  show ?case
  proof (cases "take (length k) key = k")
    case True
    then have at: "at_key c (drop (length k) key)"
      using at_key_short_child w by blast
    show ?thesis
    proof (cases "is_tree c \<and> 32 \<le> length (penc sha c)")
      case big: True
      then show ?thesis
        using True take_short_eq [of key k] by (simp add: walk_result_def load_ref_def)
    next
      case False
      then show ?thesis
        using 3(1) [OF _ False at, of None] True take_short_eq [of key k] by (auto simp: load_ref_def)
    qed
  next
    case False
    then show ?thesis
      using take_short_eq [of key k] by (simp add: walk_result_def)
  qed
next
  case (4 sha cs key)
  obtain x xs where key: "key = x # xs" "hexkey (x # xs)" and w: "minimal (PFull cs)"
    using 4(2) by (cases key) (auto simp: at_key_def wf0_def)
  note ch = minimal_full_child [OF w key(2)]
  show ?case
  proof (cases "is_tree (cs ! unat x) \<and> 32 \<le> length (penc sha (cs ! unat x))")
    case True
    then show ?thesis
      using ch by (simp add: key walk_result_def load_ref_def)
  next
    case False
    then show ?thesis
      using 4(1) [of "cs ! unat x" None] ch by (auto simp: key load_ref_def)
  qed
qed (simp_all add: walk_result_def)

lemma pwalk_pget:
  assumes "at_key N key"
  shows "case pwalk sha N key of
      Absent \<Rightarrow> pget N key = None
    | Found v \<Rightarrow> pget N key = Some v
    | Next M k \<Rightarrow> M \<in> subs N \<and> subs M \<subseteq> subs N \<and> minimal M \<and> hexkey k \<and> pget M k = pget N key \<and> (small N \<longrightarrow> small M) \<and> size M < size N"
  using assms
proof (induction sha N key rule: pwalk.induct)
  case (2 sha v key)
  then show ?case
    by (auto simp: at_key_def wf0_def)
next
  case (3 sha k c key)
  have w: "hexkey key" "minimal (PShort k c)"
    using 3(2) by (auto simp: at_key_def wf0_def)
  show ?case
  proof (cases "take (length k) key = k")
    case True
    then have at: "at_key c (drop (length k) key)"
      using at_key_short_child w by blast
    show ?thesis
    proof (cases "is_tree c \<and> 32 \<le> length (penc sha c)")
      case big: True
      then show ?thesis
        using True at subs_self [of c] by (auto simp: at_key_def wf0_def)
    next
      case False
      then show ?thesis
        using 3(1) [OF _ False at] True by (auto split: walk.splits)
    qed
  qed simp
next
  case (4 sha cs key)
  obtain x xs where key: "key = x # xs" "hexkey (x # xs)" and w: "minimal (PFull cs)"
    using 4(2) by (cases key) (auto simp: at_key_def wf0_def)
  note ch = minimal_full_child [OF w key(2)]
  then have mem: "cs ! unat x \<in> set cs"
    by simp
  then have sz: "size (cs ! unat x) < size (PFull cs)"
    by (simp add: less_Suc_eq_le size_list_estimation')
  show ?case
  proof (cases "is_tree (cs ! unat x) \<and> 32 \<le> length (penc sha (cs ! unat x))")
    case True
    then show ?thesis
      using ch mem sz subs_self [of "cs ! unat x"] by (auto simp: key at_key_def wf0_def)
  next
    case False
    then show ?thesis
      using 4(1) [of "cs ! unat x"] ch mem sz by (auto simp: key split: walk.splits)
  qed
qed simp

section \<open>Soundness\<close>

context keccak_size
begin

lemma verify_step:
  assumes "minimal N" "small N" "hexkey key"
  shows "verify_loop sha i (penc sha N # rest) key (sha (penc sha N)) =
    (case pwalk sha N key of
       Absent \<Rightarrow> TOk (if rest \<noteq> [] then Inl (KeyMismatch i) else Inr None)
     | Found v \<Rightarrow> TOk (if rest \<noteq> [] then Inl AdditionalNodes else Inr (Some v))
     | Next M k \<Rightarrow> verify_loop sha (i + 1) rest k (sha (penc sha M)))"
proof -
  have dec: "decodeNode (Some (sha (penc sha N))) (penc sha N) 0 = TOk (load sha 0 (Some (sha (penc sha N))) N)"
    using decode_node_penc [OF assms(1,2), of "[]"] length_penc [OF assms(2)]
    by (simp add: decodeNode_def del: decode_node.simps)
  have "at_key N key"
    using assms by (simp add: at_key_def wf0_def)
  from trie_get_load [OF this] obtain kr c where
    "trie_get (load sha 0 (Some (sha (penc sha N))) N) key = TOk (kr, c)" "walk_result sha (pwalk sha N key) c kr"
    by blast
  then show ?thesis
    using dec by (auto simp: walk_result_def split: walk.splits)
qed

lemma verify_sound:
  assumes "minimal N" "small N" "hexkey key" "inj_on sha (set ps \<union> penc sha ` subs N)"
  shows "\<exists>res. verify_loop sha i ps key (sha (penc sha N)) = TOk res \<and> (\<forall>v. res = Inr v \<longrightarrow> v = pget N key)"
  using assms
proof (induction ps arbitrary: i key N)
  case (Cons b ps)
  have N: "N \<in> subs N" "at_key N key"
    using Cons.prems(1,3) minimal_is_tree subs_self by (auto simp: at_key_def wf0_def)
  show ?case
  proof (cases "sha b = sha (penc sha N)")
    case True
    then have "b = penc sha N"
      using Cons.prems(4) N(1) by (auto simp: inj_on_def)
    then have v: "verify_loop sha i (b # ps) key (sha (penc sha N)) =
      (case pwalk sha N key of
         Absent \<Rightarrow> TOk (if ps \<noteq> [] then Inl (KeyMismatch i) else Inr None)
       | Found v \<Rightarrow> TOk (if ps \<noteq> [] then Inl AdditionalNodes else Inr (Some v))
       | Next M k \<Rightarrow> verify_loop sha (i + 1) ps k (sha (penc sha M)))"
      using verify_step [OF Cons.prems(1-3)] by simp
    show ?thesis
    proof (cases "pwalk sha N key")
      case (Next M k)
      then have M: "minimal M" "hexkey k" "pget M k = pget N key" "small M" "subs M \<subseteq> subs N"
        using pwalk_pget [OF N(2), of sha] Cons.prems(2) by auto
      have "inj_on sha (set ps \<union> penc sha ` subs M)"
        by (rule inj_on_subset [OF Cons.prems(4)]) (use M(5) in auto)
      then show ?thesis
        using Cons.IH [OF M(1,4,2), of "i + 1"] M(3) Next unfolding v by simp
    qed (use pwalk_pget [OF N(2), of sha] v in auto)
  next
    case False
    then show ?thesis
      by simp
  qed
qed simp

end

section \<open>Completeness\<close>

function ppath :: "ptrie \<Rightarrow> bytes \<Rightarrow> ptrie list" where
  "ppath (PShort k c) key =
     (if key = [] then [] else PShort k c # (if take (length k) key = k then ppath c (drop (length k) key) else []))"
| "ppath (PFull cs) key =
     (if key = [] then [] else PFull cs # (if unat (key ! 0) < length cs then ppath (cs ! unat (key ! 0)) (drop 1 key) else []))"
| "ppath PNil key = []"
| "ppath (PVal v) key = []"
  by pat_completeness auto
termination
  by (relation "measure (size \<circ> fst)") (auto simp: less_Suc_eq_le intro!: size_list_estimation' [OF nth_mem])

definition bigs :: "(bytes \<Rightarrow> bytes) \<Rightarrow> ptrie list \<Rightarrow> bytes list" where
  "bigs sha Ms = map (penc sha) (filter (\<lambda>M. 32 \<le> length (penc sha M)) Ms)"

lemma ppath_minimal: "minimal N \<Longrightarrow> hexkey key \<Longrightarrow> \<exists>Ms. ppath N key = N # Ms"
  by (cases N) (auto simp: hexkey_not_Nil)

lemma bigs_small: "minimal c \<Longrightarrow> hexkey key \<Longrightarrow> length (penc sha c) < 32 \<Longrightarrow> bigs sha (ppath c key) = bigs sha (tl (ppath c key))"
  using ppath_minimal [of c key] by (auto simp: bigs_def)

lemma bigs_pwalk:
  assumes "at_key N key"
  shows "case pwalk sha N key of Next M k \<Rightarrow> bigs sha (tl (ppath N key)) = penc sha M # bigs sha (tl (ppath M k)) \<and> 32 \<le> length (penc sha M)
    | _ \<Rightarrow> bigs sha (tl (ppath N key)) = []"
  using assms
proof (induction sha N key rule: pwalk.induct)
  case (3 sha k c key)
  have w: "hexkey key" "minimal (PShort k c)"
    using 3(2) by (auto simp: at_key_def wf0_def)
  show ?case
  proof (cases "take (length k) key = k")
    case True
    then have at: "at_key c (drop (length k) key)"
      using at_key_short_child w by blast
    have tl: "tl (ppath (PShort k c) key) = ppath c (drop (length k) key)"
      using True w(1) hexkey_not_Nil by auto
    show ?thesis
    proof (cases "is_tree c \<and> 32 \<le> length (penc sha c)")
      case big: True
      then have "minimal c" "hexkey (drop (length k) key)"
        using at by (auto simp: at_key_def wf0_def)
      then obtain Ms where "ppath c (drop (length k) key) = c # Ms"
        using ppath_minimal by blast
      then show ?thesis
        using True big unfolding tl by (simp add: bigs_def)
    next
      case False
      have "bigs sha (ppath c (drop (length k) key)) = bigs sha (tl (ppath c (drop (length k) key)))"
        using at False bigs_small minimal_is_tree by (auto simp: at_key_def wf0_def)
      then show ?thesis
        using 3(1) [OF _ False at] True False unfolding tl by (simp split: walk.splits)
    qed
  next
    case False
    then show ?thesis
      by (simp add: bigs_def)
  qed
next
  case (4 sha cs key)
  obtain x xs where key: "key = x # xs" "hexkey (x # xs)" and w: "minimal (PFull cs)"
    using 4(2) by (cases key) (auto simp: at_key_def wf0_def)
  let ?c = "cs ! unat x"
  note ch = minimal_full_child [OF w key(2)]
  have tl: "tl (ppath (PFull cs) key) = ppath ?c xs"
    using ch by (simp add: key)
  show ?case
  proof (cases "is_tree ?c \<and> 32 \<le> length (penc sha ?c)")
    case True
    then have "minimal ?c" "hexkey xs"
      using ch by (auto simp: at_key_def wf0_def)
    then obtain Ms where "ppath ?c xs = ?c # Ms"
      using ppath_minimal by blast
    then show ?thesis
      using True ch unfolding tl by (simp add: bigs_def key)
  next
    case False
    have "bigs sha (ppath ?c xs) = bigs sha (tl (ppath ?c xs))"
      using ch False bigs_small minimal_is_tree by (auto simp: at_key_def wf0_def)
    then show ?thesis
      using 4(1) [of ?c] ch False unfolding tl by (simp add: key Let_def split: walk.splits)
  qed
qed (simp_all add: bigs_def)

context keccak_size
begin

lemma verify_complete:
  assumes "minimal N" "small N" "hexkey key"
  shows "verify_loop sha i (penc sha N # bigs sha (tl (ppath N key))) key (sha (penc sha N)) = TOk (Inr (pget N key))"
  using assms
proof (induction "size N" arbitrary: N key i rule: less_induct)
  case less
  have at: "at_key N key"
    using less.prems by (simp add: at_key_def wf0_def)
  show ?case
  proof (cases "pwalk sha N key")
    case (Next M k)
    then have "minimal M" "hexkey k" "pget M k = pget N key" "small M" "size M < size N"
      using pwalk_pget [OF at, of sha] less.prems(2) by auto
    then show ?thesis
      using verify_step [OF less.prems] less.hyps bigs_pwalk [OF at, of sha] Next by simp
  qed (use verify_step [OF less.prems] bigs_pwalk [OF at, of sha] pwalk_pget [OF at, of sha] in simp_all)
qed

text \<open>The nodes that \<open>Prove\<close> collects stand for the nodes on the path.\<close>

definition stands :: "node_db \<Rightarrow> node \<Rightarrow> ptrie \<Rightarrow> bool" where
  "stands db n M \<longleftrightarrow> (\<exists>r. rep sha db r n M) \<and> \<not> is_hash n \<and> minimal M \<and> small M"

lemma prove_path_rep:
  assumes "rep sha db r n N" "at_key N key" "small N" "2 * length key + (if is_hash n then 2 else 1) \<le> m"
  shows "\<exists>ns. prove_path db gen m n key = TOk ns \<and> list_all2 (stands db) ns (ppath N key)"
  using assms
proof (induction m arbitrary: r n N key)
  case (Suc m)
  from Suc.prems(1) show ?case
  proof (cases rule: rep.cases)
    case (short c C f k)
    have w: "hexkey key" "minimal (PShort k C)"
      using Suc.prems(2) by (auto simp: short at_key_def wf0_def)
    then have ne: "key \<noteq> []" "k \<noteq> []"
      by (auto elim: minimal_short)
    have st: "stands db n N"
      using Suc.prems(1,3) w(2) by (auto simp: stands_def short)
    show ?thesis
    proof (cases "take (length k) key = k")
      case True
      have len: "length k \<le> length key"
        using True by (metis length_take min.cobounded1)
      have "2 * length (drop (length k) key) + (if is_hash c then 2 else 1) \<le> m"
        using Suc.prems(4) ne(2) len by (cases k) (auto simp: short)
      then obtain ns where "prove_path db gen m c (drop (length k) key) = TOk ns"
          "list_all2 (stands db) ns (ppath C (drop (length k) key))"
        using Suc.IH [OF short(3) at_key_short_child [OF w(2,1) True]] Suc.prems(3) short(2) by auto
      then show ?thesis
        using True ne len st by (auto simp: short)
    next
      case False
      then show ?thesis
        using ne st by (auto simp: short)
    qed
  next
    case (full ns Ns f)
    obtain x xs where key: "key = x # xs" "hexkey (x # xs)" and w: "minimal (PFull Ns)"
      using Suc.prems(2) by (cases key) (auto simp: full at_key_def wf0_def)
    note ch = minimal_full_child [OF w key(2)]
    have st: "stands db n N"
      using Suc.prems(1,3) w by (auto simp: stands_def full)
    have small: "small (Ns ! unat x)"
      using Suc.prems(3) ch by (auto simp: full)
    have "2 * length xs + (if is_hash (ns ! unat x) then 2 else 1) \<le> m"
      using Suc.prems(4) by (auto simp: full key(1))
    then obtain ms where "prove_path db gen m (ns ! unat x) xs = TOk ms" "list_all2 (stands db) ms (ppath (Ns ! unat x) xs)"
      using Suc.IH [OF full(4), of "unat x" xs] ch small by auto
    then show ?thesis
      using ch st full(3) by (auto simp: full(1,2) key child_def)
  next
    case hash
    have w: "minimal N" "hexkey key"
      using at_key_hash Suc.prems(1,2) hash(1) by blast+
    obtain c where c: "resolveHash db gen (sha (penc sha N)) [] = TOk c" "rep sha db r c N" "\<not> is_hash c"
      using resolveHash_rep [OF _ w(1) Suc.prems(3)] Suc.prems(1) hash(1) by metis
    then show ?thesis
      using Suc.IH [OF c(2) Suc.prems(2,3)] Suc.prems(4) hash(1) w(2) hexkey_not_Nil by auto
  qed (use Suc.prems in \<open>auto simp: at_key_def wf0_def\<close>)
qed (auto split: if_splits)

end

text \<open>Collapsing the nodes on the path.\<close>

context trie_hasher
begin

lemma full_kids:
  assumes "minimal (PFull cs)" "small (PFull cs)" "penc sha ` subs (PFull cs) \<subseteq> S" "j < length cs"
  shows "cs ! j = PNil \<or> (0 + j < 16 \<and> is_tree (cs ! j) \<and> hash_ok sha h wr S False (cs ! j)) \<or>
    (0 + j = 16 \<and> (\<exists>v. cs ! j = PVal v))"
proof -
  have "small (cs ! j)" "penc sha ` subs (cs ! j) \<subseteq> S"
    using assms(2) subs_full [OF assms(3)] nth_mem [OF assms(4)] by auto
  then have "minimal (cs ! j) \<Longrightarrow> is_tree (cs ! j) \<and> hash_ok sha h wr S False (cs ! j)"
    using hash_node_ok minimal_is_tree by blast
  then show ?thesis
    using assms(1,4) by (cases "j < 16") (auto elim!: minimal_PFullE simp: not_less le_eq_less_or_eq)
qed

lemma hashChildren_ok:
  assumes "rep sha d r n N" "\<not> is_hash n" "minimal N" "small N" "penc sha ` subs N \<subseteq> S" "\<not> wr"
  shows "\<exists>X f. hashChildren h n None = TOk (X, None) \<and> node_val X = pval sha N \<and> X \<noteq> NilNode \<and> \<not> is_hash X \<and>
    cache X = (fl_hash f, fl_dirty f) \<and> ok_flag sha d r f N"
proof -
  have wdb: "wdb wr x = None" and tracked: "tracked sha wr S x" for x
    using assms(6) by (simp_all add: wdb_def tracked_def)
  show ?thesis
    using assms(3)
  proof (cases rule: minimal.cases)
    case (leaf k v)
    obtain f where n: "n = ShortNode k (ValueNode v) f" "ok_flag sha d r f N"
      using rep_PShort [of sha d r n k "PVal v"] assms(1,2) leaf(1) by auto
    then show ?thesis
      using leaf(1) by (intro exI [of _ "ShortNode (hexToCompact k) (ValueNode v) f"] exI [of _ f]) (simp add: is_value_def)
  next
    case (ext k cs)
    have ok: "hash_ok sha h wr S False (PFull cs)"
      using hash_node_ok [OF ext(4)] assms(4,5) ext(1) by (auto simp del: subs.simps(2))
    obtain m f where n: "n = ShortNode k m f" "rep sha d False m (PFull cs)" "ok_flag sha d r f N"
      using rep_PShort [of sha d r n k "PFull cs"] assms(1,2) ext(1) by auto
    then obtain cv kv d1 where c: "node_hash h m None False = TOk (cv, kv, None)" "hashed sha False cv (PFull cs)"
      using ok tracked wdb unfolding hash_ok_def by metis
    have "\<not> is_value m"
      using n(2) by (auto simp: is_value_def elim: rep.cases)
    then show ?thesis
      using c(1) hashed_val [OF c(2)] n ext(1)
      by (intro exI [of _ "ShortNode (hexToCompact k) cv f"] exI [of _ f]) simp
  next
    case (full cs i j)
    obtain ns f where n: "n = FullNode ns f" "list_all2 (rep sha d False) ns cs" "ok_flag sha d r f N"
      using rep_PFull [of sha d r n cs] assms(1,2) full(1) by (auto simp: list_all2_conv_all_nth)
    have kids: "cs ! j = PNil \<or> (0 + j < 16 \<and> is_tree (cs ! j) \<and> hash_ok sha h wr S False (cs ! j)) \<or>
       (0 + j = 16 \<and> (\<exists>v. cs ! j = PVal v))" if "j < length cs" for j
      using full_kids [of cs j] assms(3,4,5) full(1) that by blast
    obtain ccs kcs where "hash_list h 0 ns None = TOk (ccs, kcs, None)" "map node_val ccs = map (pref sha) cs"
      using hash_list_ok [OF n(2) tracked kids] unfolding wdb by blast
    then show ?thesis
      using n full(1) by (intro exI [of _ "FullNode ccs f"] exI [of _ f]) simp
  qed
qed

lemma prove_encode_ok:
  assumes "\<not> wr" "list_all2 (keccak_size.stands sha db) ns Ms" "S = UNIV"
  shows "prove_encode h i ns = TOk (case Ms of [] \<Rightarrow> [] | M # Ms' \<Rightarrow> if i = 0 then penc sha M # bigs sha Ms' else bigs sha Ms)"
  using assms(2)
proof (induction ns arbitrary: i Ms rule: list.induct)
  case (Cons n ns)
  then obtain M Ms' where Ms: "Ms = M # Ms'" "stands db n M" "list_all2 (stands db) ns Ms'"
    by (auto simp: list_all2_Cons1)
  then obtain r where M: "rep sha db r n M" "\<not> is_hash n" "minimal M" "small M"
    by (auto simp: stands_def)
  obtain X f where X: "hashChildren h n None = TOk (X, None)" "node_val X = pval sha M" "X \<noteq> NilNode" "\<not> is_hash X"
      "cache X = (fl_hash f, fl_dirty f)" "ok_flag sha db r f M"
    using hashChildren_ok [OF M] assms(1,3) by auto
  have "store h X None False = (if 32 \<le> length (penc sha M) then TOk (HashNode (sha (penc sha M)), None) else TOk (X, None))"
    using store_node [OF X(2) minimal_is_tree [OF M(3)] M(4) X(3-6), of "\<lambda>_. None" False] assms(1) by (simp add: wdb_def)
  moreover have "(case X of HashNode _ \<Rightarrow> True | _ \<Rightarrow> False) = False"
    using X(4) by (cases X) auto
  moreover have "EncodeToBytes (node_val X) = Some (penc sha M)"
    using EncodeToBytes_enc [of "pval sha M"] length_penc [OF M(4)] X(2) by (simp add: penc_def)
  moreover have "prove_encode h (Suc i) ns = TOk (bigs sha Ms')"
    using Cons.IH [OF Ms(3), of "Suc i"] by (cases Ms') (auto simp: bigs_def)
  ultimately show ?case
    using X(1) by (auto simp: Ms(1) bigs_def)
qed simp

end

end
