(* ===== verification/Sha3.thy ===== *)
theory Sha3
  imports Go_Prelude
begin

text \<open>
  The Keccak sponge of \<open>common/crypto/sha3\<close> (keccakf.go, sha3.go, hashes.go, xor_generic.go, xor_unaligned.go):
  the permutation with its four unrolled rounds in place, and the absorbing and squeezing of bytes.
\<close>

unbundle bit_operations_syntax

section \<open>keccakf.go\<close>

definition keccak_rc :: "u64 list" where
  "keccak_rc =
     [0x0000000000000001, 0x0000000000008082, 0x800000000000808A, 0x8000000080008000,
      0x000000000000808B, 0x0000000080000001, 0x8000000080008081, 0x8000000000008009,
      0x000000000000008A, 0x0000000000000088, 0x0000000080008009, 0x000000008000000A,
      0x000000008000808B, 0x800000000000008B, 0x8000000000008089, 0x8000000000008003,
      0x8000000000008002, 0x8000000000000080, 0x000000000000800A, 0x800000008000000A,
      0x8000000080008081, 0x8000000000008080, 0x0000000080000001, 0x8000000080008008]"

text \<open>The idiom \<open>t<<n | t>>(64-n)\<close>.\<close>

definition rotl :: "nat \<Rightarrow> u64 \<Rightarrow> u64" where
  "rotl n t = push_bit n t OR drop_bit (64 - n) t"

text \<open>The four rounds of one pass of the loop, each with five groups of five lanes that are updated in place;
  every round leaves the lanes in another order.\<close>

definition keccak_r1_b1 :: "u64 \<Rightarrow> u64 \<Rightarrow> u64 \<Rightarrow> u64 \<Rightarrow> u64 \<Rightarrow> u64 \<Rightarrow> u64 list \<Rightarrow> u64 list" where
  "keccak_r1_b1 rc d0 d1 d2 d3 d4 a =
     (let bc0 = a ! 0 XOR d0;
          t = a ! 6 XOR d1;
          bc1 = rotl 44 t;
          t = a ! 12 XOR d2;
          bc2 = rotl 43 t;
          t = a ! 18 XOR d3;
          bc3 = rotl 21 t;
          t = a ! 24 XOR d4;
          bc4 = rotl 14 t;
          a = a[0 := bc0 XOR (bc2 AND NOT bc1) XOR rc];
          a = a[6 := bc1 XOR (bc3 AND NOT bc2)];
          a = a[12 := bc2 XOR (bc4 AND NOT bc3)];
          a = a[18 := bc3 XOR (bc0 AND NOT bc4)];
          a = a[24 := bc4 XOR (bc1 AND NOT bc0)]
      in a)"

definition keccak_r1_b2 :: "u64 \<Rightarrow> u64 \<Rightarrow> u64 \<Rightarrow> u64 \<Rightarrow> u64 \<Rightarrow> u64 list \<Rightarrow> u64 list" where
  "keccak_r1_b2 d0 d1 d2 d3 d4 a =
     (let t = a ! 10 XOR d0;
          bc2 = rotl 3 t;
          t = a ! 16 XOR d1;
          bc3 = rotl 45 t;
          t = a ! 22 XOR d2;
          bc4 = rotl 61 t;
          t = a ! 3 XOR d3;
          bc0 = rotl 28 t;
          t = a ! 9 XOR d4;
          bc1 = rotl 20 t;
          a = a[10 := bc0 XOR (bc2 AND NOT bc1)];
          a = a[16 := bc1 XOR (bc3 AND NOT bc2)];
          a = a[22 := bc2 XOR (bc4 AND NOT bc3)];
          a = a[3 := bc3 XOR (bc0 AND NOT bc4)];
          a = a[9 := bc4 XOR (bc1 AND NOT bc0)]
      in a)"

definition keccak_r1_b3 :: "u64 \<Rightarrow> u64 \<Rightarrow> u64 \<Rightarrow> u64 \<Rightarrow> u64 \<Rightarrow> u64 list \<Rightarrow> u64 list" where
  "keccak_r1_b3 d0 d1 d2 d3 d4 a =
     (let t = a ! 20 XOR d0;
          bc4 = rotl 18 t;
          t = a ! 1 XOR d1;
          bc0 = rotl 1 t;
          t = a ! 7 XOR d2;
          bc1 = rotl 6 t;
          t = a ! 13 XOR d3;
          bc2 = rotl 25 t;
          t = a ! 19 XOR d4;
          bc3 = rotl 8 t;
          a = a[20 := bc0 XOR (bc2 AND NOT bc1)];
          a = a[1 := bc1 XOR (bc3 AND NOT bc2)];
          a = a[7 := bc2 XOR (bc4 AND NOT bc3)];
          a = a[13 := bc3 XOR (bc0 AND NOT bc4)];
          a = a[19 := bc4 XOR (bc1 AND NOT bc0)]
      in a)"

definition keccak_r1_b4 :: "u64 \<Rightarrow> u64 \<Rightarrow> u64 \<Rightarrow> u64 \<Rightarrow> u64 \<Rightarrow> u64 list \<Rightarrow> u64 list" where
  "keccak_r1_b4 d0 d1 d2 d3 d4 a =
     (let t = a ! 5 XOR d0;
          bc1 = rotl 36 t;
          t = a ! 11 XOR d1;
          bc2 = rotl 10 t;
          t = a ! 17 XOR d2;
          bc3 = rotl 15 t;
          t = a ! 23 XOR d3;
          bc4 = rotl 56 t;
          t = a ! 4 XOR d4;
          bc0 = rotl 27 t;
          a = a[5 := bc0 XOR (bc2 AND NOT bc1)];
          a = a[11 := bc1 XOR (bc3 AND NOT bc2)];
          a = a[17 := bc2 XOR (bc4 AND NOT bc3)];
          a = a[23 := bc3 XOR (bc0 AND NOT bc4)];
          a = a[4 := bc4 XOR (bc1 AND NOT bc0)]
      in a)"

definition keccak_r1_b5 :: "u64 \<Rightarrow> u64 \<Rightarrow> u64 \<Rightarrow> u64 \<Rightarrow> u64 \<Rightarrow> u64 list \<Rightarrow> u64 list" where
  "keccak_r1_b5 d0 d1 d2 d3 d4 a =
     (let t = a ! 15 XOR d0;
          bc3 = rotl 41 t;
          t = a ! 21 XOR d1;
          bc4 = rotl 2 t;
          t = a ! 2 XOR d2;
          bc0 = rotl 62 t;
          t = a ! 8 XOR d3;
          bc1 = rotl 55 t;
          t = a ! 14 XOR d4;
          bc2 = rotl 39 t;
          a = a[15 := bc0 XOR (bc2 AND NOT bc1)];
          a = a[21 := bc1 XOR (bc3 AND NOT bc2)];
          a = a[2 := bc2 XOR (bc4 AND NOT bc3)];
          a = a[8 := bc3 XOR (bc0 AND NOT bc4)];
          a = a[14 := bc4 XOR (bc1 AND NOT bc0)]
      in a)"

definition keccak_round1 :: "u64 \<Rightarrow> u64 list \<Rightarrow> u64 list" where
  "keccak_round1 rc a =
     (let bc0 = a ! 0 XOR a ! 5 XOR a ! 10 XOR a ! 15 XOR a ! 20;
          bc1 = a ! 1 XOR a ! 6 XOR a ! 11 XOR a ! 16 XOR a ! 21;
          bc2 = a ! 2 XOR a ! 7 XOR a ! 12 XOR a ! 17 XOR a ! 22;
          bc3 = a ! 3 XOR a ! 8 XOR a ! 13 XOR a ! 18 XOR a ! 23;
          bc4 = a ! 4 XOR a ! 9 XOR a ! 14 XOR a ! 19 XOR a ! 24;
          d0 = bc4 XOR (rotl 1 bc1);
          d1 = bc0 XOR (rotl 1 bc2);
          d2 = bc1 XOR (rotl 1 bc3);
          d3 = bc2 XOR (rotl 1 bc4);
          d4 = bc3 XOR (rotl 1 bc0)
      in keccak_r1_b5 d0 d1 d2 d3 d4
           (keccak_r1_b4 d0 d1 d2 d3 d4
           (keccak_r1_b3 d0 d1 d2 d3 d4
           (keccak_r1_b2 d0 d1 d2 d3 d4
           (keccak_r1_b1 rc d0 d1 d2 d3 d4 a)))))"

definition keccak_r2_b1 :: "u64 \<Rightarrow> u64 \<Rightarrow> u64 \<Rightarrow> u64 \<Rightarrow> u64 \<Rightarrow> u64 \<Rightarrow> u64 list \<Rightarrow> u64 list" where
  "keccak_r2_b1 rc d0 d1 d2 d3 d4 a =
     (let bc0 = a ! 0 XOR d0;
          t = a ! 16 XOR d1;
          bc1 = rotl 44 t;
          t = a ! 7 XOR d2;
          bc2 = rotl 43 t;
          t = a ! 23 XOR d3;
          bc3 = rotl 21 t;
          t = a ! 14 XOR d4;
          bc4 = rotl 14 t;
          a = a[0 := bc0 XOR (bc2 AND NOT bc1) XOR rc];
          a = a[16 := bc1 XOR (bc3 AND NOT bc2)];
          a = a[7 := bc2 XOR (bc4 AND NOT bc3)];
          a = a[23 := bc3 XOR (bc0 AND NOT bc4)];
          a = a[14 := bc4 XOR (bc1 AND NOT bc0)]
      in a)"

definition keccak_r2_b2 :: "u64 \<Rightarrow> u64 \<Rightarrow> u64 \<Rightarrow> u64 \<Rightarrow> u64 \<Rightarrow> u64 list \<Rightarrow> u64 list" where
  "keccak_r2_b2 d0 d1 d2 d3 d4 a =
     (let t = a ! 20 XOR d0;
          bc2 = rotl 3 t;
          t = a ! 11 XOR d1;
          bc3 = rotl 45 t;
          t = a ! 2 XOR d2;
          bc4 = rotl 61 t;
          t = a ! 18 XOR d3;
          bc0 = rotl 28 t;
          t = a ! 9 XOR d4;
          bc1 = rotl 20 t;
          a = a[20 := bc0 XOR (bc2 AND NOT bc1)];
          a = a[11 := bc1 XOR (bc3 AND NOT bc2)];
          a = a[2 := bc2 XOR (bc4 AND NOT bc3)];
          a = a[18 := bc3 XOR (bc0 AND NOT bc4)];
          a = a[9 := bc4 XOR (bc1 AND NOT bc0)]
      in a)"

definition keccak_r2_b3 :: "u64 \<Rightarrow> u64 \<Rightarrow> u64 \<Rightarrow> u64 \<Rightarrow> u64 \<Rightarrow> u64 list \<Rightarrow> u64 list" where
  "keccak_r2_b3 d0 d1 d2 d3 d4 a =
     (let t = a ! 15 XOR d0;
          bc4 = rotl 18 t;
          t = a ! 6 XOR d1;
          bc0 = rotl 1 t;
          t = a ! 22 XOR d2;
          bc1 = rotl 6 t;
          t = a ! 13 XOR d3;
          bc2 = rotl 25 t;
          t = a ! 4 XOR d4;
          bc3 = rotl 8 t;
          a = a[15 := bc0 XOR (bc2 AND NOT bc1)];
          a = a[6 := bc1 XOR (bc3 AND NOT bc2)];
          a = a[22 := bc2 XOR (bc4 AND NOT bc3)];
          a = a[13 := bc3 XOR (bc0 AND NOT bc4)];
          a = a[4 := bc4 XOR (bc1 AND NOT bc0)]
      in a)"

definition keccak_r2_b4 :: "u64 \<Rightarrow> u64 \<Rightarrow> u64 \<Rightarrow> u64 \<Rightarrow> u64 \<Rightarrow> u64 list \<Rightarrow> u64 list" where
  "keccak_r2_b4 d0 d1 d2 d3 d4 a =
     (let t = a ! 10 XOR d0;
          bc1 = rotl 36 t;
          t = a ! 1 XOR d1;
          bc2 = rotl 10 t;
          t = a ! 17 XOR d2;
          bc3 = rotl 15 t;
          t = a ! 8 XOR d3;
          bc4 = rotl 56 t;
          t = a ! 24 XOR d4;
          bc0 = rotl 27 t;
          a = a[10 := bc0 XOR (bc2 AND NOT bc1)];
          a = a[1 := bc1 XOR (bc3 AND NOT bc2)];
          a = a[17 := bc2 XOR (bc4 AND NOT bc3)];
          a = a[8 := bc3 XOR (bc0 AND NOT bc4)];
          a = a[24 := bc4 XOR (bc1 AND NOT bc0)]
      in a)"

definition keccak_r2_b5 :: "u64 \<Rightarrow> u64 \<Rightarrow> u64 \<Rightarrow> u64 \<Rightarrow> u64 \<Rightarrow> u64 list \<Rightarrow> u64 list" where
  "keccak_r2_b5 d0 d1 d2 d3 d4 a =
     (let t = a ! 5 XOR d0;
          bc3 = rotl 41 t;
          t = a ! 21 XOR d1;
          bc4 = rotl 2 t;
          t = a ! 12 XOR d2;
          bc0 = rotl 62 t;
          t = a ! 3 XOR d3;
          bc1 = rotl 55 t;
          t = a ! 19 XOR d4;
          bc2 = rotl 39 t;
          a = a[5 := bc0 XOR (bc2 AND NOT bc1)];
          a = a[21 := bc1 XOR (bc3 AND NOT bc2)];
          a = a[12 := bc2 XOR (bc4 AND NOT bc3)];
          a = a[3 := bc3 XOR (bc0 AND NOT bc4)];
          a = a[19 := bc4 XOR (bc1 AND NOT bc0)]
      in a)"

definition keccak_round2 :: "u64 \<Rightarrow> u64 list \<Rightarrow> u64 list" where
  "keccak_round2 rc a =
     (let bc0 = a ! 0 XOR a ! 5 XOR a ! 10 XOR a ! 15 XOR a ! 20;
          bc1 = a ! 1 XOR a ! 6 XOR a ! 11 XOR a ! 16 XOR a ! 21;
          bc2 = a ! 2 XOR a ! 7 XOR a ! 12 XOR a ! 17 XOR a ! 22;
          bc3 = a ! 3 XOR a ! 8 XOR a ! 13 XOR a ! 18 XOR a ! 23;
          bc4 = a ! 4 XOR a ! 9 XOR a ! 14 XOR a ! 19 XOR a ! 24;
          d0 = bc4 XOR (rotl 1 bc1);
          d1 = bc0 XOR (rotl 1 bc2);
          d2 = bc1 XOR (rotl 1 bc3);
          d3 = bc2 XOR (rotl 1 bc4);
          d4 = bc3 XOR (rotl 1 bc0)
      in keccak_r2_b5 d0 d1 d2 d3 d4
           (keccak_r2_b4 d0 d1 d2 d3 d4
           (keccak_r2_b3 d0 d1 d2 d3 d4
           (keccak_r2_b2 d0 d1 d2 d3 d4
           (keccak_r2_b1 rc d0 d1 d2 d3 d4 a)))))"

definition keccak_r3_b1 :: "u64 \<Rightarrow> u64 \<Rightarrow> u64 \<Rightarrow> u64 \<Rightarrow> u64 \<Rightarrow> u64 \<Rightarrow> u64 list \<Rightarrow> u64 list" where
  "keccak_r3_b1 rc d0 d1 d2 d3 d4 a =
     (let bc0 = a ! 0 XOR d0;
          t = a ! 11 XOR d1;
          bc1 = rotl 44 t;
          t = a ! 22 XOR d2;
          bc2 = rotl 43 t;
          t = a ! 8 XOR d3;
          bc3 = rotl 21 t;
          t = a ! 19 XOR d4;
          bc4 = rotl 14 t;
          a = a[0 := bc0 XOR (bc2 AND NOT bc1) XOR rc];
          a = a[11 := bc1 XOR (bc3 AND NOT bc2)];
          a = a[22 := bc2 XOR (bc4 AND NOT bc3)];
          a = a[8 := bc3 XOR (bc0 AND NOT bc4)];
          a = a[19 := bc4 XOR (bc1 AND NOT bc0)]
      in a)"

definition keccak_r3_b2 :: "u64 \<Rightarrow> u64 \<Rightarrow> u64 \<Rightarrow> u64 \<Rightarrow> u64 \<Rightarrow> u64 list \<Rightarrow> u64 list" where
  "keccak_r3_b2 d0 d1 d2 d3 d4 a =
     (let t = a ! 15 XOR d0;
          bc2 = rotl 3 t;
          t = a ! 1 XOR d1;
          bc3 = rotl 45 t;
          t = a ! 12 XOR d2;
          bc4 = rotl 61 t;
          t = a ! 23 XOR d3;
          bc0 = rotl 28 t;
          t = a ! 9 XOR d4;
          bc1 = rotl 20 t;
          a = a[15 := bc0 XOR (bc2 AND NOT bc1)];
          a = a[1 := bc1 XOR (bc3 AND NOT bc2)];
          a = a[12 := bc2 XOR (bc4 AND NOT bc3)];
          a = a[23 := bc3 XOR (bc0 AND NOT bc4)];
          a = a[9 := bc4 XOR (bc1 AND NOT bc0)]
      in a)"

definition keccak_r3_b3 :: "u64 \<Rightarrow> u64 \<Rightarrow> u64 \<Rightarrow> u64 \<Rightarrow> u64 \<Rightarrow> u64 list \<Rightarrow> u64 list" where
  "keccak_r3_b3 d0 d1 d2 d3 d4 a =
     (let t = a ! 5 XOR d0;
          bc4 = rotl 18 t;
          t = a ! 16 XOR d1;
          bc0 = rotl 1 t;
          t = a ! 2 XOR d2;
          bc1 = rotl 6 t;
          t = a ! 13 XOR d3;
          bc2 = rotl 25 t;
          t = a ! 24 XOR d4;
          bc3 = rotl 8 t;
          a = a[5 := bc0 XOR (bc2 AND NOT bc1)];
          a = a[16 := bc1 XOR (bc3 AND NOT bc2)];
          a = a[2 := bc2 XOR (bc4 AND NOT bc3)];
          a = a[13 := bc3 XOR (bc0 AND NOT bc4)];
          a = a[24 := bc4 XOR (bc1 AND NOT bc0)]
      in a)"

definition keccak_r3_b4 :: "u64 \<Rightarrow> u64 \<Rightarrow> u64 \<Rightarrow> u64 \<Rightarrow> u64 \<Rightarrow> u64 list \<Rightarrow> u64 list" where
  "keccak_r3_b4 d0 d1 d2 d3 d4 a =
     (let t = a ! 20 XOR d0;
          bc1 = rotl 36 t;
          t = a ! 6 XOR d1;
          bc2 = rotl 10 t;
          t = a ! 17 XOR d2;
          bc3 = rotl 15 t;
          t = a ! 3 XOR d3;
          bc4 = rotl 56 t;
          t = a ! 14 XOR d4;
          bc0 = rotl 27 t;
          a = a[20 := bc0 XOR (bc2 AND NOT bc1)];
          a = a[6 := bc1 XOR (bc3 AND NOT bc2)];
          a = a[17 := bc2 XOR (bc4 AND NOT bc3)];
          a = a[3 := bc3 XOR (bc0 AND NOT bc4)];
          a = a[14 := bc4 XOR (bc1 AND NOT bc0)]
      in a)"

definition keccak_r3_b5 :: "u64 \<Rightarrow> u64 \<Rightarrow> u64 \<Rightarrow> u64 \<Rightarrow> u64 \<Rightarrow> u64 list \<Rightarrow> u64 list" where
  "keccak_r3_b5 d0 d1 d2 d3 d4 a =
     (let t = a ! 10 XOR d0;
          bc3 = rotl 41 t;
          t = a ! 21 XOR d1;
          bc4 = rotl 2 t;
          t = a ! 7 XOR d2;
          bc0 = rotl 62 t;
          t = a ! 18 XOR d3;
          bc1 = rotl 55 t;
          t = a ! 4 XOR d4;
          bc2 = rotl 39 t;
          a = a[10 := bc0 XOR (bc2 AND NOT bc1)];
          a = a[21 := bc1 XOR (bc3 AND NOT bc2)];
          a = a[7 := bc2 XOR (bc4 AND NOT bc3)];
          a = a[18 := bc3 XOR (bc0 AND NOT bc4)];
          a = a[4 := bc4 XOR (bc1 AND NOT bc0)]
      in a)"

definition keccak_round3 :: "u64 \<Rightarrow> u64 list \<Rightarrow> u64 list" where
  "keccak_round3 rc a =
     (let bc0 = a ! 0 XOR a ! 5 XOR a ! 10 XOR a ! 15 XOR a ! 20;
          bc1 = a ! 1 XOR a ! 6 XOR a ! 11 XOR a ! 16 XOR a ! 21;
          bc2 = a ! 2 XOR a ! 7 XOR a ! 12 XOR a ! 17 XOR a ! 22;
          bc3 = a ! 3 XOR a ! 8 XOR a ! 13 XOR a ! 18 XOR a ! 23;
          bc4 = a ! 4 XOR a ! 9 XOR a ! 14 XOR a ! 19 XOR a ! 24;
          d0 = bc4 XOR (rotl 1 bc1);
          d1 = bc0 XOR (rotl 1 bc2);
          d2 = bc1 XOR (rotl 1 bc3);
          d3 = bc2 XOR (rotl 1 bc4);
          d4 = bc3 XOR (rotl 1 bc0)
      in keccak_r3_b5 d0 d1 d2 d3 d4
           (keccak_r3_b4 d0 d1 d2 d3 d4
           (keccak_r3_b3 d0 d1 d2 d3 d4
           (keccak_r3_b2 d0 d1 d2 d3 d4
           (keccak_r3_b1 rc d0 d1 d2 d3 d4 a)))))"

definition keccak_r4_b1 :: "u64 \<Rightarrow> u64 \<Rightarrow> u64 \<Rightarrow> u64 \<Rightarrow> u64 \<Rightarrow> u64 \<Rightarrow> u64 list \<Rightarrow> u64 list" where
  "keccak_r4_b1 rc d0 d1 d2 d3 d4 a =
     (let bc0 = a ! 0 XOR d0;
          t = a ! 1 XOR d1;
          bc1 = rotl 44 t;
          t = a ! 2 XOR d2;
          bc2 = rotl 43 t;
          t = a ! 3 XOR d3;
          bc3 = rotl 21 t;
          t = a ! 4 XOR d4;
          bc4 = rotl 14 t;
          a = a[0 := bc0 XOR (bc2 AND NOT bc1) XOR rc];
          a = a[1 := bc1 XOR (bc3 AND NOT bc2)];
          a = a[2 := bc2 XOR (bc4 AND NOT bc3)];
          a = a[3 := bc3 XOR (bc0 AND NOT bc4)];
          a = a[4 := bc4 XOR (bc1 AND NOT bc0)]
      in a)"

definition keccak_r4_b2 :: "u64 \<Rightarrow> u64 \<Rightarrow> u64 \<Rightarrow> u64 \<Rightarrow> u64 \<Rightarrow> u64 list \<Rightarrow> u64 list" where
  "keccak_r4_b2 d0 d1 d2 d3 d4 a =
     (let t = a ! 5 XOR d0;
          bc2 = rotl 3 t;
          t = a ! 6 XOR d1;
          bc3 = rotl 45 t;
          t = a ! 7 XOR d2;
          bc4 = rotl 61 t;
          t = a ! 8 XOR d3;
          bc0 = rotl 28 t;
          t = a ! 9 XOR d4;
          bc1 = rotl 20 t;
          a = a[5 := bc0 XOR (bc2 AND NOT bc1)];
          a = a[6 := bc1 XOR (bc3 AND NOT bc2)];
          a = a[7 := bc2 XOR (bc4 AND NOT bc3)];
          a = a[8 := bc3 XOR (bc0 AND NOT bc4)];
          a = a[9 := bc4 XOR (bc1 AND NOT bc0)]
      in a)"

definition keccak_r4_b3 :: "u64 \<Rightarrow> u64 \<Rightarrow> u64 \<Rightarrow> u64 \<Rightarrow> u64 \<Rightarrow> u64 list \<Rightarrow> u64 list" where
  "keccak_r4_b3 d0 d1 d2 d3 d4 a =
     (let t = a ! 10 XOR d0;
          bc4 = rotl 18 t;
          t = a ! 11 XOR d1;
          bc0 = rotl 1 t;
          t = a ! 12 XOR d2;
          bc1 = rotl 6 t;
          t = a ! 13 XOR d3;
          bc2 = rotl 25 t;
          t = a ! 14 XOR d4;
          bc3 = rotl 8 t;
          a = a[10 := bc0 XOR (bc2 AND NOT bc1)];
          a = a[11 := bc1 XOR (bc3 AND NOT bc2)];
          a = a[12 := bc2 XOR (bc4 AND NOT bc3)];
          a = a[13 := bc3 XOR (bc0 AND NOT bc4)];
          a = a[14 := bc4 XOR (bc1 AND NOT bc0)]
      in a)"

definition keccak_r4_b4 :: "u64 \<Rightarrow> u64 \<Rightarrow> u64 \<Rightarrow> u64 \<Rightarrow> u64 \<Rightarrow> u64 list \<Rightarrow> u64 list" where
  "keccak_r4_b4 d0 d1 d2 d3 d4 a =
     (let t = a ! 15 XOR d0;
          bc1 = rotl 36 t;
          t = a ! 16 XOR d1;
          bc2 = rotl 10 t;
          t = a ! 17 XOR d2;
          bc3 = rotl 15 t;
          t = a ! 18 XOR d3;
          bc4 = rotl 56 t;
          t = a ! 19 XOR d4;
          bc0 = rotl 27 t;
          a = a[15 := bc0 XOR (bc2 AND NOT bc1)];
          a = a[16 := bc1 XOR (bc3 AND NOT bc2)];
          a = a[17 := bc2 XOR (bc4 AND NOT bc3)];
          a = a[18 := bc3 XOR (bc0 AND NOT bc4)];
          a = a[19 := bc4 XOR (bc1 AND NOT bc0)]
      in a)"

definition keccak_r4_b5 :: "u64 \<Rightarrow> u64 \<Rightarrow> u64 \<Rightarrow> u64 \<Rightarrow> u64 \<Rightarrow> u64 list \<Rightarrow> u64 list" where
  "keccak_r4_b5 d0 d1 d2 d3 d4 a =
     (let t = a ! 20 XOR d0;
          bc3 = rotl 41 t;
          t = a ! 21 XOR d1;
          bc4 = rotl 2 t;
          t = a ! 22 XOR d2;
          bc0 = rotl 62 t;
          t = a ! 23 XOR d3;
          bc1 = rotl 55 t;
          t = a ! 24 XOR d4;
          bc2 = rotl 39 t;
          a = a[20 := bc0 XOR (bc2 AND NOT bc1)];
          a = a[21 := bc1 XOR (bc3 AND NOT bc2)];
          a = a[22 := bc2 XOR (bc4 AND NOT bc3)];
          a = a[23 := bc3 XOR (bc0 AND NOT bc4)];
          a = a[24 := bc4 XOR (bc1 AND NOT bc0)]
      in a)"

definition keccak_round4 :: "u64 \<Rightarrow> u64 list \<Rightarrow> u64 list" where
  "keccak_round4 rc a =
     (let bc0 = a ! 0 XOR a ! 5 XOR a ! 10 XOR a ! 15 XOR a ! 20;
          bc1 = a ! 1 XOR a ! 6 XOR a ! 11 XOR a ! 16 XOR a ! 21;
          bc2 = a ! 2 XOR a ! 7 XOR a ! 12 XOR a ! 17 XOR a ! 22;
          bc3 = a ! 3 XOR a ! 8 XOR a ! 13 XOR a ! 18 XOR a ! 23;
          bc4 = a ! 4 XOR a ! 9 XOR a ! 14 XOR a ! 19 XOR a ! 24;
          d0 = bc4 XOR (rotl 1 bc1);
          d1 = bc0 XOR (rotl 1 bc2);
          d2 = bc1 XOR (rotl 1 bc3);
          d3 = bc2 XOR (rotl 1 bc4);
          d4 = bc3 XOR (rotl 1 bc0)
      in keccak_r4_b5 d0 d1 d2 d3 d4
           (keccak_r4_b4 d0 d1 d2 d3 d4
           (keccak_r4_b3 d0 d1 d2 d3 d4
           (keccak_r4_b2 d0 d1 d2 d3 d4
           (keccak_r4_b1 rc d0 d1 d2 d3 d4 a)))))"

definition keccak_pass :: "nat \<Rightarrow> u64 list \<Rightarrow> u64 list" where
  "keccak_pass i a =
     keccak_round4 (keccak_rc ! (i + 3)) (keccak_round3 (keccak_rc ! (i + 2))
       (keccak_round2 (keccak_rc ! (i + 1)) (keccak_round1 (keccak_rc ! i) a)))"

definition keccakF1600 :: "u64 list \<Rightarrow> u64 list" where
  "keccakF1600 a = fold keccak_pass [0, 4, 8, 12, 16, 20] a"

section \<open>xor_generic.go and xor_unaligned.go\<close>

definition le_u64 :: "bytes \<Rightarrow> u64" where
  "le_u64 b = foldr (\<lambda>x acc. ucast x OR push_bit 8 acc) (take 8 b) 0"

definition put_le_u64 :: "u64 \<Rightarrow> bytes" where
  "put_le_u64 v = map (\<lambda>i. ucast (drop_bit (8 * i) v)) [0..<8]"

fun xorIn_loop :: "nat \<Rightarrow> nat \<Rightarrow> u64 list \<Rightarrow> bytes \<Rightarrow> u64 list" where
  "xorIn_loop 0 i a buf = a"
| "xorIn_loop (Suc n) i a buf = xorIn_loop n (i + 1) (a[i := a ! i XOR le_u64 buf]) (drop 8 buf)"

definition xorInGeneric :: "u64 list \<Rightarrow> bytes \<Rightarrow> u64 list" where
  "xorInGeneric a buf = xorIn_loop (length buf div 8) 0 a buf"

definition copyOutGeneric :: "u64 list \<Rightarrow> nat \<Rightarrow> bytes" where
  "copyOutGeneric a n = concat (map (\<lambda>i. put_le_u64 (a ! i)) [0..<n div 8])"

text \<open>The variant for little-endian machines reads the buffer as an array of words; the words of a range of
  indices are folded in.\<close>

definition xor_words :: "nat \<Rightarrow> nat \<Rightarrow> bytes \<Rightarrow> u64 list \<Rightarrow> u64 list" where
  "xor_words lo hi buf a = fold (\<lambda>i a. a[i := a ! i XOR le_u64 (drop (8 * i) buf)]) [lo..<hi] a"

definition xorInUnaligned :: "u64 list \<Rightarrow> bytes \<Rightarrow> u64 list" where
  "xorInUnaligned a buf =
     (let n = length buf;
          a = (if n \<ge> 72 then xor_words 0 9 buf a else a);
          a = (if n \<ge> 104 then xor_words 9 13 buf a else a);
          a = (if n \<ge> 136 then xor_words 13 17 buf a else a);
          a = (if n \<ge> 144 then xor_words 17 18 buf a else a)
      in if n \<ge> 168 then xor_words 18 21 buf a else a)"

text \<open>It copies the first \<open>n\<close> of the 168 bytes that the leading words of the state occupy in memory.\<close>

definition copyOutUnaligned :: "u64 list \<Rightarrow> nat \<Rightarrow> bytes" where
  "copyOutUnaligned a n = take n (concat (map put_le_u64 (take 21 a)))"

section \<open>sha3.go\<close>

datatype spongeDirection = SpongeAbsorbing | SpongeSqueezing

record sponge =
  sp_a :: "u64 list"
  sp_buf :: bytes
  sp_rate :: nat
  sp_dsbyte :: byte
  sp_outputLen :: nat
  sp_state :: spongeDirection

definition new_sponge :: "nat \<Rightarrow> nat \<Rightarrow> byte \<Rightarrow> sponge" where
  "new_sponge rate outputLen dsbyte =
     \<lparr>sp_a = replicate 25 0, sp_buf = [], sp_rate = rate, sp_dsbyte = dsbyte, sp_outputLen = outputLen,
      sp_state = SpongeAbsorbing\<rparr>"

definition NewKeccak256 :: sponge where "NewKeccak256 = new_sponge 136 32 0x01"
definition NewKeccak512 :: sponge where "NewKeccak512 = new_sponge 72 64 0x01"
definition New224 :: sponge where "New224 = new_sponge 144 28 0x06"
definition New256 :: sponge where "New256 = new_sponge 136 32 0x06"
definition New384 :: sponge where "New384 = new_sponge 104 48 0x06"
definition New512 :: sponge where "New512 = new_sponge 72 64 0x06"
definition NewShake128 :: sponge where "NewShake128 = new_sponge 168 0 0x1f"
definition NewShake256 :: sponge where "NewShake256 = new_sponge 136 0 0x1f"

definition sp_Reset :: "sponge \<Rightarrow> sponge" where
  "sp_Reset d = d\<lparr>sp_a := replicate 25 0, sp_state := SpongeAbsorbing, sp_buf := []\<rparr>"

definition permute :: "sponge \<Rightarrow> sponge" where
  "permute d =
     (case sp_state d of
        SpongeAbsorbing \<Rightarrow> d\<lparr>sp_a := keccakF1600 (xorInGeneric (sp_a d) (sp_buf d)), sp_buf := []\<rparr>
      | SpongeSqueezing \<Rightarrow>
          (let a = keccakF1600 (sp_a d) in d\<lparr>sp_a := a, sp_buf := copyOutGeneric a (sp_rate d)\<rparr>))"

definition padAndPermute :: "byte \<Rightarrow> sponge \<Rightarrow> sponge" where
  "padAndPermute dsbyte d =
     (let buf = sp_buf d @ [dsbyte];
          buf = buf @ replicate (sp_rate d - length buf) 0;
          buf = buf[sp_rate d - 1 := buf ! (sp_rate d - 1) XOR 0x80];
          d1 = permute (d\<lparr>sp_buf := buf\<rparr>)
      in d1\<lparr>sp_state := SpongeSqueezing, sp_buf := copyOutGeneric (sp_a d1) (sp_rate d1)\<rparr>)"

text \<open>One pass of the loop of \<open>Write\<close>, and the loop; \<open>None\<close> is the panic after a read, or a counter that ran out.\<close>

definition write_pass :: "sponge \<Rightarrow> bytes \<Rightarrow> sponge \<times> bytes" where
  "write_pass d p =
     (if length (sp_buf d) = 0 \<and> length p \<ge> sp_rate d
      then (d\<lparr>sp_a := keccakF1600 (xorInGeneric (sp_a d) (take (sp_rate d) p))\<rparr>, drop (sp_rate d) p)
      else (let todo = min (sp_rate d - length (sp_buf d)) (length p);
                d1 = d\<lparr>sp_buf := sp_buf d @ take todo p\<rparr>
            in (if length (sp_buf d1) = sp_rate d1 then permute d1 else d1, drop todo p)))"

fun write_loop :: "nat \<Rightarrow> sponge \<Rightarrow> bytes \<Rightarrow> sponge option" where
  "write_loop n d p =
     (if p = [] then Some d
      else case n of 0 \<Rightarrow> None | Suc m \<Rightarrow> (case write_pass d p of (d1, p1) \<Rightarrow> write_loop m d1 p1))"

declare write_loop.simps [simp del]

definition sp_Write :: "bytes \<Rightarrow> sponge \<Rightarrow> sponge option" where
  "sp_Write p d = (if sp_state d \<noteq> SpongeAbsorbing then None else write_loop (length p) d p)"

fun read_loop :: "nat \<Rightarrow> sponge \<Rightarrow> nat \<Rightarrow> (bytes \<times> sponge) option" where
  "read_loop n d len =
     (if len = 0 then Some ([], d)
      else case n of
          0 \<Rightarrow> None
        | Suc m \<Rightarrow>
            (let k = min len (length (sp_buf d));
                 d1 = d\<lparr>sp_buf := drop k (sp_buf d)\<rparr>;
                 d2 = (if sp_buf d1 = [] then permute d1 else d1)
             in case read_loop m d2 (len - k) of
                  None \<Rightarrow> None
                | Some (out, d3) \<Rightarrow> Some (take k (sp_buf d) @ out, d3)))"

declare read_loop.simps [simp del]

definition sp_Read :: "nat \<Rightarrow> sponge \<Rightarrow> (bytes \<times> sponge) option" where
  "sp_Read len d =
     (let d1 = (if sp_state d = SpongeAbsorbing then padAndPermute (sp_dsbyte d) d else d)
      in read_loop len d1 len)"

text \<open>A squeezing sponge's buffer is the part \<^verbatim>\<open>storage[off:rate]\<close> of the 168 bytes of storage, whose first
  \<open>rate\<close> bytes are the current output block; its capacity reaches to the end of the storage.  The clone starts its
  buffer at \<^verbatim>\<open>rate-cap(buf)\<close>, and \<open>None\<close> is the panic of a negative bound.\<close>

definition sp_clone :: "sponge \<Rightarrow> sponge option" where
  "sp_clone d =
     (case sp_state d of
        SpongeAbsorbing \<Rightarrow> Some d
      | SpongeSqueezing \<Rightarrow>
          (let off = sp_rate d - length (sp_buf d);
               cap = 168 - off
           in if cap > sp_rate d then None
              else Some (d\<lparr>sp_buf := drop (sp_rate d - cap) (copyOutGeneric (sp_a d) (sp_rate d))\<rparr>)))"

definition sp_Sum :: "sponge \<Rightarrow> bytes \<Rightarrow> bytes option" where
  "sp_Sum d inp =
     (case sp_clone d of
        None \<Rightarrow> None
      | Some dup \<Rightarrow> map_option (\<lambda>(hash, _). inp @ hash) (sp_Read (sp_outputLen dup) dup))"

section \<open>hashes.go and shake.go\<close>

definition sum_of :: "sponge \<Rightarrow> bytes \<Rightarrow> bytes option" where
  "sum_of h data = (case sp_Write data h of None \<Rightarrow> None | Some d \<Rightarrow> sp_Sum d [])"

definition Sum224 :: "bytes \<Rightarrow> bytes option" where "Sum224 = sum_of New224"
definition Sum256 :: "bytes \<Rightarrow> bytes option" where "Sum256 = sum_of New256"
definition Sum384 :: "bytes \<Rightarrow> bytes option" where "Sum384 = sum_of New384"
definition Sum512 :: "bytes \<Rightarrow> bytes option" where "Sum512 = sum_of New512"

definition shake_sum :: "sponge \<Rightarrow> nat \<Rightarrow> bytes \<Rightarrow> bytes option" where
  "shake_sum h n data = (case sp_Write data h of None \<Rightarrow> None | Some d \<Rightarrow> map_option fst (sp_Read n d))"

definition ShakeSum128 :: "nat \<Rightarrow> bytes \<Rightarrow> bytes option" where "ShakeSum128 = shake_sum NewShake128"
definition ShakeSum256 :: "nat \<Rightarrow> bytes \<Rightarrow> bytes option" where "ShakeSum256 = shake_sum NewShake256"

section \<open>crypto.go\<close>

fun write_all :: "bytes list \<Rightarrow> sponge \<Rightarrow> sponge option" where
  "write_all [] d = Some d"
| "write_all (b # data) d = (case sp_Write b d of None \<Rightarrow> None | Some d1 \<Rightarrow> write_all data d1)"

definition Keccak256 :: "bytes list \<Rightarrow> bytes option" where
  "Keccak256 data = (case write_all data NewKeccak256 of None \<Rightarrow> None | Some d \<Rightarrow> sp_Sum d [])"

definition Keccak512 :: "bytes list \<Rightarrow> bytes option" where
  "Keccak512 data = (case write_all data NewKeccak512 of None \<Rightarrow> None | Some d \<Rightarrow> sp_Sum d [])"

end
