(* ===== verification/Sha3_Spec.thy ===== *)
theory Sha3_Spec
  imports Sha3
begin

text \<open>
  The unrolled permutation of \<^verbatim>\<open>keccakf.go\<close> computes Keccak-f[1600]: each of its four
  hand-scheduled rounds is one round of the reference permutation, on the lanes in the layout
  that round leaves behind.
\<close>

unbundle bit_operations_syntax

section \<open>The reference permutation\<close>

text \<open>Lane \<open>(x, y)\<close> of the state stands at index \<open>x + 5 * y\<close>.\<close>

definition column :: "u64 list \<Rightarrow> nat \<Rightarrow> u64" where
  "column s x = s ! x XOR s ! (x + 5) XOR s ! (x + 10) XOR s ! (x + 15) XOR s ! (x + 20)"

definition theta :: "u64 list \<Rightarrow> u64 list" where
  "theta s = map (\<lambda>i. s ! i XOR column s ((i + 4) mod 5) XOR rotl 1 (column s ((i + 1) mod 5))) [0..<25]"

definition rho_offsets :: "nat list" where
  "rho_offsets = [0, 1, 62, 28, 27, 36, 44, 6, 55, 20, 3, 10, 43, 25, 39, 41, 45, 15, 21, 8, 18, 2, 61, 56, 14]"

definition rho :: "u64 list \<Rightarrow> u64 list" where
  "rho s = map (\<lambda>i. rotl (rho_offsets ! i) (s ! i)) [0..<25]"

definition pi :: "u64 list \<Rightarrow> u64 list" where
  "pi s = map (\<lambda>i. s ! ((i mod 5 + 3 * (i div 5)) mod 5 + 5 * (i mod 5))) [0..<25]"

definition chi :: "u64 list \<Rightarrow> u64 list" where
  "chi s = map (\<lambda>i. s ! i XOR (s ! ((i + 2) mod 5 + 5 * (i div 5)) AND NOT (s ! ((i + 1) mod 5 + 5 * (i div 5))))) [0..<25]"

definition iota :: "u64 \<Rightarrow> u64 list \<Rightarrow> u64 list" where
  "iota rc s = s[0 := s ! 0 XOR rc]"

definition keccak_round :: "u64 \<Rightarrow> u64 list \<Rightarrow> u64 list" where
  "keccak_round rc s = iota rc (chi (pi (rho (theta s))))"

definition keccak_f :: "u64 list \<Rightarrow> u64 list" where
  "keccak_f s = fold (\<lambda>r. keccak_round (keccak_rc ! r)) [0..<24] s"

section \<open>The unrolled rounds\<close>

text \<open>The order in which the lanes stand after each of the four rounds.\<close>

definition arrange :: "nat list \<Rightarrow> u64 list \<Rightarrow> u64 list" where
  "arrange is s = map (\<lambda>i. s ! i) is"

definition layout1 :: "nat list" where
  "layout1 = [0, 11, 22, 8, 19, 15, 1, 12, 23, 9, 5, 16, 2, 13, 24, 20, 6, 17, 3, 14, 10, 21, 7, 18, 4]"

definition layout2 :: "nat list" where
  "layout2 = [0, 16, 7, 23, 14, 20, 11, 2, 18, 9, 15, 6, 22, 13, 4, 10, 1, 17, 8, 24, 5, 21, 12, 3, 19]"

definition layout3 :: "nat list" where
  "layout3 = [0, 6, 12, 18, 24, 10, 16, 22, 3, 9, 20, 1, 7, 13, 19, 5, 11, 17, 23, 4, 15, 21, 2, 8, 14]"

lemma rotl_0 [simp]: "rotl 0 x = x"
  by (simp add: rotl_def)

lemma upt_25: "[0..<25] = [0, 1, 2, 3, 4, 5, 6, 7, 8, 9, 10, 11, 12, 13, 14, 15, 16, 17, 18, 19, 20, 21, 22, 23, 24::nat]"
  by (simp add: upt_rec)

lemma nth_five:
  assumes "length a = 25" "l0 < 25" "l1 < 25" "l2 < 25" "l3 < 25" "l4 < 25"
  shows "a[l0 := v0, l1 := v1, l2 := v2, l3 := v3, l4 := v4] ! j =
    (if j = l4 then v4 else if j = l3 then v3 else if j = l2 then v2 else if j = l1 then v1 else if j = l0 then v0 else a ! j)"
  using assms by (auto simp: nth_list_update_if)

lemma keccak_r1_b1_nth: "length a = 25 \<Longrightarrow> keccak_r1_b1 rc d0 d1 d2 d3 d4 a ! j =
     (if j = 24 then (rotl 14 (a ! 24 XOR d4)) XOR ((rotl 44 (a ! 6 XOR d1)) AND NOT (a ! 0 XOR d0)) else
      if j = 18 then (rotl 21 (a ! 18 XOR d3)) XOR ((a ! 0 XOR d0) AND NOT (rotl 14 (a ! 24 XOR d4))) else
      if j = 12 then (rotl 43 (a ! 12 XOR d2)) XOR ((rotl 14 (a ! 24 XOR d4)) AND NOT (rotl 21 (a ! 18 XOR d3))) else
      if j = 6 then (rotl 44 (a ! 6 XOR d1)) XOR ((rotl 21 (a ! 18 XOR d3)) AND NOT (rotl 43 (a ! 12 XOR d2))) else
      if j = 0 then (a ! 0 XOR d0) XOR ((rotl 43 (a ! 12 XOR d2)) AND NOT (rotl 44 (a ! 6 XOR d1))) XOR rc else
      a ! j)"
  unfolding keccak_r1_b1_def Let_def by (subst nth_five) simp_all

lemma keccak_r1_b1_length: "length (keccak_r1_b1 rc d0 d1 d2 d3 d4 a) = length a"
  by (simp add: keccak_r1_b1_def Let_def)

lemma keccak_r1_b2_nth: "length a = 25 \<Longrightarrow> keccak_r1_b2 d0 d1 d2 d3 d4 a ! j =
     (if j = 9 then (rotl 61 (a ! 22 XOR d2)) XOR ((rotl 20 (a ! 9 XOR d4)) AND NOT (rotl 28 (a ! 3 XOR d3))) else
      if j = 3 then (rotl 45 (a ! 16 XOR d1)) XOR ((rotl 28 (a ! 3 XOR d3)) AND NOT (rotl 61 (a ! 22 XOR d2))) else
      if j = 22 then (rotl 3 (a ! 10 XOR d0)) XOR ((rotl 61 (a ! 22 XOR d2)) AND NOT (rotl 45 (a ! 16 XOR d1))) else
      if j = 16 then (rotl 20 (a ! 9 XOR d4)) XOR ((rotl 45 (a ! 16 XOR d1)) AND NOT (rotl 3 (a ! 10 XOR d0))) else
      if j = 10 then (rotl 28 (a ! 3 XOR d3)) XOR ((rotl 3 (a ! 10 XOR d0)) AND NOT (rotl 20 (a ! 9 XOR d4))) else
      a ! j)"
  unfolding keccak_r1_b2_def Let_def by (subst nth_five) simp_all

lemma keccak_r1_b2_length: "length (keccak_r1_b2 d0 d1 d2 d3 d4 a) = length a"
  by (simp add: keccak_r1_b2_def Let_def)

lemma keccak_r1_b3_nth: "length a = 25 \<Longrightarrow> keccak_r1_b3 d0 d1 d2 d3 d4 a ! j =
     (if j = 19 then (rotl 18 (a ! 20 XOR d0)) XOR ((rotl 6 (a ! 7 XOR d2)) AND NOT (rotl 1 (a ! 1 XOR d1))) else
      if j = 13 then (rotl 8 (a ! 19 XOR d4)) XOR ((rotl 1 (a ! 1 XOR d1)) AND NOT (rotl 18 (a ! 20 XOR d0))) else
      if j = 7 then (rotl 25 (a ! 13 XOR d3)) XOR ((rotl 18 (a ! 20 XOR d0)) AND NOT (rotl 8 (a ! 19 XOR d4))) else
      if j = 1 then (rotl 6 (a ! 7 XOR d2)) XOR ((rotl 8 (a ! 19 XOR d4)) AND NOT (rotl 25 (a ! 13 XOR d3))) else
      if j = 20 then (rotl 1 (a ! 1 XOR d1)) XOR ((rotl 25 (a ! 13 XOR d3)) AND NOT (rotl 6 (a ! 7 XOR d2))) else
      a ! j)"
  unfolding keccak_r1_b3_def Let_def by (subst nth_five) simp_all

lemma keccak_r1_b3_length: "length (keccak_r1_b3 d0 d1 d2 d3 d4 a) = length a"
  by (simp add: keccak_r1_b3_def Let_def)

lemma keccak_r1_b4_nth: "length a = 25 \<Longrightarrow> keccak_r1_b4 d0 d1 d2 d3 d4 a ! j =
     (if j = 4 then (rotl 56 (a ! 23 XOR d3)) XOR ((rotl 36 (a ! 5 XOR d0)) AND NOT (rotl 27 (a ! 4 XOR d4))) else
      if j = 23 then (rotl 15 (a ! 17 XOR d2)) XOR ((rotl 27 (a ! 4 XOR d4)) AND NOT (rotl 56 (a ! 23 XOR d3))) else
      if j = 17 then (rotl 10 (a ! 11 XOR d1)) XOR ((rotl 56 (a ! 23 XOR d3)) AND NOT (rotl 15 (a ! 17 XOR d2))) else
      if j = 11 then (rotl 36 (a ! 5 XOR d0)) XOR ((rotl 15 (a ! 17 XOR d2)) AND NOT (rotl 10 (a ! 11 XOR d1))) else
      if j = 5 then (rotl 27 (a ! 4 XOR d4)) XOR ((rotl 10 (a ! 11 XOR d1)) AND NOT (rotl 36 (a ! 5 XOR d0))) else
      a ! j)"
  unfolding keccak_r1_b4_def Let_def by (subst nth_five) simp_all

lemma keccak_r1_b4_length: "length (keccak_r1_b4 d0 d1 d2 d3 d4 a) = length a"
  by (simp add: keccak_r1_b4_def Let_def)

lemma keccak_r1_b5_nth: "length a = 25 \<Longrightarrow> keccak_r1_b5 d0 d1 d2 d3 d4 a ! j =
     (if j = 14 then (rotl 2 (a ! 21 XOR d1)) XOR ((rotl 55 (a ! 8 XOR d3)) AND NOT (rotl 62 (a ! 2 XOR d2))) else
      if j = 8 then (rotl 41 (a ! 15 XOR d0)) XOR ((rotl 62 (a ! 2 XOR d2)) AND NOT (rotl 2 (a ! 21 XOR d1))) else
      if j = 2 then (rotl 39 (a ! 14 XOR d4)) XOR ((rotl 2 (a ! 21 XOR d1)) AND NOT (rotl 41 (a ! 15 XOR d0))) else
      if j = 21 then (rotl 55 (a ! 8 XOR d3)) XOR ((rotl 41 (a ! 15 XOR d0)) AND NOT (rotl 39 (a ! 14 XOR d4))) else
      if j = 15 then (rotl 62 (a ! 2 XOR d2)) XOR ((rotl 39 (a ! 14 XOR d4)) AND NOT (rotl 55 (a ! 8 XOR d3))) else
      a ! j)"
  unfolding keccak_r1_b5_def Let_def by (subst nth_five) simp_all

lemma keccak_r1_b5_length: "length (keccak_r1_b5 d0 d1 d2 d3 d4 a) = length a"
  by (simp add: keccak_r1_b5_def Let_def)

lemma keccak_r2_b1_nth: "length a = 25 \<Longrightarrow> keccak_r2_b1 rc d0 d1 d2 d3 d4 a ! j =
     (if j = 14 then (rotl 14 (a ! 14 XOR d4)) XOR ((rotl 44 (a ! 16 XOR d1)) AND NOT (a ! 0 XOR d0)) else
      if j = 23 then (rotl 21 (a ! 23 XOR d3)) XOR ((a ! 0 XOR d0) AND NOT (rotl 14 (a ! 14 XOR d4))) else
      if j = 7 then (rotl 43 (a ! 7 XOR d2)) XOR ((rotl 14 (a ! 14 XOR d4)) AND NOT (rotl 21 (a ! 23 XOR d3))) else
      if j = 16 then (rotl 44 (a ! 16 XOR d1)) XOR ((rotl 21 (a ! 23 XOR d3)) AND NOT (rotl 43 (a ! 7 XOR d2))) else
      if j = 0 then (a ! 0 XOR d0) XOR ((rotl 43 (a ! 7 XOR d2)) AND NOT (rotl 44 (a ! 16 XOR d1))) XOR rc else
      a ! j)"
  unfolding keccak_r2_b1_def Let_def by (subst nth_five) simp_all

lemma keccak_r2_b1_length: "length (keccak_r2_b1 rc d0 d1 d2 d3 d4 a) = length a"
  by (simp add: keccak_r2_b1_def Let_def)

lemma keccak_r2_b2_nth: "length a = 25 \<Longrightarrow> keccak_r2_b2 d0 d1 d2 d3 d4 a ! j =
     (if j = 9 then (rotl 61 (a ! 2 XOR d2)) XOR ((rotl 20 (a ! 9 XOR d4)) AND NOT (rotl 28 (a ! 18 XOR d3))) else
      if j = 18 then (rotl 45 (a ! 11 XOR d1)) XOR ((rotl 28 (a ! 18 XOR d3)) AND NOT (rotl 61 (a ! 2 XOR d2))) else
      if j = 2 then (rotl 3 (a ! 20 XOR d0)) XOR ((rotl 61 (a ! 2 XOR d2)) AND NOT (rotl 45 (a ! 11 XOR d1))) else
      if j = 11 then (rotl 20 (a ! 9 XOR d4)) XOR ((rotl 45 (a ! 11 XOR d1)) AND NOT (rotl 3 (a ! 20 XOR d0))) else
      if j = 20 then (rotl 28 (a ! 18 XOR d3)) XOR ((rotl 3 (a ! 20 XOR d0)) AND NOT (rotl 20 (a ! 9 XOR d4))) else
      a ! j)"
  unfolding keccak_r2_b2_def Let_def by (subst nth_five) simp_all

lemma keccak_r2_b2_length: "length (keccak_r2_b2 d0 d1 d2 d3 d4 a) = length a"
  by (simp add: keccak_r2_b2_def Let_def)

lemma keccak_r2_b3_nth: "length a = 25 \<Longrightarrow> keccak_r2_b3 d0 d1 d2 d3 d4 a ! j =
     (if j = 4 then (rotl 18 (a ! 15 XOR d0)) XOR ((rotl 6 (a ! 22 XOR d2)) AND NOT (rotl 1 (a ! 6 XOR d1))) else
      if j = 13 then (rotl 8 (a ! 4 XOR d4)) XOR ((rotl 1 (a ! 6 XOR d1)) AND NOT (rotl 18 (a ! 15 XOR d0))) else
      if j = 22 then (rotl 25 (a ! 13 XOR d3)) XOR ((rotl 18 (a ! 15 XOR d0)) AND NOT (rotl 8 (a ! 4 XOR d4))) else
      if j = 6 then (rotl 6 (a ! 22 XOR d2)) XOR ((rotl 8 (a ! 4 XOR d4)) AND NOT (rotl 25 (a ! 13 XOR d3))) else
      if j = 15 then (rotl 1 (a ! 6 XOR d1)) XOR ((rotl 25 (a ! 13 XOR d3)) AND NOT (rotl 6 (a ! 22 XOR d2))) else
      a ! j)"
  unfolding keccak_r2_b3_def Let_def by (subst nth_five) simp_all

lemma keccak_r2_b3_length: "length (keccak_r2_b3 d0 d1 d2 d3 d4 a) = length a"
  by (simp add: keccak_r2_b3_def Let_def)

lemma keccak_r2_b4_nth: "length a = 25 \<Longrightarrow> keccak_r2_b4 d0 d1 d2 d3 d4 a ! j =
     (if j = 24 then (rotl 56 (a ! 8 XOR d3)) XOR ((rotl 36 (a ! 10 XOR d0)) AND NOT (rotl 27 (a ! 24 XOR d4))) else
      if j = 8 then (rotl 15 (a ! 17 XOR d2)) XOR ((rotl 27 (a ! 24 XOR d4)) AND NOT (rotl 56 (a ! 8 XOR d3))) else
      if j = 17 then (rotl 10 (a ! 1 XOR d1)) XOR ((rotl 56 (a ! 8 XOR d3)) AND NOT (rotl 15 (a ! 17 XOR d2))) else
      if j = 1 then (rotl 36 (a ! 10 XOR d0)) XOR ((rotl 15 (a ! 17 XOR d2)) AND NOT (rotl 10 (a ! 1 XOR d1))) else
      if j = 10 then (rotl 27 (a ! 24 XOR d4)) XOR ((rotl 10 (a ! 1 XOR d1)) AND NOT (rotl 36 (a ! 10 XOR d0))) else
      a ! j)"
  unfolding keccak_r2_b4_def Let_def by (subst nth_five) simp_all

lemma keccak_r2_b4_length: "length (keccak_r2_b4 d0 d1 d2 d3 d4 a) = length a"
  by (simp add: keccak_r2_b4_def Let_def)

lemma keccak_r2_b5_nth: "length a = 25 \<Longrightarrow> keccak_r2_b5 d0 d1 d2 d3 d4 a ! j =
     (if j = 19 then (rotl 2 (a ! 21 XOR d1)) XOR ((rotl 55 (a ! 3 XOR d3)) AND NOT (rotl 62 (a ! 12 XOR d2))) else
      if j = 3 then (rotl 41 (a ! 5 XOR d0)) XOR ((rotl 62 (a ! 12 XOR d2)) AND NOT (rotl 2 (a ! 21 XOR d1))) else
      if j = 12 then (rotl 39 (a ! 19 XOR d4)) XOR ((rotl 2 (a ! 21 XOR d1)) AND NOT (rotl 41 (a ! 5 XOR d0))) else
      if j = 21 then (rotl 55 (a ! 3 XOR d3)) XOR ((rotl 41 (a ! 5 XOR d0)) AND NOT (rotl 39 (a ! 19 XOR d4))) else
      if j = 5 then (rotl 62 (a ! 12 XOR d2)) XOR ((rotl 39 (a ! 19 XOR d4)) AND NOT (rotl 55 (a ! 3 XOR d3))) else
      a ! j)"
  unfolding keccak_r2_b5_def Let_def by (subst nth_five) simp_all

lemma keccak_r2_b5_length: "length (keccak_r2_b5 d0 d1 d2 d3 d4 a) = length a"
  by (simp add: keccak_r2_b5_def Let_def)

lemma keccak_r3_b1_nth: "length a = 25 \<Longrightarrow> keccak_r3_b1 rc d0 d1 d2 d3 d4 a ! j =
     (if j = 19 then (rotl 14 (a ! 19 XOR d4)) XOR ((rotl 44 (a ! 11 XOR d1)) AND NOT (a ! 0 XOR d0)) else
      if j = 8 then (rotl 21 (a ! 8 XOR d3)) XOR ((a ! 0 XOR d0) AND NOT (rotl 14 (a ! 19 XOR d4))) else
      if j = 22 then (rotl 43 (a ! 22 XOR d2)) XOR ((rotl 14 (a ! 19 XOR d4)) AND NOT (rotl 21 (a ! 8 XOR d3))) else
      if j = 11 then (rotl 44 (a ! 11 XOR d1)) XOR ((rotl 21 (a ! 8 XOR d3)) AND NOT (rotl 43 (a ! 22 XOR d2))) else
      if j = 0 then (a ! 0 XOR d0) XOR ((rotl 43 (a ! 22 XOR d2)) AND NOT (rotl 44 (a ! 11 XOR d1))) XOR rc else
      a ! j)"
  unfolding keccak_r3_b1_def Let_def by (subst nth_five) simp_all

lemma keccak_r3_b1_length: "length (keccak_r3_b1 rc d0 d1 d2 d3 d4 a) = length a"
  by (simp add: keccak_r3_b1_def Let_def)

lemma keccak_r3_b2_nth: "length a = 25 \<Longrightarrow> keccak_r3_b2 d0 d1 d2 d3 d4 a ! j =
     (if j = 9 then (rotl 61 (a ! 12 XOR d2)) XOR ((rotl 20 (a ! 9 XOR d4)) AND NOT (rotl 28 (a ! 23 XOR d3))) else
      if j = 23 then (rotl 45 (a ! 1 XOR d1)) XOR ((rotl 28 (a ! 23 XOR d3)) AND NOT (rotl 61 (a ! 12 XOR d2))) else
      if j = 12 then (rotl 3 (a ! 15 XOR d0)) XOR ((rotl 61 (a ! 12 XOR d2)) AND NOT (rotl 45 (a ! 1 XOR d1))) else
      if j = 1 then (rotl 20 (a ! 9 XOR d4)) XOR ((rotl 45 (a ! 1 XOR d1)) AND NOT (rotl 3 (a ! 15 XOR d0))) else
      if j = 15 then (rotl 28 (a ! 23 XOR d3)) XOR ((rotl 3 (a ! 15 XOR d0)) AND NOT (rotl 20 (a ! 9 XOR d4))) else
      a ! j)"
  unfolding keccak_r3_b2_def Let_def by (subst nth_five) simp_all

lemma keccak_r3_b2_length: "length (keccak_r3_b2 d0 d1 d2 d3 d4 a) = length a"
  by (simp add: keccak_r3_b2_def Let_def)

lemma keccak_r3_b3_nth: "length a = 25 \<Longrightarrow> keccak_r3_b3 d0 d1 d2 d3 d4 a ! j =
     (if j = 24 then (rotl 18 (a ! 5 XOR d0)) XOR ((rotl 6 (a ! 2 XOR d2)) AND NOT (rotl 1 (a ! 16 XOR d1))) else
      if j = 13 then (rotl 8 (a ! 24 XOR d4)) XOR ((rotl 1 (a ! 16 XOR d1)) AND NOT (rotl 18 (a ! 5 XOR d0))) else
      if j = 2 then (rotl 25 (a ! 13 XOR d3)) XOR ((rotl 18 (a ! 5 XOR d0)) AND NOT (rotl 8 (a ! 24 XOR d4))) else
      if j = 16 then (rotl 6 (a ! 2 XOR d2)) XOR ((rotl 8 (a ! 24 XOR d4)) AND NOT (rotl 25 (a ! 13 XOR d3))) else
      if j = 5 then (rotl 1 (a ! 16 XOR d1)) XOR ((rotl 25 (a ! 13 XOR d3)) AND NOT (rotl 6 (a ! 2 XOR d2))) else
      a ! j)"
  unfolding keccak_r3_b3_def Let_def by (subst nth_five) simp_all

lemma keccak_r3_b3_length: "length (keccak_r3_b3 d0 d1 d2 d3 d4 a) = length a"
  by (simp add: keccak_r3_b3_def Let_def)

lemma keccak_r3_b4_nth: "length a = 25 \<Longrightarrow> keccak_r3_b4 d0 d1 d2 d3 d4 a ! j =
     (if j = 14 then (rotl 56 (a ! 3 XOR d3)) XOR ((rotl 36 (a ! 20 XOR d0)) AND NOT (rotl 27 (a ! 14 XOR d4))) else
      if j = 3 then (rotl 15 (a ! 17 XOR d2)) XOR ((rotl 27 (a ! 14 XOR d4)) AND NOT (rotl 56 (a ! 3 XOR d3))) else
      if j = 17 then (rotl 10 (a ! 6 XOR d1)) XOR ((rotl 56 (a ! 3 XOR d3)) AND NOT (rotl 15 (a ! 17 XOR d2))) else
      if j = 6 then (rotl 36 (a ! 20 XOR d0)) XOR ((rotl 15 (a ! 17 XOR d2)) AND NOT (rotl 10 (a ! 6 XOR d1))) else
      if j = 20 then (rotl 27 (a ! 14 XOR d4)) XOR ((rotl 10 (a ! 6 XOR d1)) AND NOT (rotl 36 (a ! 20 XOR d0))) else
      a ! j)"
  unfolding keccak_r3_b4_def Let_def by (subst nth_five) simp_all

lemma keccak_r3_b4_length: "length (keccak_r3_b4 d0 d1 d2 d3 d4 a) = length a"
  by (simp add: keccak_r3_b4_def Let_def)

lemma keccak_r3_b5_nth: "length a = 25 \<Longrightarrow> keccak_r3_b5 d0 d1 d2 d3 d4 a ! j =
     (if j = 4 then (rotl 2 (a ! 21 XOR d1)) XOR ((rotl 55 (a ! 18 XOR d3)) AND NOT (rotl 62 (a ! 7 XOR d2))) else
      if j = 18 then (rotl 41 (a ! 10 XOR d0)) XOR ((rotl 62 (a ! 7 XOR d2)) AND NOT (rotl 2 (a ! 21 XOR d1))) else
      if j = 7 then (rotl 39 (a ! 4 XOR d4)) XOR ((rotl 2 (a ! 21 XOR d1)) AND NOT (rotl 41 (a ! 10 XOR d0))) else
      if j = 21 then (rotl 55 (a ! 18 XOR d3)) XOR ((rotl 41 (a ! 10 XOR d0)) AND NOT (rotl 39 (a ! 4 XOR d4))) else
      if j = 10 then (rotl 62 (a ! 7 XOR d2)) XOR ((rotl 39 (a ! 4 XOR d4)) AND NOT (rotl 55 (a ! 18 XOR d3))) else
      a ! j)"
  unfolding keccak_r3_b5_def Let_def by (subst nth_five) simp_all

lemma keccak_r3_b5_length: "length (keccak_r3_b5 d0 d1 d2 d3 d4 a) = length a"
  by (simp add: keccak_r3_b5_def Let_def)

lemma keccak_r4_b1_nth: "length a = 25 \<Longrightarrow> keccak_r4_b1 rc d0 d1 d2 d3 d4 a ! j =
     (if j = 4 then (rotl 14 (a ! 4 XOR d4)) XOR ((rotl 44 (a ! 1 XOR d1)) AND NOT (a ! 0 XOR d0)) else
      if j = 3 then (rotl 21 (a ! 3 XOR d3)) XOR ((a ! 0 XOR d0) AND NOT (rotl 14 (a ! 4 XOR d4))) else
      if j = 2 then (rotl 43 (a ! 2 XOR d2)) XOR ((rotl 14 (a ! 4 XOR d4)) AND NOT (rotl 21 (a ! 3 XOR d3))) else
      if j = 1 then (rotl 44 (a ! 1 XOR d1)) XOR ((rotl 21 (a ! 3 XOR d3)) AND NOT (rotl 43 (a ! 2 XOR d2))) else
      if j = 0 then (a ! 0 XOR d0) XOR ((rotl 43 (a ! 2 XOR d2)) AND NOT (rotl 44 (a ! 1 XOR d1))) XOR rc else
      a ! j)"
  unfolding keccak_r4_b1_def Let_def by (subst nth_five) simp_all

lemma keccak_r4_b1_length: "length (keccak_r4_b1 rc d0 d1 d2 d3 d4 a) = length a"
  by (simp add: keccak_r4_b1_def Let_def)

lemma keccak_r4_b2_nth: "length a = 25 \<Longrightarrow> keccak_r4_b2 d0 d1 d2 d3 d4 a ! j =
     (if j = 9 then (rotl 61 (a ! 7 XOR d2)) XOR ((rotl 20 (a ! 9 XOR d4)) AND NOT (rotl 28 (a ! 8 XOR d3))) else
      if j = 8 then (rotl 45 (a ! 6 XOR d1)) XOR ((rotl 28 (a ! 8 XOR d3)) AND NOT (rotl 61 (a ! 7 XOR d2))) else
      if j = 7 then (rotl 3 (a ! 5 XOR d0)) XOR ((rotl 61 (a ! 7 XOR d2)) AND NOT (rotl 45 (a ! 6 XOR d1))) else
      if j = 6 then (rotl 20 (a ! 9 XOR d4)) XOR ((rotl 45 (a ! 6 XOR d1)) AND NOT (rotl 3 (a ! 5 XOR d0))) else
      if j = 5 then (rotl 28 (a ! 8 XOR d3)) XOR ((rotl 3 (a ! 5 XOR d0)) AND NOT (rotl 20 (a ! 9 XOR d4))) else
      a ! j)"
  unfolding keccak_r4_b2_def Let_def by (subst nth_five) simp_all

lemma keccak_r4_b2_length: "length (keccak_r4_b2 d0 d1 d2 d3 d4 a) = length a"
  by (simp add: keccak_r4_b2_def Let_def)

lemma keccak_r4_b3_nth: "length a = 25 \<Longrightarrow> keccak_r4_b3 d0 d1 d2 d3 d4 a ! j =
     (if j = 14 then (rotl 18 (a ! 10 XOR d0)) XOR ((rotl 6 (a ! 12 XOR d2)) AND NOT (rotl 1 (a ! 11 XOR d1))) else
      if j = 13 then (rotl 8 (a ! 14 XOR d4)) XOR ((rotl 1 (a ! 11 XOR d1)) AND NOT (rotl 18 (a ! 10 XOR d0))) else
      if j = 12 then (rotl 25 (a ! 13 XOR d3)) XOR ((rotl 18 (a ! 10 XOR d0)) AND NOT (rotl 8 (a ! 14 XOR d4))) else
      if j = 11 then (rotl 6 (a ! 12 XOR d2)) XOR ((rotl 8 (a ! 14 XOR d4)) AND NOT (rotl 25 (a ! 13 XOR d3))) else
      if j = 10 then (rotl 1 (a ! 11 XOR d1)) XOR ((rotl 25 (a ! 13 XOR d3)) AND NOT (rotl 6 (a ! 12 XOR d2))) else
      a ! j)"
  unfolding keccak_r4_b3_def Let_def by (subst nth_five) simp_all

lemma keccak_r4_b3_length: "length (keccak_r4_b3 d0 d1 d2 d3 d4 a) = length a"
  by (simp add: keccak_r4_b3_def Let_def)

lemma keccak_r4_b4_nth: "length a = 25 \<Longrightarrow> keccak_r4_b4 d0 d1 d2 d3 d4 a ! j =
     (if j = 19 then (rotl 56 (a ! 18 XOR d3)) XOR ((rotl 36 (a ! 15 XOR d0)) AND NOT (rotl 27 (a ! 19 XOR d4))) else
      if j = 18 then (rotl 15 (a ! 17 XOR d2)) XOR ((rotl 27 (a ! 19 XOR d4)) AND NOT (rotl 56 (a ! 18 XOR d3))) else
      if j = 17 then (rotl 10 (a ! 16 XOR d1)) XOR ((rotl 56 (a ! 18 XOR d3)) AND NOT (rotl 15 (a ! 17 XOR d2))) else
      if j = 16 then (rotl 36 (a ! 15 XOR d0)) XOR ((rotl 15 (a ! 17 XOR d2)) AND NOT (rotl 10 (a ! 16 XOR d1))) else
      if j = 15 then (rotl 27 (a ! 19 XOR d4)) XOR ((rotl 10 (a ! 16 XOR d1)) AND NOT (rotl 36 (a ! 15 XOR d0))) else
      a ! j)"
  unfolding keccak_r4_b4_def Let_def by (subst nth_five) simp_all

lemma keccak_r4_b4_length: "length (keccak_r4_b4 d0 d1 d2 d3 d4 a) = length a"
  by (simp add: keccak_r4_b4_def Let_def)

lemma keccak_r4_b5_nth: "length a = 25 \<Longrightarrow> keccak_r4_b5 d0 d1 d2 d3 d4 a ! j =
     (if j = 24 then (rotl 2 (a ! 21 XOR d1)) XOR ((rotl 55 (a ! 23 XOR d3)) AND NOT (rotl 62 (a ! 22 XOR d2))) else
      if j = 23 then (rotl 41 (a ! 20 XOR d0)) XOR ((rotl 62 (a ! 22 XOR d2)) AND NOT (rotl 2 (a ! 21 XOR d1))) else
      if j = 22 then (rotl 39 (a ! 24 XOR d4)) XOR ((rotl 2 (a ! 21 XOR d1)) AND NOT (rotl 41 (a ! 20 XOR d0))) else
      if j = 21 then (rotl 55 (a ! 23 XOR d3)) XOR ((rotl 41 (a ! 20 XOR d0)) AND NOT (rotl 39 (a ! 24 XOR d4))) else
      if j = 20 then (rotl 62 (a ! 22 XOR d2)) XOR ((rotl 39 (a ! 24 XOR d4)) AND NOT (rotl 55 (a ! 23 XOR d3))) else
      a ! j)"
  unfolding keccak_r4_b5_def Let_def by (subst nth_five) simp_all

lemma keccak_r4_b5_length: "length (keccak_r4_b5 d0 d1 d2 d3 d4 a) = length a"
  by (simp add: keccak_r4_b5_def Let_def)

lemmas block_lengths = keccak_r1_b1_length keccak_r1_b2_length keccak_r1_b3_length keccak_r1_b4_length
  keccak_r1_b5_length keccak_r2_b1_length keccak_r2_b2_length keccak_r2_b3_length
  keccak_r2_b4_length keccak_r2_b5_length keccak_r3_b1_length keccak_r3_b2_length
  keccak_r3_b3_length keccak_r3_b4_length keccak_r3_b5_length keccak_r4_b1_length
  keccak_r4_b2_length keccak_r4_b3_length keccak_r4_b4_length keccak_r4_b5_length

lemmas block_nths = keccak_r1_b1_nth keccak_r1_b2_nth keccak_r1_b3_nth keccak_r1_b4_nth
  keccak_r1_b5_nth keccak_r2_b1_nth keccak_r2_b2_nth keccak_r2_b3_nth
  keccak_r2_b4_nth keccak_r2_b5_nth keccak_r3_b1_nth keccak_r3_b2_nth
  keccak_r3_b3_nth keccak_r3_b4_nth keccak_r3_b5_nth keccak_r4_b1_nth
  keccak_r4_b2_nth keccak_r4_b3_nth keccak_r4_b4_nth keccak_r4_b5_nth

lemma keccak_round_nth:
  assumes "i < 25"
  shows "theta s ! i = s ! i XOR column s ((i + 4) mod 5) XOR rotl 1 (column s ((i + 1) mod 5))"
    "rho s ! i = rotl (rho_offsets ! i) (s ! i)"
    "pi s ! i = s ! ((i mod 5 + 3 * (i div 5)) mod 5 + 5 * (i mod 5))"
    "chi s ! i = s ! i XOR (s ! ((i + 2) mod 5 + 5 * (i div 5)) AND NOT (s ! ((i + 1) mod 5 + 5 * (i div 5))))"
    "keccak_round rc s ! i = (if i = 0 then chi (pi (rho (theta s))) ! 0 XOR rc else chi (pi (rho (theta s))) ! i)"
  using assms by (simp_all add: theta_def rho_def pi_def chi_def keccak_round_def iota_def)

lemma length_keccak_round [simp]: "length (keccak_round rc s) = 25"
  by (simp add: keccak_round_def iota_def chi_def)

lemma arrange_nth: "i < length is \<Longrightarrow> arrange is s ! i = s ! (is ! i)"
  by (simp add: arrange_def)

lemma length_arrange [simp]: "length (arrange is s) = length is"
  by (simp add: arrange_def)

lemma all_lanes: "(\<And>i. i \<in> set [0, 1, 2, 3, 4, 5, 6, 7, 8, 9, 10, 11, 12, 13, 14, 15, 16, 17, 18, 19, 20, 21, 22, 23, 24] \<Longrightarrow> a ! i = b ! i) \<Longrightarrow>
    length a = 25 \<Longrightarrow> length b = 25 \<Longrightarrow> a = b"
  unfolding upt_25 [symmetric] by (rule nth_equalityI) auto

lemmas lane_rules = numeral_2_eq_2 [symmetric] block_nths block_lengths arrange_nth keccak_round_nth column_def rho_offsets_def xor.assoc xor.commute xor.left_commute Let_def
  layout1_def layout2_def layout3_def

lemma unrolled_round1:
  assumes s: "length s = 25"
  shows "keccak_round1 rc s = arrange layout1 (keccak_round rc s)"
proof (rule all_lanes)
  fix i :: nat
  assume "i \<in> set [0, 1, 2, 3, 4, 5, 6, 7, 8, 9, 10, 11, 12, 13, 14, 15, 16, 17, 18, 19, 20, 21, 22, 23, 24]"
  then show "keccak_round1 rc s ! i = (arrange layout1 (keccak_round rc s)) ! i"
    unfolding list.set insert_iff empty_iff simp_thms by (elim disjE) (simp_all add: keccak_round1_def lane_rules s)
qed (simp_all add: keccak_round1_def lane_rules s)

lemma unrolled_round2:
  assumes s: "length s = 25"
  shows "keccak_round2 rc (arrange layout1 s) = arrange layout2 (keccak_round rc s)"
proof (rule all_lanes)
  fix i :: nat
  assume "i \<in> set [0, 1, 2, 3, 4, 5, 6, 7, 8, 9, 10, 11, 12, 13, 14, 15, 16, 17, 18, 19, 20, 21, 22, 23, 24]"
  then show "keccak_round2 rc (arrange layout1 s) ! i = (arrange layout2 (keccak_round rc s)) ! i"
    unfolding list.set insert_iff empty_iff simp_thms by (elim disjE) (simp_all add: keccak_round2_def lane_rules s)
qed (simp_all add: keccak_round2_def lane_rules s)

lemma unrolled_round3:
  assumes s: "length s = 25"
  shows "keccak_round3 rc (arrange layout2 s) = arrange layout3 (keccak_round rc s)"
proof (rule all_lanes)
  fix i :: nat
  assume "i \<in> set [0, 1, 2, 3, 4, 5, 6, 7, 8, 9, 10, 11, 12, 13, 14, 15, 16, 17, 18, 19, 20, 21, 22, 23, 24]"
  then show "keccak_round3 rc (arrange layout2 s) ! i = (arrange layout3 (keccak_round rc s)) ! i"
    unfolding list.set insert_iff empty_iff simp_thms by (elim disjE) (simp_all add: keccak_round3_def lane_rules s)
qed (simp_all add: keccak_round3_def lane_rules s)

lemma unrolled_round4:
  assumes s: "length s = 25"
  shows "keccak_round4 rc (arrange layout3 s) = keccak_round rc s"
proof (rule all_lanes)
  fix i :: nat
  assume "i \<in> set [0, 1, 2, 3, 4, 5, 6, 7, 8, 9, 10, 11, 12, 13, 14, 15, 16, 17, 18, 19, 20, 21, 22, 23, 24]"
  then show "keccak_round4 rc (arrange layout3 s) ! i = (keccak_round rc s) ! i"
    unfolding list.set insert_iff empty_iff simp_thms by (elim disjE) (simp_all add: keccak_round4_def lane_rules s)
qed (simp_all add: keccak_round4_def lane_rules s)

lemma keccak_pass_rounds:
  "length a = 25 \<Longrightarrow> keccak_pass i a =
     keccak_round (keccak_rc ! (i + 3)) (keccak_round (keccak_rc ! (i + 2))
       (keccak_round (keccak_rc ! (i + 1)) (keccak_round (keccak_rc ! i) a)))"
  by (simp add: keccak_pass_def unrolled_round1 unrolled_round2 unrolled_round3 unrolled_round4)

lemma upt_24: "[0..<24] = [0, 1, 2, 3, 4, 5, 6, 7, 8, 9, 10, 11, 12, 13, 14, 15, 16, 17, 18, 19, 20, 21, 22, 23::nat]"
  by (simp add: upt_rec)

lemma keccakF1600_f: "length a = 25 \<Longrightarrow> keccakF1600 a = keccak_f a"
  by (simp add: keccakF1600_def keccak_f_def keccak_pass_rounds upt_24 numeral_2_eq_2 [symmetric])

lemma length_fold_keccak_round: "length s = 25 \<Longrightarrow> length (fold (\<lambda>r. keccak_round (f r)) rs s) = 25"
  by (induction rs arbitrary: s) auto

lemma length_keccakF1600 [simp]: "length a = 25 \<Longrightarrow> length (keccakF1600 a) = 25"
  by (simp add: keccakF1600_f keccak_f_def length_fold_keccak_round)

end
