(* ===== verification/Sha3_Sponge.thy ===== *)
theory Sha3_Sponge
  imports Sha3_Spec
begin

text \<open>The sponge of \<^verbatim>\<open>sha3.go\<close> against its definition: however the input is cut
  into writes, the state is that of absorbing all full blocks, the buffer holds the rest, and
  the sum is what squeezing the padded message gives.  \<open>keccak\<close> is the reference function
  that \<^verbatim>\<open>Keccak256\<close> of \<^verbatim>\<open>crypto.go\<close> computes.\<close>

unbundle bit_operations_syntax

section \<open>The sponge\<close>

lemma length_xorIn_loop [simp]: "length (xorIn_loop n i a buf) = length a"
  by (induction n i a buf rule: xorIn_loop.induct) auto

lemma length_xorInGeneric [simp]: "length (xorInGeneric a buf) = length a"
  by (simp add: xorInGeneric_def)

lemma length_copyOutGeneric: "8 dvd n \<Longrightarrow> length (copyOutGeneric a n) = n"
  by (auto simp: copyOutGeneric_def length_concat comp_def put_le_u64_def sum_list_triv elim!: dvdE)

text \<open>The state after all full blocks of a message, and what is left of it.\<close>

function absorb :: "nat \<Rightarrow> u64 list \<Rightarrow> bytes \<Rightarrow> u64 list" where
  "absorb rate a m =
     (if rate = 0 \<or> length m < rate then a else absorb rate (keccak_f (xorInGeneric a (take rate m))) (drop rate m))"
  by pat_completeness auto
termination
  by (relation "measure (\<lambda>(rate, a, m). length m)") auto

function rest_of :: "nat \<Rightarrow> bytes \<Rightarrow> bytes" where
  "rest_of rate m = (if rate = 0 \<or> length m < rate then m else rest_of rate (drop rate m))"
  by pat_completeness auto
termination
  by (relation "measure (\<lambda>(rate, m). length m)") auto

declare absorb.simps [simp del] rest_of.simps [simp del]

text \<open>The padding of a message and the hash of a sponge.\<close>

definition pad_tail :: "nat \<Rightarrow> byte \<Rightarrow> nat \<Rightarrow> bytes" where
  "pad_tail rate ds n =
     (let z = rate - 1 - n mod rate in if z = 0 then [ds XOR 0x80] else ds # replicate (z - 1) 0 @ [0x80])"

definition keccak_sponge :: "nat \<Rightarrow> nat \<Rightarrow> byte \<Rightarrow> bytes \<Rightarrow> bytes" where
  "keccak_sponge rate out ds m =
     take out (copyOutGeneric (absorb rate (replicate 25 0) (m @ pad_tail rate ds (length m))) rate)"

lemma length_rest_of: "0 < rate \<Longrightarrow> length (rest_of rate m) = length m mod rate"
proof (induction rate m rule: rest_of.induct)
  case (1 rate m)
  then show ?case
    by (simp add: rest_of.simps [of rate m] mod_if [of "length m"])
qed

lemma absorb_append: "absorb rate a (m @ q) = absorb rate (absorb rate a m) (rest_of rate m @ q)"
proof (induction rate a m rule: absorb.induct)
  case (1 rate a m)
  show ?case
  proof (cases "rate = 0 \<or> length m < rate")
    case True
    then show ?thesis
      by (simp add: absorb.simps [of rate a m] rest_of.simps [of rate m])
  next
    case False
    have "absorb rate a (m @ q) = absorb rate (keccak_f (xorInGeneric a (take rate m))) (drop rate m @ q)"
      using False by (simp add: absorb.simps [of rate a "m @ q"])
    then show ?thesis
      using 1 False by (simp add: absorb.simps [of rate a m] rest_of.simps [of rate m])
  qed
qed

lemma rest_of_append: "rest_of rate (m @ q) = rest_of rate (rest_of rate m @ q)"
proof (induction rate m rule: rest_of.induct)
  case (1 rate m)
  show ?case
  proof (cases "rate = 0 \<or> length m < rate")
    case True
    then show ?thesis
      by (simp add: rest_of.simps [of rate m])
  next
    case False
    have "rest_of rate (m @ q) = rest_of rate (drop rate m @ q)"
      using False by (simp add: rest_of.simps [of rate "m @ q"])
    then show ?thesis
      using 1 False by (simp add: rest_of.simps [of rate m])
  qed
qed

lemma length_absorb: "length a = 25 \<Longrightarrow> length (absorb rate a m) = 25"
proof (induction rate a m rule: absorb.induct)
  case (1 rate a m)
  have "length (keccak_f (xorInGeneric a (take rate m))) = 25"
    using 1(2) by (simp add: keccak_f_def length_fold_keccak_round)
  then show ?case
    using 1 by (simp add: absorb.simps [of rate a m])
qed

text \<open>The state of a sponge into which \<open>m\<close> has been written.\<close>

definition wrote_msg :: "sponge \<Rightarrow> bytes \<Rightarrow> bool" where
  "wrote_msg d m \<longleftrightarrow> 0 < sp_rate d \<and> sp_state d = SpongeAbsorbing \<and>
     sp_a d = absorb (sp_rate d) (replicate 25 0) m \<and> sp_buf d = rest_of (sp_rate d) m"

definition same_params :: "sponge \<Rightarrow> sponge \<Rightarrow> bool" where
  "same_params d e \<longleftrightarrow> sp_rate d = sp_rate e \<and> sp_outputLen d = sp_outputLen e \<and> sp_dsbyte d = sp_dsbyte e"

lemma wrote_nothing: "0 < rate \<Longrightarrow> wrote_msg (new_sponge rate out ds) []"
  by (simp add: wrote_msg_def new_sponge_def absorb.simps rest_of.simps)

lemma absorb_short: "length q < rate \<Longrightarrow> absorb rate a q = a \<and> rest_of rate q = q"
  by (simp add: absorb.simps rest_of.simps)

lemma absorb_block: "length q = rate \<Longrightarrow> 0 < rate \<Longrightarrow> absorb rate a q = keccak_f (xorInGeneric a q) \<and> rest_of rate q = []"
  by (simp add: absorb.simps [of rate a q] rest_of.simps [of rate q] absorb_short)

lemma write_pass_wrote:
  assumes "wrote_msg d m" "p \<noteq> []"
  shows "\<exists>d1 q p1. write_pass d p = (d1, p1) \<and> p = q @ p1 \<and> q \<noteq> [] \<and> wrote_msg d1 (m @ q) \<and> same_params d1 d"
proof -
  let ?r = "sp_rate d" and ?a = "sp_a d"
  have d: "0 < ?r" "sp_state d = SpongeAbsorbing" "?a = absorb ?r (replicate 25 0) m" "sp_buf d = rest_of ?r m"
    using assms(1) by (auto simp: wrote_msg_def)
  have buf: "length (sp_buf d) < ?r"
    using d(1,4) by (simp add: length_rest_of)
  have a25: "length ?a = 25"
    using d(3) by (simp add: length_absorb)
  have ap: "absorb ?r (replicate 25 0) (m @ q) = absorb ?r ?a (sp_buf d @ q)" "rest_of ?r (m @ q) = rest_of ?r (sp_buf d @ q)" for q
    using absorb_append rest_of_append d(3,4) by metis+
  show ?thesis
  proof (cases "length (sp_buf d) = 0 \<and> length p \<ge> ?r")
    case True
    then have "write_pass d p = (d\<lparr>sp_a := keccak_f (xorInGeneric ?a (take ?r p))\<rparr>, drop ?r p)"
      using a25 by (simp add: write_pass_def keccakF1600_f)
    moreover have "wrote_msg (d\<lparr>sp_a := keccak_f (xorInGeneric ?a (take ?r p))\<rparr>) (m @ take ?r p)"
      using ap [of "take ?r p"] absorb_block [of "take ?r p" ?r ?a] True d(1,2) by (simp add: wrote_msg_def)
    ultimately show ?thesis
      using assms(2) d(1) by (intro exI [of _ "d\<lparr>sp_a := keccak_f (xorInGeneric ?a (take ?r p))\<rparr>"] exI [of _ "take ?r p"]
        exI [of _ "drop ?r p"])
        (auto simp: same_params_def)
  next
    case False
    define todo where "todo = min (?r - length (sp_buf d)) (length p)"
    have todo: "0 < todo" "todo \<le> length p" "length (sp_buf d) + todo \<le> ?r"
      using buf assms(2) by (auto simp: todo_def)
    define d1 where "d1 = (if length (sp_buf d) + todo = ?r
        then d\<lparr>sp_a := keccak_f (xorInGeneric ?a (sp_buf d @ take todo p)), sp_buf := []\<rparr> else d\<lparr>sp_buf := sp_buf d @ take todo p\<rparr>)"
    have "write_pass d p = (d1, drop todo p)"
      using False a25 d(2) todo by (auto simp: write_pass_def permute_def keccakF1600_f d1_def todo_def Let_def)
    moreover have "wrote_msg d1 (m @ take todo p)"
      using ap [of "take todo p"] absorb_block [of "sp_buf d @ take todo p" ?r ?a] absorb_short [of "sp_buf d @ take todo p" ?r ?a]
        todo d(1,2,3) by (auto simp: wrote_msg_def d1_def)
    moreover have "same_params d1 d"
      by (simp add: d1_def same_params_def)
    ultimately show ?thesis
      using todo(1) assms(2) by (intro exI [of _ d1] exI [of _ "take todo p"]
        exI [of _ "drop todo p"]) auto
  qed
qed

lemma write_loop_wrote:
  assumes "wrote_msg d m" "length p \<le> n"
  shows "\<exists>d'. write_loop n d p = Some d' \<and> wrote_msg d' (m @ p) \<and> same_params d' d"
  using assms
proof (induction n arbitrary: d m p)
  case 0
  then show ?case
    by (simp add: write_loop.simps same_params_def)
next
  case (Suc n)
  show ?case
  proof (cases "p = []")
    case False
    then obtain d1 q p1 where "write_pass d p = (d1, p1)" "p = q @ p1" "q \<noteq> []" "wrote_msg d1 (m @ q)" "same_params d1 d"
      using write_pass_wrote Suc.prems(1) by blast
    then show ?thesis
      using Suc.IH [of d1 "m @ q" p1] Suc.prems(2) False
      by (cases q) (auto simp: write_loop.simps [of "Suc n"] same_params_def)
  qed (use Suc.prems in \<open>simp add: write_loop.simps same_params_def\<close>)
qed

lemma sp_Write_wrote: "wrote_msg d m \<Longrightarrow> \<exists>d'. sp_Write p d = Some d' \<and> wrote_msg d' (m @ p) \<and> same_params d' d"
  using write_loop_wrote [of d m p "length p"] by (auto simp: sp_Write_def wrote_msg_def)

lemma write_all_wrote: "wrote_msg d m \<Longrightarrow> \<exists>d'. write_all data d = Some d' \<and> wrote_msg d' (m @ concat data) \<and> same_params d' d"
proof (induction data arbitrary: d m)
  case Nil
  then show ?case
    by (simp add: same_params_def)
next
  case (Cons b data)
  obtain d1 where "sp_Write b d = Some d1" "wrote_msg d1 (m @ b)" "same_params d1 d"
    using sp_Write_wrote [OF Cons.prems] by blast
  then show ?case
    using Cons.IH [of d1 "m @ b"] by (auto simp: same_params_def)
qed

lemma padded_buffer:
  assumes "length b < rate"
  shows "(let buf = b @ [ds]; buf = buf @ replicate (rate - length buf) 0 in buf[rate - 1 := buf ! (rate - 1) XOR 0x80]) =
    b @ (let z = rate - 1 - length b in if z = 0 then [ds XOR 0x80] else ds # replicate (z - 1) (0 :: byte) @ [0x80])"
proof -
  obtain z where z: "rate = Suc (length b + z)"
    using assms less_iff_Suc_add by auto
  show ?thesis
  proof (cases z)
    case 0
    then show ?thesis
      by (simp add: z Let_def list_update_append nth_append)
  next
    case (Suc k)
    have "replicate (Suc k) (0 :: byte) = replicate k 0 @ [0]"
      by (simp add: replicate_append_same)
    then show ?thesis
      by (simp add: z Suc Let_def list_update_append nth_append del: replicate.simps)
  qed
qed

lemma padAndPermute_wrote:
  assumes "wrote_msg d m"
  shows "padAndPermute (sp_dsbyte d) d =
    (let f = absorb (sp_rate d) (replicate 25 0) (m @ pad_tail (sp_rate d) (sp_dsbyte d) (length m))
     in d\<lparr>sp_a := f, sp_buf := copyOutGeneric f (sp_rate d), sp_state := SpongeSqueezing\<rparr>)"
proof -
  let ?r = "sp_rate d" and ?a = "sp_a d"
  have d: "0 < ?r" "sp_state d = SpongeAbsorbing" "?a = absorb ?r (replicate 25 0) m" "sp_buf d = rest_of ?r m"
    using assms by (auto simp: wrote_msg_def)
  have len: "length (sp_buf d) = length m mod ?r"
    using d(1,4) by (simp add: length_rest_of)
  define tail where "tail = pad_tail ?r (sp_dsbyte d) (length m)"
  define f where "f = keccak_f (xorInGeneric ?a (sp_buf d @ tail))"
  have "length (sp_buf d @ tail) = ?r"
    using len mod_less_divisor [OF d(1), of "length m"] by (auto simp: tail_def pad_tail_def Let_def simp del: mod_less_divisor)
  then have f: "absorb ?r (replicate 25 0) (m @ tail) = f"
    using absorb_append [of ?r "replicate 25 0" m tail] absorb_block d(1,3,4) by (simp add: f_def)
  have "(let buf = sp_buf d @ [sp_dsbyte d]; buf = buf @ replicate (?r - length buf) 0 in buf[?r - 1 := buf ! (?r - 1) XOR 0x80]) =
      sp_buf d @ tail"
    using padded_buffer [of "sp_buf d" ?r "sp_dsbyte d"] len mod_less_divisor [OF d(1), of "length m"]
    by (simp add: tail_def pad_tail_def)
  then show ?thesis
    using d(2) length_absorb [of "replicate 25 0" ?r m] d(3) f
    by (simp add: padAndPermute_def permute_def f_def keccakF1600_f Let_def tail_def)
qed

lemma sp_Sum_sponge:
  assumes "wrote_msg d m" "sp_outputLen d \<le> sp_rate d" "8 dvd sp_rate d"
  shows "sp_Sum d inp = Some (inp @ keccak_sponge (sp_rate d) (sp_outputLen d) (sp_dsbyte d) m)"
proof -
  define f where "f = absorb (sp_rate d) (replicate 25 0) (m @ pad_tail (sp_rate d) (sp_dsbyte d) (length m))"
  have st: "sp_state d = SpongeAbsorbing"
    using assms(1) by (simp add: wrote_msg_def)
  have out: "\<exists>e. read_loop n e0 n = Some (take n (sp_buf e0), e)" if "n \<le> length (sp_buf e0)" for n e0
    using that by (cases n) (auto simp: read_loop.simps min_def Let_def)
  obtain e where "sp_Read (sp_outputLen d) d = Some (take (sp_outputLen d) (copyOutGeneric f (sp_rate d)), e)"
    using out [of "sp_outputLen d" "padAndPermute (sp_dsbyte d) d"] assms(2,3) st
    by (auto simp: sp_Read_def padAndPermute_wrote [OF assms(1)] length_copyOutGeneric Let_def f_def)
  then show ?thesis
    using st by (simp add: sp_Sum_def sp_clone_def keccak_sponge_def f_def)
qed

definition keccak :: "bytes \<Rightarrow> bytes" where
  "keccak m = keccak_sponge 136 32 1 m"

lemma Keccak256_keccak: "Keccak256 data = Some (keccak (concat data))"
proof -
  obtain d where "write_all data NewKeccak256 = Some d" "wrote_msg d (concat data)" "same_params d NewKeccak256"
    using write_all_wrote [OF wrote_nothing [of 136 32 1], of data] by (auto simp: NewKeccak256_def)
  then show ?thesis
    using sp_Sum_sponge [of d "concat data" "[]"]
    by (simp add: Keccak256_def keccak_def same_params_def NewKeccak256_def new_sponge_def)
qed

lemma Keccak512_sponge: "Keccak512 data = Some (keccak_sponge 72 64 1 (concat data))"
proof -
  obtain d where "write_all data NewKeccak512 = Some d" "wrote_msg d (concat data)" "same_params d NewKeccak512"
    using write_all_wrote [OF wrote_nothing [of 72 64 1], of data] by (auto simp: NewKeccak512_def)
  then show ?thesis
    using sp_Sum_sponge [of d "concat data" "[]"]
    by (simp add: Keccak512_def same_params_def NewKeccak512_def new_sponge_def)
qed

lemma length_keccak: "length (keccak m) = 32"
  by (simp add: keccak_def keccak_sponge_def length_copyOutGeneric)

lemma sum_of_sponge:
  assumes "0 < rate" "out \<le> rate" "8 dvd rate"
  shows "sum_of (new_sponge rate out ds) m = Some (keccak_sponge rate out ds m)"
proof -
  obtain d where "sp_Write m (new_sponge rate out ds) = Some d" "wrote_msg d m" "same_params d (new_sponge rate out ds)"
    using sp_Write_wrote [OF wrote_nothing [OF assms(1), of out ds], of m] by auto
  then show ?thesis
    using sp_Sum_sponge [of d m "[]"] assms by (simp add: sum_of_def same_params_def new_sponge_def)
qed

section \<open>Reading on, and cloning\<close>

text \<open>The stream of output bytes of a state: block after block, with the permutation in between.\<close>

primrec squeeze :: "nat \<Rightarrow> nat \<Rightarrow> u64 list \<Rightarrow> bytes" where
  "squeeze rate 0 a = []"
| "squeeze rate (Suc n) a = copyOutGeneric a rate @ squeeze rate n (keccak_f a)"

definition squeezing :: "sponge \<Rightarrow> bool" where
  "squeezing d \<longleftrightarrow> sp_state d = SpongeSqueezing \<and> 0 < sp_rate d \<and> 8 dvd sp_rate d \<and> length (sp_a d) = 25 \<and>
     sp_buf d \<noteq> [] \<and> (\<exists>off. sp_buf d = drop off (copyOutGeneric (sp_a d) (sp_rate d)))"

definition pending :: "nat \<Rightarrow> sponge \<Rightarrow> bytes" where
  "pending n d = sp_buf d @ squeeze (sp_rate d) n (keccak_f (sp_a d))"

lemma read_loop_squeezes:
  assumes "squeezing d" "len \<le> fuel" "len \<le> length (sp_buf d) + n * sp_rate d"
  shows "\<exists>d'. read_loop fuel d len = Some (take len (pending n d), d') \<and> squeezing d'"
  using assms
proof (induction fuel arbitrary: d len n)
  case 0
  then show ?case
    by (simp add: read_loop.simps)
next
  case (Suc fuel)
  let ?r = "sp_rate d" and ?b = "sp_buf d"
  have d: "sp_state d = SpongeSqueezing" "0 < ?r" "8 dvd ?r" "length (sp_a d) = 25" "?b \<noteq> []"
    using Suc.prems(1) by (auto simp: squeezing_def)
  obtain off where off: "?b = drop off (copyOutGeneric (sp_a d) ?r)"
    using Suc.prems(1) by (auto simp: squeezing_def)
  show ?case
  proof (cases "len < length ?b")
    case True
    then have "squeezing (d\<lparr>sp_buf := drop len ?b\<rparr>)"
      using d off by (auto simp: squeezing_def intro!: exI [of _ "off + len"] simp: add.commute)
    then show ?thesis
      using True Suc.prems(1) by (auto simp: read_loop.simps [of "Suc fuel"] read_loop.simps [of _ _ 0] pending_def min_def Let_def)
  next
    case False
    define d2 where "d2 = d\<lparr>sp_a := keccak_f (sp_a d), sp_buf := copyOutGeneric (keccak_f (sp_a d)) ?r\<rparr>"
    have p: "permute (d\<lparr>sp_buf := []\<rparr>) = d2"
      using d by (simp add: permute_def d2_def keccakF1600_f Let_def)
    have len25: "length (keccak_f (sp_a d)) = 25"
      using d(4) by (simp add: keccak_f_def length_fold_keccak_round)
    have lb: "length (copyOutGeneric (keccak_f (sp_a d)) ?r) = ?r"
      using d(3) by (rule length_copyOutGeneric)
    have sq: "squeezing d2"
      using d len25 lb by (auto simp: squeezing_def d2_def intro!: exI [of _ 0])
    have step: "read_loop (Suc fuel) d len = (case read_loop fuel d2 (len - length ?b) of None \<Rightarrow> None
        | Some (out, d3) \<Rightarrow> Some (?b @ out, d3))" if "len \<noteq> 0"
      using False that p by (auto simp: read_loop.simps [of "Suc fuel"] Let_def min_def split: option.splits)
    have nz: "len \<noteq> 0"
      using False d(5) by (cases ?b) auto
    show ?thesis
    proof (cases n)
      case 0
      then show ?thesis
        using step [OF nz] sq False Suc.prems(3) by (auto simp: pending_def read_loop.simps [of _ _ 0])
    next
      case (Suc k)
      have "len - length ?b \<le> fuel"
        using Suc.prems(2) d(5) by (cases ?b) auto
      moreover have "len - length ?b \<le> length (sp_buf d2) + k * sp_rate d2"
        using Suc.prems(3) Suc lb by (simp add: d2_def)
      ultimately obtain d' where "read_loop fuel d2 (len - length ?b) = Some (take (len - length ?b) (pending k d2), d')" "squeezing d'"
        using Suc.IH [OF sq] by blast
      then show ?thesis
        using step [OF nz] Suc False by (auto simp: pending_def d2_def)
    qed
  qed
qed

lemma squeezing_padded:
  assumes "wrote_msg d m" "8 dvd sp_rate d"
  shows "squeezing (padAndPermute (sp_dsbyte d) d)"
proof -
  define f where "f = absorb (sp_rate d) (replicate 25 0) (m @ pad_tail (sp_rate d) (sp_dsbyte d) (length m))"
  have "length (copyOutGeneric f (sp_rate d)) = sp_rate d" "0 < sp_rate d" "length f = 25"
    using assms length_absorb by (auto simp: length_copyOutGeneric wrote_msg_def f_def)
  then show ?thesis
    using assms(2) by (auto simp: padAndPermute_wrote [OF assms(1)] squeezing_def Let_def intro!: exI [of _ 0] simp flip: f_def)
qed

lemma shake_sum_squeezes:
  assumes "8 dvd rate" "n \<le> k * rate" "0 < rate"
  shows "shake_sum (new_sponge rate out ds) n m =
    Some (take n (squeeze rate k (absorb rate (replicate 25 0) (m @ pad_tail rate ds (length m)))))"
proof (cases k)
  case 0
  obtain d where "sp_Write m (new_sponge rate out ds) = Some d"
    using sp_Write_wrote [OF wrote_nothing [OF assms(3), of out ds], of m] by auto
  then show ?thesis
    using 0 assms(2) by (simp add: shake_sum_def sp_Read_def read_loop.simps [of _ _ 0])
next
  case (Suc j)
  obtain d where d: "sp_Write m (new_sponge rate out ds) = Some d" "wrote_msg d m" "same_params d (new_sponge rate out ds)"
    using sp_Write_wrote [OF wrote_nothing [OF assms(3), of out ds], of m] by auto
  then have p: "sp_rate d = rate" "sp_dsbyte d = ds" "sp_state d = SpongeAbsorbing"
    by (auto simp: same_params_def new_sponge_def wrote_msg_def)
  let ?e = "padAndPermute ds d"
  have "squeezing ?e"
    using squeezing_padded [OF d(2)] p assms(1) by simp
  moreover have "n \<le> length (sp_buf ?e) + j * sp_rate ?e"
    using padAndPermute_wrote [OF d(2)] p assms(1,2) Suc by (simp add: Let_def length_copyOutGeneric)
  ultimately obtain d' where "read_loop n ?e n = Some (take n (pending j ?e), d')"
    using read_loop_squeezes [of ?e n n j] by auto
  then show ?thesis
    using d(1) p padAndPermute_wrote [OF d(2)] Suc by (simp add: shake_sum_def sp_Read_def pending_def Let_def)
qed

text \<open>The capacity arithmetic of \<open>clone\<close> is right for the largest rate only.\<close>

lemma clone_squeezing:
  assumes "squeezing d" "sp_rate d \<le> 168"
  shows "sp_clone d = (if sp_rate d + (sp_rate d - length (sp_buf d)) < 168 then None
    else Some (d\<lparr>sp_buf := drop (sp_rate d + (sp_rate d - length (sp_buf d)) - 168) (copyOutGeneric (sp_a d) (sp_rate d))\<rparr>))"
  using assms by (auto simp: sp_clone_def squeezing_def Let_def length_copyOutGeneric)

section \<open>The two ways to mix in a block\<close>

lemma xorIn_loop_words: "xorIn_loop n i a (drop (8 * i) buf) = xor_words i (i + n) buf a"
proof (induction n arbitrary: i a)
  case (Suc n)
  have "[i..<i + Suc n] = i # [Suc i..<Suc i + n]"
    by (simp add: upt_conv_Cons del: upt_Suc)
  then show ?case
    using Suc.IH [of "Suc i"] by (simp add: xor_words_def add.commute [of _ 8] del: upt_Suc)
qed (simp add: xor_words_def)

lemma xor_words_split: "lo \<le> mid \<Longrightarrow> mid \<le> hi \<Longrightarrow> xor_words mid hi buf (xor_words lo mid buf a) = xor_words lo hi buf a"
  using upt_add_eq_append [of lo mid "hi - mid"] by (simp add: xor_words_def)

lemma xorInGeneric_words: "xorInGeneric a buf = xor_words 0 (length buf div 8) buf a"
  using xorIn_loop_words [of "length buf div 8" 0 a buf] by (simp add: xorInGeneric_def)

lemma concat_take_words:
  "k \<le> length a \<Longrightarrow> concat (map put_le_u64 (take k a)) = concat (map (\<lambda>i. put_le_u64 (a ! i)) [0..<k])"
  by (rule arg_cong [where f = concat]) (simp add: list_eq_iff_nth_eq)

lemma take_concat_words: "take (8 * k) (concat (map put_le_u64 ws)) = concat (map put_le_u64 (take k ws))"
proof (induction k arbitrary: ws)
  case (Suc k)
  have "length (put_le_u64 w) = 8" for w
    by (simp add: put_le_u64_def)
  then show ?case
    using Suc by (cases ws) simp_all
qed simp

end
