(* ===== verification/Trie_Ops.thy ===== *)
theory Trie_Ops
  imports Trie_Proofs Sha3_Sponge
begin

text \<open>Sequences of operations on tries.  The interface \<open>store_machine\<close> says of a store that each
  operation returns what an operation on a map returns and keeps the store in step with the map; its
  lemma carries this over to sequences.  The trie of \<^verbatim>\<open>trie.go\<close> and the secure trie of
  \<^verbatim>\<open>secure_trie.go\<close> meet it.  Further lemmas say how the root hash depends on the contents.\<close>

section \<open>Stores that follow a map\<close>

primrec run_ops :: "('o \<Rightarrow> 's \<Rightarrow> ('r \<times> 's) tres) \<Rightarrow> 'o list \<Rightarrow> 's \<Rightarrow> ('r list \<times> 's) tres" where
  "run_ops step [] s = TOk ([], s)"
| "run_ops step (x # xs) s =
     tbind (step x s) (\<lambda>(r, s1). tbind (run_ops step xs s1) (\<lambda>(rs, s2). TOk (r # rs, s2)))"

primrec run_spec :: "('o \<Rightarrow> 'm \<Rightarrow> 'r \<times> 'm) \<Rightarrow> 'o list \<Rightarrow> 'm \<Rightarrow> 'r list \<times> 'm" where
  "run_spec spec [] m = ([], m)"
| "run_spec spec (x # xs) m = (let (r, m1) = spec x m; (rs, m2) = run_spec spec xs m1 in (r # rs, m2))"

locale store_machine =
  fixes step :: "'o \<Rightarrow> 's \<Rightarrow> ('r \<times> 's) tres"
    and spec :: "'o \<Rightarrow> 'm \<Rightarrow> 'r \<times> 'm"
    and holds :: "'s \<Rightarrow> 'm \<Rightarrow> bool"
    and fits :: "'o \<Rightarrow> bool"
  assumes step_refines:
    "holds s m \<Longrightarrow> fits x \<Longrightarrow> \<exists>s'. step x s = TOk (fst (spec x m), s') \<and> holds s' (snd (spec x m))"
begin

lemma run_refines:
  "holds s m \<Longrightarrow> list_all fits xs \<Longrightarrow>
   \<exists>s'. run_ops step xs s = TOk (fst (run_spec spec xs m), s') \<and> holds s' (snd (run_spec spec xs m))"
proof (induction xs arbitrary: s m)
  case (Cons x xs)
  obtain s1 where s1: "step x s = TOk (fst (spec x m), s1)" "holds s1 (snd (spec x m))"
    using step_refines Cons.prems by fastforce
  obtain s2 where "run_ops step xs s1 = TOk (fst (run_spec spec xs (snd (spec x m))), s2)"
      "holds s2 (snd (run_spec spec xs (snd (spec x m))))"
    using Cons.IH [OF s1(2)] Cons.prems(2) by auto
  then show ?case
    using s1(1) by (simp add: case_prod_beta Let_def)
qed simp

end

section \<open>The operations of a trie\<close>

datatype trie_op = OpGet bytes | OpUpdate bytes bytes | OpDelete bytes | OpHash

definition trie_step :: "(bytes \<Rightarrow> bytes) \<Rightarrow> node_db \<Rightarrow> trie_op \<Rightarrow> Trie \<Rightarrow> (bytes option \<times> Trie) tres" where
  "trie_step sha db x t =
     (case x of
        OpGet k \<Rightarrow> TryGet db k t
      | OpUpdate k v \<Rightarrow> tbind (TryUpdate db k v t) (\<lambda>t'. TOk (None, t'))
      | OpDelete k \<Rightarrow> tbind (TryDelete db k t) (\<lambda>t'. TOk (None, t'))
      | OpHash \<Rightarrow> tbind (trie_Hash sha t) (\<lambda>(_, t'). TOk (None, t')))"

definition map_step :: "trie_op \<Rightarrow> (bytes \<rightharpoonup> bytes) \<Rightarrow> bytes option \<times> (bytes \<rightharpoonup> bytes)" where
  "map_step x m =
     (case x of
        OpGet k \<Rightarrow> (m k, m)
      | OpUpdate k v \<Rightarrow> (None, m(k := if v = [] then None else Some v))
      | OpDelete k \<Rightarrow> (None, m(k := None))
      | OpHash \<Rightarrow> (None, m))"

fun op_fits :: "trie_op \<Rightarrow> bool" where
  "op_fits (OpUpdate k v) = (length k < 2 ^ 30 \<and> length v < 2 ^ 32)"
| "op_fits _ = True"

section \<open>The root hash and the contents\<close>

definition root_of :: "(bytes \<Rightarrow> bytes) \<Rightarrow> (bytes \<rightharpoonup> bytes) \<Rightarrow> bytes \<Rightarrow> bool" where
  "root_of sha m h \<longleftrightarrow> (\<exists>N. wf0 N \<and> contents N m \<and> h = root_hash sha N)"

lemma root_of_unique: "root_of sha m h \<Longrightarrow> root_of sha m g \<Longrightarrow> h = g"
  unfolding root_of_def using contents_unique by metis

lemma trie_encodings_eq: "wf0 N \<Longrightarrow> contents N m \<Longrightarrow> trie_encodings sha m = penc sha ` subs N"
  unfolding trie_encodings_def using contents_unique by blast

lemma contents_PNil: "contents PNil m \<longleftrightarrow> m = Map.empty"
  by (auto simp: contents_def)

lemma contents_minimal: "wf0 N \<Longrightarrow> contents N m \<Longrightarrow> m \<noteq> Map.empty \<Longrightarrow> minimal N"
  using contents_PNil by (auto simp: wf0_def)

lemma ppath_subs: "set (ppath N k) \<subseteq> subs N"
proof (induction N k rule: ppath.induct)
  case (2 cs key)
  show ?case
  proof (cases "key \<noteq> [] \<and> unat (key ! 0) < length cs")
    case True
    then have "set (ppath (cs ! unat (key ! 0)) (drop 1 key)) \<subseteq> subs (cs ! unat (key ! 0))"
      using 2 by blast
    then show ?thesis
      using True nth_mem [of "unat (key ! 0)" cs] by auto
  qed auto
qed auto

lemma bigs_subs: "set (bigs sha (tl (ppath N k))) \<subseteq> penc sha ` subs N"
  using ppath_subs [of N k] list.set_sel(2) [of "ppath N k"]
  by (cases "ppath N k") (auto simp: bigs_def)

context keccak_size
begin

lemma Hash_holds:
  assumes "trie_holds sha db t m"
  shows "\<exists>h t'. trie_Hash sha t = TOk (h, t') \<and> trie_holds sha db t' m \<and> root_of sha m h"
proof -
  obtain N where N: "sizes m" "rep sha db True (tr_root t) N" "wf0 N" "contents N m"
    using assms by (auto simp: trie_holds_def)
  obtain n' where "trie_Hash sha t = TOk (root_hash sha N, t\<lparr>tr_root := n'\<rparr>)" "rep sha db True n' N"
    using trie_Hash_ok [OF sha_length N(2,3) wf0_small [OF N(3,4,1)]] by blast
  then show ?thesis
    using N by (auto simp: trie_holds_def root_of_def)
qed

lemma trie_step_holds:
  assumes "trie_holds sha db t m" "op_fits x"
  shows "\<exists>t'. trie_step sha db x t = TOk (fst (map_step x m), t') \<and> trie_holds sha db t' (snd (map_step x m))"
proof (cases x)
  case (OpGet k)
  then show ?thesis
    using TryGet_holds [OF assms(1), of k] by (auto simp: trie_step_def map_step_def)
next
  case (OpUpdate k v)
  then show ?thesis
    using TryUpdate_holds [OF assms(1), of k v] assms(2) by (auto simp: trie_step_def map_step_def)
next
  case (OpDelete k)
  then show ?thesis
    using TryDelete_holds [OF assms(1), of k] by (auto simp: trie_step_def map_step_def)
next
  case OpHash
  then show ?thesis
    using Hash_holds [OF assms(1)] by (auto simp: trie_step_def map_step_def)
qed

text \<open>A proof that verifies against the root hash of a trie gives what the trie holds.\<close>

lemma VerifyProof_sound:
  assumes "root_of sha m h" "sizes m" "m \<noteq> Map.empty" "inj_on sha (set ps \<union> trie_encodings sha m)"
  shows "\<exists>res. VerifyProof sha h k ps = TOk res \<and> (\<forall>v. res = Inr v \<longrightarrow> v = m k)"
proof -
  obtain N where N: "wf0 N" "contents N m" "h = root_hash sha N"
    using assms(1) by (auto simp: root_of_def)
  have min: "minimal N"
    using N assms(3) contents_minimal by blast
  then have "h = sha (penc sha N)"
    using N(3) by (auto simp: root_hash_def elim: minimal.cases)
  then show ?thesis
    using verify_sound [OF min wf0_small [OF N(1,2) assms(2)] hexkey_keybytesToHex, of ps 0 k] assms(4) N
    by (simp add: trie_encodings_eq VerifyProof_def contents_def)
qed

lemma VerifyProof_path:
  assumes "root_of sha m h" "sizes m" "m \<noteq> Map.empty"
  obtains ps where "VerifyProof sha h k ps = TOk (Inr (m k))" "set ps \<subseteq> trie_encodings sha m"
proof -
  obtain N where N: "wf0 N" "contents N m" "h = root_hash sha N"
    using assms(1) by (auto simp: root_of_def)
  have min: "minimal N"
    using N assms(3) contents_minimal by blast
  then have "h = sha (penc sha N)" "N \<in> subs N"
    using N(3) subs_self minimal_is_tree by (auto simp: root_hash_def elim: minimal.cases)
  then show thesis
    using that [of "penc sha N # bigs sha (tl (ppath N (keybytesToHex k)))"] bigs_subs N
      verify_complete [OF min wf0_small [OF N(1,2) assms(2)] hexkey_keybytesToHex, of 0 k]
    by (simp add: trie_encodings_eq VerifyProof_def contents_def)
qed

lemma root_binds:
  assumes "root_of sha m h" "root_of sha m' h" "sizes m" "sizes m'" "m \<noteq> Map.empty" "m' \<noteq> Map.empty"
    "inj_on sha (trie_encodings sha m \<union> trie_encodings sha m')"
  shows "m = m'"
proof
  fix k
  obtain ps where ps: "VerifyProof sha h k ps = TOk (Inr (m k))" "set ps \<subseteq> trie_encodings sha m"
    using VerifyProof_path [OF assms(1,3,5)] by blast
  have "inj_on sha (set ps \<union> trie_encodings sha m')"
    using inj_on_subset [OF assms(7)] ps(2) by blast
  from VerifyProof_sound [OF assms(2,4,6) this, of k] show "m k = m' k"
    using ps(1) by auto
qed

lemma Prove_holds:
  assumes "trie_holds sha db t m" "m \<noteq> Map.empty"
  shows "\<exists>h ps. root_of sha m h \<and> Prove sha db k t = TOk ps \<and> VerifyProof sha h k ps = TOk (Inr (m k))"
proof -
  obtain N where N: "sizes m" "rep sha db True (tr_root t) N" "wf0 N" "contents N m"
    using assms by (auto simp: trie_holds_def)
  let ?k = "keybytesToHex k"
  have min: "minimal N" and small: "small N"
    using N assms(2) contents_minimal wf0_small by blast+
  have h: "root_of sha m (sha (penc sha N))"
    using N min by (auto simp: root_of_def root_hash_def elim: minimal.cases)
  have "2 * length ?k + (if is_hash (tr_root t) then 2 else 1) \<le> depth_bound ?k"
    by (simp add: depth_bound_def)
  from prove_path_rep [OF N(2) at_key_root [OF N(3)] small this]
  obtain ns where ns: "prove_path db (tr_cachegen t) (depth_bound ?k) (tr_root t) ?k = TOk ns" "list_all2 (stands db) ns (ppath N ?k)"
    by blast
  have "trie_hasher sha (newHasher sha (\<lambda>_ _ _. None) 0 0) False UNIV"
    by unfold_locales (simp_all add: newHasher_def)
  from trie_hasher.prove_encode_ok [OF this _ ns(2), of 0]
  have "prove_encode (newHasher sha (\<lambda>_ _ _. None) 0 0) 0 ns = TOk (penc sha N # bigs sha (tl (ppath N ?k)))"
    using ppath_minimal [OF min hexkey_keybytesToHex, of k] by auto
  then show ?thesis
    using h ns(1) verify_complete [OF min small hexkey_keybytesToHex, of 0 k] N(4)
    by (auto simp: Prove_def VerifyProof_def contents_def simp del: verify_loop.simps intro!: exI [of _ "sha (penc sha N)"])
qed

text \<open>Committing writes all nodes; opening the root hash in the database gives the same contents.\<close>

lemma Commit_holds:
  assumes "trie_holds sha db t m" "addressed sha S db" "trie_encodings sha m \<subseteq> S" "inj_on sha S"
  shows "\<exists>h t' db'. CommitTo sha plain_put db t = TOk (h, t', db') \<and> root_of sha m h \<and> trie_holds sha db' t' m \<and>
    db \<subseteq>\<^sub>m db' \<and> addressed sha S db' \<and>
    ((m \<noteq> Map.empty \<and> h \<in> {replicate 32 0, emptyRoot}) \<or> (\<exists>t2. trie_New h db' = TOk t2 \<and> trie_holds sha db' t2 m))"
proof -
  obtain N where N: "sizes m" "rep sha db True (tr_root t) N" "wf0 N" "contents N m"
    using assms(1) by (auto simp: trie_holds_def)
  have small: "small N"
    using N wf0_small by blast
  have S: "penc sha ` subs N \<subseteq> S"
    using assms(3) N trie_encodings_eq by simp
  obtain n' d' where c: "CommitTo sha plain_put db t = TOk (root_hash sha N, t\<lparr>tr_root := n', tr_cachegen := tr_cachegen t + 1\<rparr>, d')"
      "rep sha d' True n' N" "db \<subseteq>\<^sub>m d'" "addressed sha S d'" "N \<noteq> PNil \<longrightarrow> saved sha d' True N"
    using CommitTo_ok [OF sha_length assms(4) S assms(2) N(2,3) small] by metis
  have "(m \<noteq> Map.empty \<and> root_hash sha N \<in> {replicate 32 0, emptyRoot}) \<or>
      (\<exists>t2. trie_New (root_hash sha N) d' = TOk t2 \<and> trie_holds sha d' t2 m)"
  proof (cases "m = Map.empty")
    case True
    then have "N = PNil"
      using N contents_unique [of N PNil m] contents_PNil by (simp add: wf0_def)
    then show ?thesis
      using True by (auto simp: trie_New_def root_hash_def trie_holds_empty)
  next
    case False
    then have min: "minimal N" "N \<noteq> PNil"
      using N contents_minimal by (auto elim: minimal.cases)
    then have s: "saved sha d' True N" "root_hash sha N = sha (penc sha N)"
      using c(5) by (simp_all add: root_hash_def)
    show ?thesis
    proof (cases "sha (penc sha N) \<in> {replicate 32 0, emptyRoot}")
      case False
      then obtain n where "trie_New (sha (penc sha N)) d' = TOk \<lparr>tr_root = n, tr_cachegen = 0, tr_cachelimit = 0\<rparr>" "rep sha d' True n N"
        using trie_New_ok [of sha, OF sha_length s(1) min(1) small] by auto
      then show ?thesis
        using s(2) N by (auto simp: trie_holds_def)
    qed (use False s(2) in simp)
  qed
  moreover have "root_of sha m (root_hash sha N)" "trie_holds sha d' (t\<lparr>tr_root := n', tr_cachegen := tr_cachegen t + 1\<rparr>) m"
    using c(2) N by (auto simp: root_of_def trie_holds_def)
  ultimately show ?thesis
    using c(1,3,4) by blast
qed

end

section \<open>The secure trie\<close>

definition sec_step :: "(bytes \<Rightarrow> bytes) \<Rightarrow> node_db \<Rightarrow> trie_op \<Rightarrow> SecureTrie \<Rightarrow> (bytes option \<times> SecureTrie) tres" where
  "sec_step sha db x t =
     (case x of
        OpGet k \<Rightarrow> sec_TryGet sha db k t
      | OpUpdate k v \<Rightarrow> tbind (sec_TryUpdate sha db k v t) (\<lambda>t'. TOk (None, t'))
      | OpDelete k \<Rightarrow> tbind (sec_TryDelete sha db k t) (\<lambda>(_, t'). TOk (None, t'))
      | OpHash \<Rightarrow> tbind (trie_Hash sha (sec_trie t)) (\<lambda>(_, tr). TOk (None, t\<lparr>sec_trie := tr\<rparr>)))"

fun op_keys :: "trie_op \<Rightarrow> bytes set" where
  "op_keys (OpGet k) = {k}"
| "op_keys (OpUpdate k v) = {k}"
| "op_keys (OpDelete k) = {k}"
| "op_keys OpHash = {}"

text \<open>A secure trie holds a map on a set of keys when the trie inside holds it under the hashes of the keys.\<close>

definition sec_holds :: "(bytes \<Rightarrow> bytes) \<Rightarrow> node_db \<Rightarrow> bytes set \<Rightarrow> SecureTrie \<Rightarrow> (bytes \<rightharpoonup> bytes) \<Rightarrow> bool" where
  "sec_holds sha db K t m \<longleftrightarrow> (\<exists>m'. trie_holds sha db (sec_trie t) m' \<and> (\<forall>k\<in>K. m' (sha k) = m k))"

definition sec_fits :: "bytes set \<Rightarrow> trie_op \<Rightarrow> bool" where
  "sec_fits K x \<longleftrightarrow> op_keys x \<subseteq> K \<and> (case x of OpUpdate k v \<Rightarrow> length v < 2 ^ 32 | _ \<Rightarrow> True)"

lemma sec_trie_getSecKeyCache [simp]: "sec_trie (getSecKeyCache t) = sec_trie t"
  by (simp add: getSecKeyCache_def)

context keccak_size
begin

lemma sec_step_holds:
  assumes "inj_on sha K" "sec_holds sha db K t m" "sec_fits K x"
  shows "\<exists>t'. sec_step sha db x t = TOk (fst (map_step x m), t') \<and> sec_holds sha db K t' (snd (map_step x m))"
proof -
  obtain m' where m': "trie_holds sha db (sec_trie t) m'" "\<forall>k\<in>K. m' (sha k) = m k"
    using assms(2) by (auto simp: sec_holds_def)
  have upd: "\<forall>k\<in>K. (m'(sha k0 := w)) (sha k) = (m(k0 := w)) k" if "k0 \<in> K" for k0 w
    using that m'(2) inj_onD [OF assms(1)] by auto
  show ?thesis
  proof (cases x)
    case (OpGet k)
    then have "k \<in> K"
      using assms(3) by (simp add: sec_fits_def)
    moreover obtain t' where "TryGet db (sha k) (sec_trie t) = TOk (m' (sha k), t')" "trie_holds sha db t' m'"
      using TryGet_holds [OF m'(1)] by blast
    ultimately show ?thesis
      using OpGet m' by (auto simp: sec_step_def map_step_def sec_TryGet_def sec_holds_def)
  next
    case (OpUpdate k v)
    then have k: "k \<in> K" "length v < 2 ^ 32"
      using assms(3) by (simp_all add: sec_fits_def)
    obtain t' where "TryUpdate db (sha k) v (sec_trie t) = TOk t'" "trie_holds sha db t' (m'(sha k := if v = [] then None else Some v))"
      using TryUpdate_holds [OF m'(1), of "sha k" v] k(2) by (auto simp: sha_length)
    then show ?thesis
      using OpUpdate upd [OF k(1)] by (auto simp: sec_step_def map_step_def sec_TryUpdate_def sec_holds_def Let_def)
  next
    case (OpDelete k)
    then have k: "k \<in> K"
      using assms(3) by (simp add: sec_fits_def)
    obtain t' where "TryDelete db (sha k) (sec_trie t) = TOk t'" "trie_holds sha db t' (m'(sha k := None))"
      using TryDelete_holds [OF m'(1)] by blast
    then show ?thesis
      using OpDelete upd [OF k] by (auto simp: sec_step_def map_step_def sec_TryDelete_def sec_holds_def Let_def)
  next
    case OpHash
    then show ?thesis
      using Hash_holds [OF m'(1)] m'(2) by (auto simp: sec_step_def map_step_def sec_holds_def)
  qed
qed

end

section \<open>The contracts hold for Keccak\<close>

sublocale keccak_size \<subseteq> tm: store_machine "trie_step sha db" map_step "trie_holds sha db" op_fits for db
  by unfold_locales (rule trie_step_holds)

interpretation kc: keccak_size keccak
  by unfold_locales (rule length_keccak)

interpretation kh: trie_hasher keccak "newHasher keccak (\<lambda>_ _ _. None) 0 0" False UNIV
  by unfold_locales (simp_all add: newHasher_def)

end
