(* ===== verification/Trie_Results.thy ===== *)
theory Trie_Results
  imports Trie_Ops
begin

text \<open>What the Merkle trie of \<^verbatim>\<open>common/trie\<close> guarantees, with the Keccak function that
  \<^verbatim>\<open>common/crypto/sha3\<close> computes.\<close>

abbreviation empty_trie :: Trie where
  "empty_trie \<equiv> \<lparr>tr_root = NilNode, tr_cachegen = 0, tr_cachelimit = 0\<rparr>"

text \<open>A trie with a single entry, for the examples.\<close>

lemma single_entry:
  assumes "length k < 2 ^ 30" "length v < 2 ^ 32" "v \<noteq> []"
  obtains t where "TryUpdate db k v empty_trie = TOk t" "trie_holds keccak db t [k \<mapsto> v]"
  using kc.TryUpdate_holds [OF trie_holds_empty, of k v db 0 0] assms by auto

lemma single_encodings:
  assumes "v \<noteq> []"
  shows "trie_encodings sha [k \<mapsto> v] = {penc sha (PShort (keybytesToHex k) (PVal v))}"
proof -
  have p: "pinsert PNil (keybytesToHex k) (PVal v) = PShort (keybytesToHex k) (PVal v)"
    using hexkey_not_Nil [OF hexkey_keybytesToHex] by (simp add: pleaf_def)
  have "wf0 (pinsert PNil (keybytesToHex k) (PVal v))"
    using wf0_pinsert [of PNil v k] assms by (simp add: wf0_def)
  moreover have "contents (pinsert PNil (keybytesToHex k) (PVal v)) [k \<mapsto> v]"
    using contents_pinsert [of PNil Map.empty k v] by (simp add: wf0_def contents_PNil)
  ultimately show ?thesis
    using trie_encodings_eq p by fastforce
qed

text \<open>C25: a trie behaves as a map from keys to values, whatever part of it is in memory and whatever part only in the
  database: every sequence of lookups, updates, deletions and hash computations succeeds, and the lookups return what the
  sequence of operations on the map returns.  An update with an empty value is a deletion.\<close>

theorem trie_run_is_map:
  assumes "trie_holds keccak db t m" "list_all op_fits xs"
  shows "\<exists>t'. run_ops (trie_step keccak db) xs t = TOk (fst (run_spec map_step xs m), t') \<and>
    trie_holds keccak db t' (snd (run_spec map_step xs m))"
  using assms by (rule kc.tm.run_refines)

theorem trie_run_is_map_witness:
  "\<exists>t'. run_ops (trie_step keccak Map.empty)
      [OpUpdate [1] [7], OpUpdate [1, 2] [8], OpGet [1], OpHash, OpUpdate [1] [], OpGet [1], OpDelete [5], OpGet [1, 2]] empty_trie =
    TOk ([None, None, Some [7], None, None, None, None, Some [8]], t')"
  using trie_run_is_map [OF trie_holds_empty, of
      "[OpUpdate [1] [7], OpUpdate [1, 2] [8], OpGet [1], OpHash, OpUpdate [1] [], OpGet [1], OpDelete [5], OpGet [1, 2]]" Map.empty 0 0]
  by (auto simp: map_step_def)

text \<open>C26: the root hash does not depend on the history: two sequences of operations on an empty trie, over any databases,
  that leave the same map behind give the same root hash.\<close>

theorem trie_hash_history_free:
  assumes "list_all op_fits xs" "list_all op_fits ys"
    "snd (run_spec map_step xs Map.empty) = snd (run_spec map_step ys Map.empty)"
  shows "\<exists>h rs t t' qs u u'. run_ops (trie_step keccak db) xs empty_trie = TOk (rs, t) \<and> trie_Hash keccak t = TOk (h, t') \<and>
    run_ops (trie_step keccak db') ys empty_trie = TOk (qs, u) \<and> trie_Hash keccak u = TOk (h, u')"
proof -
  obtain rs t where t: "run_ops (trie_step keccak db) xs empty_trie = TOk (rs, t)"
      "trie_holds keccak db t (snd (run_spec map_step xs Map.empty))"
    using kc.tm.run_refines [OF trie_holds_empty assms(1)] by blast
  obtain qs u where u: "run_ops (trie_step keccak db') ys empty_trie = TOk (qs, u)"
      "trie_holds keccak db' u (snd (run_spec map_step xs Map.empty))"
    using kc.tm.run_refines [OF trie_holds_empty assms(2)] assms(3) by metis
  obtain h t' g u' where "trie_Hash keccak t = TOk (h, t')" "trie_Hash keccak u = TOk (g, u')"
      "root_of keccak (snd (run_spec map_step xs Map.empty)) h" "root_of keccak (snd (run_spec map_step xs Map.empty)) g"
    using kc.Hash_holds t(2) u(2) by blast
  then show ?thesis
    using t(1) u(1) root_of_unique by blast
qed

theorem trie_hash_history_free_witness:
  "\<exists>h rs t t' qs u u'.
     run_ops (trie_step keccak Map.empty) [OpUpdate [1] [7], OpUpdate [2] [9], OpDelete [1]] empty_trie = TOk (rs, t) \<and>
     trie_Hash keccak t = TOk (h, t') \<and>
     run_ops (trie_step keccak Map.empty) [OpUpdate [2] [5], OpHash, OpUpdate [2] [9]] empty_trie = TOk (qs, u) \<and>
     trie_Hash keccak u = TOk (h, u')"
  by (rule trie_hash_history_free) (simp_all add: map_step_def fun_eq_iff)

text \<open>C27: as long as Keccak has no collision among the encodings of their nodes, two tries that are not empty have the same
  root hash exactly when they hold the same map.\<close>

theorem trie_hash_binds:
  assumes "trie_holds keccak db t m" "trie_holds keccak db' u m'" "m \<noteq> Map.empty" "m' \<noteq> Map.empty"
    "inj_on keccak (trie_encodings keccak m \<union> trie_encodings keccak m')"
  shows "(\<exists>h t' u'. trie_Hash keccak t = TOk (h, t') \<and> trie_Hash keccak u = TOk (h, u')) \<longleftrightarrow> m = m'"
proof -
  obtain h t' g u' where "trie_Hash keccak t = TOk (h, t')" "trie_Hash keccak u = TOk (g, u')" "root_of keccak m h" "root_of keccak m' g"
    using kc.Hash_holds assms(1,2) by blast
  moreover have "sizes m" "sizes m'"
    using assms(1,2) by (auto simp: trie_holds_def)
  ultimately show ?thesis
    using kc.root_binds assms(3-5) root_of_unique by auto
qed

theorem trie_hash_binds_witness:
  "\<exists>t u. TryUpdate Map.empty [1] [7] empty_trie = TOk t \<and> TryUpdate Map.empty [1] [7] empty_trie = TOk u \<and>
     (\<exists>h t' u'. trie_Hash keccak t = TOk (h, t') \<and> trie_Hash keccak u = TOk (h, u'))"
proof -
  obtain t where t: "TryUpdate Map.empty [1] [7] empty_trie = TOk t" "trie_holds keccak Map.empty t [[1] \<mapsto> [7]]"
    by (rule single_entry [of "[1]" "[7]" Map.empty]) simp_all
  show ?thesis
    using trie_hash_binds [OF t(2) t(2)] t(1) by (simp add: single_encodings)
qed

text \<open>C28: committing a trie to a database whose entries are stored under their hashes writes a database from which opening
  the returned root hash gives a trie with the same contents, unless the hash is one of the two values that \<open>New\<close> takes for
  an empty trie.  Nothing that was in the database is lost, and the committed trie keeps its contents.\<close>

theorem trie_commit_open:
  assumes "trie_holds keccak db t m" "addressed keccak S db" "trie_encodings keccak m \<subseteq> S" "inj_on keccak S"
  shows "\<exists>h t' db'. CommitTo keccak plain_put db t = TOk (h, t', db') \<and> trie_holds keccak db' t' m \<and>
    db \<subseteq>\<^sub>m db' \<and> addressed keccak S db' \<and>
    ((m \<noteq> Map.empty \<and> h \<in> {replicate 32 0, emptyRoot}) \<or> (\<exists>t2. trie_New h db' = TOk t2 \<and> trie_holds keccak db' t2 m))"
  using kc.Commit_holds [OF assms] by blast

theorem trie_commit_open_witness:
  "\<exists>t h t' db'. TryUpdate Map.empty [1] [7] empty_trie = TOk t \<and> CommitTo keccak plain_put Map.empty t = TOk (h, t', db') \<and>
     (h \<in> {replicate 32 0, emptyRoot} \<or> (\<exists>t2. trie_New h db' = TOk t2 \<and> trie_holds keccak db' t2 [[1] \<mapsto> [7]]))"
proof -
  obtain t where t: "TryUpdate Map.empty [1] [7] empty_trie = TOk t" "trie_holds keccak Map.empty t [[1] \<mapsto> [7]]"
    by (rule single_entry [of "[1]" "[7]" Map.empty]) simp_all
  show ?thesis
    using trie_commit_open [OF t(2), of "trie_encodings keccak [[1] \<mapsto> [7]]"] t(1)
    by (simp add: single_encodings addressed_def) blast
qed

text \<open>C29: a proof against the root hash of a trie cannot lie: \<open>VerifyProof\<close> returns, for every list of byte strings, and
  a value it returns without an error is the one the trie holds under the key (none for an absent key), as long as Keccak has
  no collision among the elements of the proof and the encodings of the nodes of the trie.\<close>

theorem trie_proof_sound:
  assumes "trie_holds keccak db t m" "trie_Hash keccak t = TOk (h, t')" "m \<noteq> Map.empty"
    "inj_on keccak (set ps \<union> trie_encodings keccak m)"
  shows "\<exists>res. VerifyProof keccak h k ps = TOk res \<and> (\<forall>v. res = Inr v \<longrightarrow> v = m k)"
proof -
  have "root_of keccak m h" "sizes m"
    using kc.Hash_holds [OF assms(1)] assms(1,2) by (auto simp: trie_holds_def)
  then show ?thesis
    using kc.VerifyProof_sound assms(3,4) by blast
qed

theorem trie_proof_sound_witness:
  "\<exists>t h t'. TryUpdate Map.empty [1] [7] empty_trie = TOk t \<and> trie_Hash keccak t = TOk (h, t') \<and>
     (\<exists>res. VerifyProof keccak h [2] [penc keccak (PShort (keybytesToHex [1]) (PVal [7]))] = TOk res \<and> res \<noteq> Inr (Some [7]))"
proof -
  obtain t where t: "TryUpdate Map.empty [1] [7] empty_trie = TOk t" "trie_holds keccak Map.empty t [[1] \<mapsto> [7]]"
    by (rule single_entry [of "[1]" "[7]" Map.empty]) simp_all
  obtain h t' where h: "trie_Hash keccak t = TOk (h, t')"
    using kc.Hash_holds [OF t(2)] by blast
  show ?thesis
    using trie_proof_sound [OF t(2) h, of "[penc keccak (PShort (keybytesToHex [1]) (PVal [7]))]" "[2]"] t(1) h
    by (fastforce simp: single_encodings)
qed



text \<open>C31: a secure trie, which stores values under the hashes of their keys, behaves as a map on every set of keys without
  a Keccak collision.\<close>

theorem secure_trie_is_map:
  assumes "inj_on keccak K" "list_all (sec_fits K) xs"
  shows "\<exists>s t. NewSecure emptyRoot db limit = TOk s \<and>
    run_ops (sec_step keccak db) xs s = TOk (fst (run_spec map_step xs Map.empty), t)"
proof -
  let ?s = "\<lparr>sec_trie = SetCacheLimit limit empty_trie, sec_cache = Map.empty, sec_owned = False\<rparr>"
  have m: "store_machine (sec_step keccak db) map_step (sec_holds keccak db K) (sec_fits K)"
    by unfold_locales (rule kc.sec_step_holds [OF assms(1)])
  have h: "sec_holds keccak db K ?s Map.empty"
    by (auto simp: sec_holds_def SetCacheLimit_def intro!: exI [of _ Map.empty] trie_holds_empty)
  obtain t where t: "run_ops (sec_step keccak db) xs ?s = TOk (fst (run_spec map_step xs Map.empty), t)"
    using store_machine.run_refines [OF m, OF h assms(2)] by (elim exE conjE)
  have "NewSecure emptyRoot db limit = TOk ?s"
    by (simp add: NewSecure_def trie_New_def)
  with t show ?thesis
    by (intro exI conjI)
qed

theorem secure_trie_is_map_witness:
  "\<exists>s t. NewSecure emptyRoot Map.empty 0 = TOk s \<and>
     run_ops (sec_step keccak Map.empty) [OpGet [1], OpUpdate [1] [7], OpGet [1], OpDelete [1], OpGet [1]] s =
       TOk ([None, None, Some [7], None, None], t)"
  using secure_trie_is_map [of "{[1]}" "[OpGet [1], OpUpdate [1] [7], OpGet [1], OpDelete [1], OpGet [1]]" Map.empty 0]
  by (simp add: sec_fits_def map_step_def)

text \<open>C32: the three encodings of keys translate into each other without loss: a key to its nibbles and back, and nibbles with or
  without the terminator to the compact form and back; the compact form of nibbles has half as many bytes plus one.\<close>

theorem key_encodings_roundtrip:
  assumes "nibbles ns"
  shows "hexToKeybytes (keybytesToHex b) = Some b \<and> compactToHex (hexToCompact (keybytesToHex b)) = Some (keybytesToHex b) \<and>
    compactToHex (hexToCompact ns) = Some ns \<and> compactToHex (hexToCompact (ns @ [16])) = Some (ns @ [16]) \<and>
    length (hexToCompact ns) = length ns div 2 + 1 \<and> length (hexToCompact (ns @ [16])) = length ns div 2 + 1"
proof -
  have "hexkey (ns @ [16])"
    using assms by (simp add: hexkey_append)
  then have "compactToHex (hexToCompact ns) = Some ns" "compactToHex (hexToCompact (ns @ [16])) = Some (ns @ [16])"
      "compactToHex (hexToCompact (keybytesToHex b)) = Some (keybytesToHex b)"
    using assms hexkey_keybytesToHex by (simp_all add: compactToHex_hexToCompact)
  moreover have "length (compact_rest ns) div 2 = length ns div 2"
    by (auto simp: compact_rest_def elim!: oddE)
  then have "length (hexToCompact ns) = length ns div 2 + 1" "length (hexToCompact (ns @ [16])) = length ns div 2 + 1"
    using hexToCompact_parts [OF assms, of True] hexToCompact_parts [OF assms, of False]
    by (simp_all add: length_decodeNibbles)
  ultimately show ?thesis
    by (simp add: hexToKeybytes_keybytesToHex)
qed

theorem key_encodings_roundtrip_witness:
  "compactToHex (hexToCompact [1, 2, 3]) = Some [1, 2, 3] \<and> compactToHex (hexToCompact [1, 2, 3, 16]) = Some [1, 2, 3, 16] \<and>
   length (hexToCompact [1, 2, 3]) = 2"
  using key_encodings_roundtrip [of "[1, 2, 3]" "[]"] by simp


end
