(* ===== verification/Sha3_Results.thy ===== *)
theory Sha3_Results
  imports Sha3_Sponge
begin

text \<open>What the Keccak implementation guarantees.\<close>

text \<open>C20: the permutation of \<^verbatim>\<open>keccakf.go\<close>, whose rounds are unrolled four at a time with the lanes left in
  permuted places, computes Keccak-f[1600]: 24 rounds of the five steps theta, rho, pi, chi and iota.\<close>

theorem permutation_is_keccak_f:
  assumes "length a = 25"
  shows "keccakF1600 a = keccak_f a"
  using assms by (rule keccakF1600_f)

theorem permutation_is_keccak_f_witness:
  "length (replicate 25 (1 :: u64)) = 25 \<and> keccakF1600 (replicate 25 1) = keccak_f (replicate 25 1)"
  using permutation_is_keccak_f [of "replicate 25 1"] by simp

text \<open>C21: however its input is split over writes, a hash object computes the sponge of the whole input: pad it, absorb
  it block by block and cut the result from the state.  So the Keccak functions of \<^verbatim>\<open>crypto.go\<close> and the SHA-3
  functions of \<^verbatim>\<open>hashes.go\<close> return a value for every input, never panic, and return as many bytes as they
  promise.\<close>

theorem hashes_are_sponges:
  "Keccak256 data = Some (keccak_sponge 136 32 0x01 (concat data)) \<and> length (keccak_sponge 136 32 0x01 (concat data)) = 32 \<and>
   Keccak512 data = Some (keccak_sponge 72 64 0x01 (concat data)) \<and> length (keccak_sponge 72 64 0x01 (concat data)) = 64 \<and>
   Sum224 m = Some (keccak_sponge 144 28 0x06 m) \<and> Sum256 m = Some (keccak_sponge 136 32 0x06 m) \<and>
   Sum384 m = Some (keccak_sponge 104 48 0x06 m) \<and> Sum512 m = Some (keccak_sponge 72 64 0x06 m)"
proof -
  have "Keccak256 data = Some (keccak_sponge 136 32 1 (concat data))"
    using Keccak256_keccak by (simp add: keccak_def)
  moreover have "Keccak512 data = Some (keccak_sponge 72 64 1 (concat data))"
    by (rule Keccak512_sponge)
  ultimately show ?thesis
    by (simp add: keccak_sponge_def length_copyOutGeneric Sum224_def Sum256_def Sum384_def Sum512_def New224_def New256_def
        New384_def New512_def sum_of_sponge)
qed

text \<open>C22: the SHAKE functions return, for every number of bytes, that many bytes of the stream that squeezing the padded
  input gives.\<close>

theorem shake_is_stream:
  assumes "n \<le> k * 168" "l \<le> k * 136"
  shows "ShakeSum128 n m = Some (take n (squeeze 168 k (absorb 168 (replicate 25 0) (m @ pad_tail 168 0x1f (length m))))) \<and>
    ShakeSum256 l m = Some (take l (squeeze 136 k (absorb 136 (replicate 25 0) (m @ pad_tail 136 0x1f (length m)))))"
  using assms by (simp add: ShakeSum128_def ShakeSum256_def NewShake128_def NewShake256_def shake_sum_squeezes)

theorem shake_is_stream_witness:
  "ShakeSum128 300 [1, 2] =
     Some (take 300 (squeeze 168 3 (absorb 168 (replicate 25 0) ([1, 2] @ pad_tail 168 0x1f (length [1, 2 :: byte]))))) \<and>
   ShakeSum256 400 [1, 2] =
     Some (take 400 (squeeze 136 3 (absorb 136 (replicate 25 0) ([1, 2] @ pad_tail 136 0x1f (length [1, 2 :: byte])))))"
  by (rule shake_is_stream) simp_all

text \<open>C23: on blocks of the rates in use, the variants that read and write the buffer as machine words do what the portable
  ones do.\<close>

theorem unaligned_is_generic:
  assumes "length a = 25" "length buf \<in> {72, 104, 136, 144, 168}"
  shows "xorInUnaligned a buf = xorInGeneric a buf \<and> copyOutUnaligned a (length buf) = copyOutGeneric a (length buf)"
proof
  show "xorInUnaligned a buf = xorInGeneric a buf"
    using assms(2) by (auto simp: xorInUnaligned_def xorInGeneric_words xor_words_split)
  obtain k where k: "length buf = 8 * k" "k \<le> 21"
    using assms(2) by fastforce
  have "take (8 * k) (concat (map put_le_u64 (take 21 a))) = concat (map put_le_u64 (take k (take 21 a)))"
    by (rule take_concat_words)
  then show "copyOutUnaligned a (length buf) = copyOutGeneric a (length buf)"
    using k assms(1) concat_take_words [of k a] by (simp add: copyOutUnaligned_def copyOutGeneric_def min_def)
qed

theorem unaligned_is_generic_witness:
  "xorInUnaligned (replicate 25 1) (replicate 136 7) = xorInGeneric (replicate 25 1) (replicate 136 7) \<and>
   copyOutUnaligned (replicate 25 1) 136 = copyOutGeneric (replicate 25 1) 136"
  using unaligned_is_generic [of "replicate 25 1" "replicate 136 7"] by simp



end
