(* ===== verification/Spec2Isabelle.thy ===== *)
theory Spec2Isabelle
  imports State_Refine Transition_Results Rlp_Results Trie_Results Sha3_Results
begin

text \<open>
  A verification development for go-hpb, a blockchain node in Go whose sources are under
  \<^verbatim>\<open>src/\<close>.  It models the deterministic core of the node, from the hash function to the
  application of a message to the state, and proves what the rest of the node relies on.

  \<^bold>\<open>The parts and how they interact.\<close>  Accounts live in the state database
  (\<^verbatim>\<open>blockchain/state\<close>), which caches them above a Merkle trie (\<^verbatim>\<open>common/trie\<close>).  The trie
  stores its nodes in RLP (\<^verbatim>\<open>common/rlp\<close>) under their Keccak hash (\<^verbatim>\<open>common/crypto/sha3\<close>).
  \<^verbatim>\<open>ApplyMessage\<close> (\<^verbatim>\<open>blockchain/state_transition.go\<close>) buys gas, runs a native transfer or the
  virtual machine (\<^verbatim>\<open>hvm/evm\<close>) on the state, refunds gas and pays the author of the block.  The
  machine undoes failed calls by the snapshots of the state database.

  \<^bold>\<open>Theories and code.\<close>  Definitions keep the names of the Go functions where Isabelle allows it; a
  prefix tells methods of the same name apart (\<open>so_\<close> for \<^verbatim>\<open>stateObject\<close>, \<open>sp_\<close> for the sponge,
  \<open>sec_\<close> for \<^verbatim>\<open>SecureTrie\<close>, \<open>s_\<close> for \<^verbatim>\<open>rlp.Stream\<close>).

  \<^item> \<open>Go_Prelude\<close>, \<open>Common_Math\<close>: Go types and the standard library the code calls;
    \<^verbatim>\<open>common/bytes.go\<close>, \<^verbatim>\<open>common/types.go\<close>, \<^verbatim>\<open>common/math\<close>.
  \<^item> \<open>State_Db\<close>: \<^verbatim>\<open>statedb.go\<close>, \<^verbatim>\<open>state_object.go\<close>, \<^verbatim>\<open>journal.go\<close>; a \<open>StateDB\<close> record
    with its journal and revisions, one definition per method.  \<open>State_Journal\<close> and \<open>State_Refine\<close> relate
    it to an abstract account map; the interface \<open>undo_log\<close> says what a journal promises and is interpreted on
    the model's \<open>undo\<close>.
  \<^item> \<open>Evm_Base\<close>, \<open>Evm_Gas\<close>, \<open>Evm_Instructions\<close>, \<open>Evm_Precompiled\<close>, \<open>Evm_Calls\<close>,
    \<open>Evm_Interpreter\<close>: \<^verbatim>\<open>hvm/evm\<close> and \<^verbatim>\<open>hvm/hvm.go\<close>; stack, memory, contracts, gas functions, all
    instructions, the jump table, message calls and the loop.  \<open>Evm_Relations\<close> says how execution may change the
    state; \<open>Evm_Arith\<close>, \<open>Evm_Ops\<close>, \<open>Evm_Gas_Spec\<close>, \<open>Evm_Precompiled_Spec\<close>, \<open>Evm_Call_Spec\<close>,
    \<open>Evm_Call_Ops\<close>, \<open>Evm_Safety\<close> and \<open>Evm_Loop\<close> prove it for every row of the table and then for
    the loop; \<open>Evm_Results\<close> states it for callers.
  \<^item> \<open>State_Transition\<close>, \<open>State_Transition_Spec\<close>, \<open>Transition_Results\<close>:
    \<^verbatim>\<open>state_transition.go\<close>, the gas pool, \<^verbatim>\<open>native.go\<close> and the intrinsic gas.
  \<^item> \<open>Rlp\<close>, \<open>Rlp_Stream\<close>: \<^verbatim>\<open>encode.go\<close>, \<^verbatim>\<open>raw.go\<close>, \<^verbatim>\<open>decode.go\<close>;
    \<open>Rlp_Spec\<close>, \<open>Rlp_Roundtrip\<close>, \<open>Rlp_Results\<close> relate them to the recursive format.
  \<^item> \<open>Trie_Node\<close>, \<open>Trie\<close>: \<^verbatim>\<open>encoding.go\<close>, \<^verbatim>\<open>node.go\<close>, \<^verbatim>\<open>hasher.go\<close>, \<^verbatim>\<open>trie.go\<close>,
    \<^verbatim>\<open>proof.go\<close>, \<^verbatim>\<open>secure_trie.go\<close>.  \<open>Trie_Map\<close> defines tries as finite maps and shows that their
    minimal form is unique; \<open>Trie_Codec\<close>, \<open>Trie_Refine\<close>, \<open>Trie_Commit\<close> and \<open>Trie_Proofs\<close> show
    that nodes, partly in memory and partly in the database, implement them; \<open>Trie_Ops\<close> and \<open>Trie_Results\<close>
    state it for sequences of operations.  The interfaces are \<open>keccak_size\<close> (a hash of 32 bytes),
    \<open>trie_hasher\<close> (a hasher object) and \<open>store_machine\<close> (a store that follows a map); all are interpreted
    on the model with the Keccak function.
  \<^item> \<open>Sha3\<close>: \<^verbatim>\<open>keccakf.go\<close>, \<^verbatim>\<open>sha3.go\<close>, \<^verbatim>\<open>hashes.go\<close>, \<^verbatim>\<open>shake.go\<close>, \<^verbatim>\<open>xor_generic.go\<close>,
    \<^verbatim>\<open>xor_unaligned.go\<close> and the hash functions of \<^verbatim>\<open>crypto.go\<close>.  \<open>Sha3_Spec\<close> shows the unrolled
    rounds equal to the reference permutation, \<open>Sha3_Sponge\<close> the object with its buffer equal to the sponge of the
    whole input, and \<open>Sha3_Results\<close> states it for the hash functions.

  \<^bold>\<open>What the theorems show.\<close>  The virtual machine returns for every code and input, does not panic, never
  creates value or gas, changes nothing in read-only mode and leaves no trace of a failed call.  Applying a message keeps
  balances non-negative, never increases their sum and accounts for the gas of the block.  Snapshots restore the state.
  RLP encodes its format and decodes what it encoded.  A trie behaves as a map, its root hash depends on its contents only
  and, barring collisions of Keccak, determines them; commits can be reopened, Merkle proofs are complete and sound.  The
  Keccak code computes the Keccak sponge.  Some theorems state what the code does wrong: an endless decoding loop,
  panics on malformed input, replayable native transfers, a clone that is no copy.

  \<^bold>\<open>Fuel and bounds.\<close>  The interpreter takes a number of passes; every pass costs gas, so any number above the
  gas of the call is enough, and the theorems assume just that.  Trie operations take a depth, \<open>depth_bound\<close>, twice the
  number of nibbles of the key plus two, since at most one node is resolved between two steps along the key; it is part of
  the exported operations and shown to be enough.  The loops of the decoding stream run at most once per input byte, those
  of the sponge at most once per byte written or read.  Keys of tries are shorter than \<open>2 ^ 30\<close> bytes and values
  shorter than \<open>2 ^ 32\<close>, so that encoded sizes stay within 64 bits.

  \<^bold>\<open>Parameters.\<close>  The state database takes the hash function and the contents of its tries and code database as
  fields of \<open>state_env\<close>, the machine the precompiled curve operations and the block context as fields of
  \<open>evm_env\<close>.  The trie functions take the hash function as an argument and the theorems instantiate it with Keccak;
  that Keccak has no collision on a given finite set of encodings is a hypothesis where it is needed.  Writing to the
  database is the argument \<open>put\<close>; the theorems on commits take a store that does not fail, \<open>plain_put\<close>.

  \<^bold>\<open>Not modelled.\<close>  Networking, synchronisation, RPC, the event system, block production, wallets, the
  command line, logging and metrics are input and output, timers and goroutines around the core.  The elliptic curves and
  the assembly permutation are C and assembly.  JSON and ABI encodings work by reflection.  The transaction pool, the
  consensus engine, the insertion of blocks, trie iterators and state sync, the commit of the state database, the
  reuse of big integers in the machine and its tracing are left out.
\<close>

section \<open>Account state\<close>




end
